(* ===== verification/Py_Prelude.thy ===== *)
theory Py_Prelude
  imports Main "HOL-Library.Multiset"
begin

text \<open>
  The Python fragment that \<^verbatim>\<open>src/sudoku.py\<close> is written in, as HOL functions.

  \<^item> Results. A Python expression either yields a value or raises; the model
    returns \<open>'a result\<close>, a sum whose left summand is the exception raised:
    \<^verbatim>\<open>IndexError\<close> by a subscription, \<^verbatim>\<open>ValueError\<close> by \<^verbatim>\<open>int\<close>, \<^verbatim>\<open>OSError\<close> by
    \<^verbatim>\<open>open\<close>. \<open>bind_result\<close> sequences two computations and stops at the first
    exception.
  \<^item> Lists. \<open>py_get\<close> and \<open>py_set\<close> are subscription \<^verbatim>\<open>xs[i]\<close> and item
    assignment \<^verbatim>\<open>xs[i] = v\<close> on a Python list: an index in \<open>[-len, len)\<close> is
    accepted, a negative one counts from the end (\<open>norm_index\<close>), any other raises
    \<^verbatim>\<open>IndexError\<close>. \<open>py_range a b\<close> is \<^verbatim>\<open>range(a, b)\<close>.
  \<^item> Loops. \<open>for_each\<close> is a \<^verbatim>\<open>for\<close> loop that updates an accumulator and may
    raise in its body; \<open>for_first\<close> is a \<^verbatim>\<open>for\<close> loop whose body may execute a
    \<^verbatim>\<open>return\<close>: the result is \<open>Some\<close> of the first value returned, or \<open>None\<close>
    when the loop runs to its end. \<open>map_result\<close> is the loop that appends one
    computed value per element.

  The lemmas characterise each primitive by when it succeeds and what it yields, so
  that the component theories never unfold them again; \<open>for_first_stop\<close> and
  \<open>for_first_nested_stop\<close> give the result of a loop left by \<^verbatim>\<open>return\<close> whatever
  its body does. The collection \<open>py_eval\<close>
  holds the equations that evaluate the primitives on closed terms.
\<close>

section \<open>Results and exceptions\<close>

named_theorems py_eval "equations that evaluate the Python primitives on closed terms"

datatype error = IndexError | ValueError | OSError

type_synonym 'a result = "error + 'a"

definition bind_result :: "'a result \<Rightarrow> ('a \<Rightarrow> 'b result) \<Rightarrow> 'b result" where
  "bind_result m f = (case m of Inl e \<Rightarrow> Inl e | Inr a \<Rightarrow> f a)"

definition succeeds :: "'a result \<Rightarrow> bool" where
  "succeeds m = (case m of Inl e \<Rightarrow> False | Inr a \<Rightarrow> True)"

section \<open>List subscription and item assignment\<close>

definition norm_index :: "nat \<Rightarrow> int \<Rightarrow> nat option" where
  "norm_index n i =
     (let j = (if i < 0 then i + int n else i)
      in if 0 \<le> j \<and> j < int n then Some (nat j) else None)"

definition index_ok :: "nat \<Rightarrow> int \<Rightarrow> bool" where
  "index_ok n i \<longleftrightarrow> - int n \<le> i \<and> i < int n"

definition pos :: "nat \<Rightarrow> int \<Rightarrow> nat" where
  "pos n i = nat (if i < 0 then i + int n else i)"

definition py_get :: "'a list \<Rightarrow> int \<Rightarrow> 'a result" where
  "py_get xs i =
     (case norm_index (length xs) i of
        None \<Rightarrow> Inl IndexError
      | Some k \<Rightarrow> Inr (xs ! k))"

definition py_set :: "'a list \<Rightarrow> int \<Rightarrow> 'a \<Rightarrow> 'a list result" where
  "py_set xs i v =
     (case norm_index (length xs) i of
        None \<Rightarrow> Inl IndexError
      | Some k \<Rightarrow> Inr (xs[k := v]))"

definition py_range :: "int \<Rightarrow> int \<Rightarrow> int list" where
  "py_range a b = [a..b - 1]"

section \<open>Loops\<close>

fun for_each :: "'a list \<Rightarrow> 's \<Rightarrow> ('a \<Rightarrow> 's \<Rightarrow> 's result) \<Rightarrow> 's result" where
  "for_each [] acc body = Inr acc"
| "for_each (x # xs) acc body = bind_result (body x acc) (\<lambda>acc'. for_each xs acc' body)"

fun for_first :: "'a list \<Rightarrow> ('a \<Rightarrow> 'b option result) \<Rightarrow> 'b option result" where
  "for_first [] body = Inr None"
| "for_first (x # xs) body =
     (case body x of
        Inl e \<Rightarrow> Inl e
      | Inr (Some r) \<Rightarrow> Inr (Some r)
      | Inr None \<Rightarrow> for_first xs body)"

fun map_result :: "('a \<Rightarrow> 'b result) \<Rightarrow> 'a list \<Rightarrow> 'b list result" where
  "map_result f [] = Inr []"
| "map_result f (x # xs) =
     bind_result (f x) (\<lambda>v. bind_result (map_result f xs) (\<lambda>vs. Inr (v # vs)))"

section \<open>Lemmas on results\<close>

lemma bind_result_Inr [simp, py_eval]: "bind_result (Inr a) f = f a"
  by (simp add: bind_result_def)

lemma bind_result_Inl [simp, py_eval]: "bind_result (Inl e) f = Inl e"
  by (simp add: bind_result_def)

lemma bind_result_return [simp]: "bind_result m Inr = m"
  by (cases m) simp_all

lemma bind_result_assoc:
  "bind_result (bind_result m f) g = bind_result m (\<lambda>a. bind_result (f a) g)"
  by (cases m) simp_all

lemma bind_result_eq_Inr:
  "bind_result m f = Inr b \<longleftrightarrow> (\<exists>a. m = Inr a \<and> f a = Inr b)"
  by (cases m) simp_all

lemma bind_result_eq_Inl:
  "bind_result m f = Inl e \<longleftrightarrow> m = Inl e \<or> (\<exists>a. m = Inr a \<and> f a = Inl e)"
  by (cases m) simp_all

lemma bind_result_cong [fundef_cong]:
  "m = m' \<Longrightarrow> (\<And>a. m' = Inr a \<Longrightarrow> f a = f' a) \<Longrightarrow> bind_result m f = bind_result m' f'"
  by (cases m') simp_all

lemma succeeds_Inr [simp, py_eval]: "succeeds (Inr a)"
  by (simp add: succeeds_def)

lemma succeeds_Inl [simp, py_eval]: "\<not> succeeds (Inl e)"
  by (simp add: succeeds_def)

lemma succeeds_iff: "succeeds m \<longleftrightarrow> (\<exists>a. m = Inr a)"
  by (cases m) simp_all

lemma not_succeeds_iff: "\<not> succeeds m \<longleftrightarrow> (\<exists>e. m = Inl e)"
  by (cases m) simp_all

lemma result_option_cases [case_names Raise Return Continue]:
  obtains e where "m = Inl e" | r where "m = Inr (Some r)" | "m = Inr None"
  by (cases m) (auto simp: option.split_sel)

lemma succeeds_bind_result:
  "succeeds (bind_result m f) \<longleftrightarrow> (\<exists>a. m = Inr a \<and> succeeds (f a))"
  by (cases m) simp_all

section \<open>Lemmas on indices\<close>

lemma norm_index_eq:
  "norm_index n i = (if index_ok n i then Some (pos n i) else None)"
  by (auto simp: norm_index_def index_ok_def pos_def Let_def)

lemma norm_index_None [simp]: "norm_index n i = None \<longleftrightarrow> \<not> index_ok n i"
  by (simp add: norm_index_eq)

lemma norm_index_Some: "norm_index n i = Some k \<longleftrightarrow> index_ok n i \<and> k = pos n i"
  by (auto simp: norm_index_eq)

lemma pos_less [simp]: "index_ok n i \<Longrightarrow> pos n i < n"
  by (auto simp: index_ok_def pos_def)

lemma pos_nonneg [simp]: "0 \<le> i \<Longrightarrow> pos n i = nat i"
  by (simp add: pos_def)

lemma pos_of_nat [simp]: "pos n (int k) = k"
  by (simp add: pos_def)

lemma pos_neg: "i < 0 \<Longrightarrow> pos n i = nat (i + int n)"
  by (simp add: pos_def)

lemma index_ok_of_nat [simp]: "index_ok n (int k) \<longleftrightarrow> k < n"
  by (auto simp: index_ok_def)

lemma index_ok_nonneg: "0 \<le> i \<Longrightarrow> index_ok n i \<longleftrightarrow> i < int n"
  by (auto simp: index_ok_def)

lemma index_ok_zero [simp]: "\<not> index_ok 0 i"
  by (auto simp: index_ok_def)

lemma pos_eq_iff:
  "index_ok n i \<Longrightarrow> index_ok n j \<Longrightarrow>
   pos n i = pos n j \<longleftrightarrow> i = j \<or> i = j + int n \<or> j = i + int n"
  by (auto simp: index_ok_def pos_def)

section \<open>Lemmas on subscription and assignment\<close>

lemma py_get_eq:
  "py_get xs i = (if index_ok (length xs) i then Inr (xs ! pos (length xs) i) else Inl IndexError)"
  by (simp add: py_get_def norm_index_eq)

lemma py_set_eq:
  "py_set xs i v =
     (if index_ok (length xs) i then Inr (xs[pos (length xs) i := v]) else Inl IndexError)"
  by (simp add: py_set_def norm_index_eq)

lemma py_get_Inr: "py_get xs i = Inr a \<longleftrightarrow> index_ok (length xs) i \<and> a = xs ! pos (length xs) i"
  by (auto simp: py_get_eq)

lemma py_get_Inl: "py_get xs i = Inl e \<longleftrightarrow> \<not> index_ok (length xs) i \<and> e = IndexError"
  by (auto simp: py_get_eq)

lemma py_set_Inr:
  "py_set xs i v = Inr ys \<longleftrightarrow> index_ok (length xs) i \<and> ys = xs[pos (length xs) i := v]"
  by (auto simp: py_set_eq)

lemma py_set_Inl: "py_set xs i v = Inl e \<longleftrightarrow> \<not> index_ok (length xs) i \<and> e = IndexError"
  by (auto simp: py_set_eq)

lemma succeeds_py_get [simp]: "succeeds (py_get xs i) \<longleftrightarrow> index_ok (length xs) i"
  by (simp add: py_get_eq)

lemma succeeds_py_set [simp]: "succeeds (py_set xs i v) \<longleftrightarrow> index_ok (length xs) i"
  by (simp add: py_set_eq)

lemma py_get_nat [simp]: "k < length xs \<Longrightarrow> py_get xs (int k) = Inr (xs ! k)"
  by (simp add: py_get_eq)

lemma py_get_in_set: "py_get xs i = Inr a \<Longrightarrow> a \<in> set xs"
  by (auto simp: py_get_Inr)

lemma py_set_length: "py_set xs i v = Inr ys \<Longrightarrow> length ys = length xs"
  by (auto simp: py_set_Inr)

lemma py_get_py_set_same: "py_set xs i v = Inr ys \<Longrightarrow> py_get ys i = Inr v"
  by (auto simp: py_set_Inr py_get_eq)

lemma py_get_py_set_other:
  "py_set xs i v = Inr ys \<Longrightarrow> pos (length xs) j \<noteq> pos (length xs) i \<Longrightarrow>
   py_get ys j = py_get xs j"
  by (auto simp: py_set_Inr py_get_eq)

lemma py_set_py_get_id: "py_get xs i = Inr a \<Longrightarrow> py_set xs i a = Inr xs"
  by (auto simp: py_get_Inr py_set_eq)

lemma py_set_py_set_same:
  "py_set xs i v = Inr ys \<Longrightarrow> py_set ys i w = py_set xs i w"
  by (auto simp: py_set_eq split: if_splits)

lemma set_py_set_subset: "py_set xs i v = Inr ys \<Longrightarrow> set ys \<subseteq> insert v (set xs)"
  by (auto simp: py_set_Inr dest: subsetD [OF set_update_subset_insert])

section \<open>Lemmas on ranges\<close>

lemma length_py_range [simp]: "length (py_range a b) = nat (b - a)"
  by (simp add: py_range_def)

lemma set_py_range [simp]: "set (py_range a b) = {a..<b}"
  by (auto simp: py_range_def)

lemma nth_py_range [simp]: "k < nat (b - a) \<Longrightarrow> py_range a b ! k = a + int k"
  by (simp add: py_range_def)

lemma distinct_py_range [simp]: "distinct (py_range a b)"
  by (simp add: py_range_def)

lemma sorted_py_range [simp]: "sorted (py_range a b)"
  by (simp add: py_range_def)

lemma py_range_empty [simp]: "b \<le> a \<Longrightarrow> py_range a b = []"
  by (simp add: py_range_def)

lemma py_range_rec: "a < b \<Longrightarrow> py_range a b = a # py_range (a + 1) b"
  by (simp add: py_range_def upto_rec1)

lemma py_range_eq_map: "py_range a b = map (\<lambda>k. a + int k) [0..<nat (b - a)]"
  by (rule nth_equalityI) simp_all

lemma py_range_0_9 [py_eval]: "py_range 0 9 = [0, 1, 2, 3, 4, 5, 6, 7, 8]"
  by (simp add: py_range_def upto_rec1)

lemma py_range_1_10 [py_eval]: "py_range 1 10 = [1, 2, 3, 4, 5, 6, 7, 8, 9]"
  by (simp add: py_range_def upto_rec1)

lemma py_range_3 [py_eval]: "py_range a (a + 3) = [a, a + 1, a + 2]"
  by (simp add: py_range_def upto_rec1)

section \<open>Lemmas on loops\<close>

lemma map_result_Inr_iff:
  "map_result f xs = Inr ys \<longleftrightarrow> list_all2 (\<lambda>x y. f x = Inr y) xs ys"
proof (induction xs arbitrary: ys)
  case Nil
  show ?case by auto
next
  case (Cons x xs)
  show ?case
    by (cases ys) (auto simp: bind_result_eq_Inr Cons.IH)
qed

lemma map_result_InlD: "map_result f xs = Inl e \<Longrightarrow> \<exists>x \<in> set xs. f x = Inl e"
  by (induction xs) (auto simp: bind_result_eq_Inl)

lemma map_result_total:
  "(\<And>x. x \<in> set xs \<Longrightarrow> f x = Inr (g x)) \<Longrightarrow> map_result f xs = Inr (map g xs)"
  by (induction xs) simp_all

lemma map_result_Inl_iff:
  assumes "\<And>x e'. f x = Inl e' \<Longrightarrow> e' = e"
  shows "map_result f xs = Inl e \<longleftrightarrow> (\<exists>x \<in> set xs. f x = Inl e)"
  using assms
proof (induction xs)
  case Nil
  show ?case by simp
next
  case (Cons x xs)
  then show ?case
    by (cases "f x"; cases "map_result f xs") (auto simp: bind_result_eq_Inl)
qed

lemma succeeds_map_result:
  "succeeds (map_result f xs) \<longleftrightarrow> (\<forall>x \<in> set xs. succeeds (f x))"
proof (induction xs)
  case Nil
  show ?case by simp
next
  case (Cons x xs)
  then show ?case
    by (cases "f x"; cases "map_result f xs") simp_all
qed

lemma map_result_length: "map_result f xs = Inr ys \<Longrightarrow> length ys = length xs"
  by (auto simp: map_result_Inr_iff dest: list_all2_lengthD)

lemma map_result_nth:
  "map_result f xs = Inr ys \<Longrightarrow> k < length xs \<Longrightarrow> f (xs ! k) = Inr (ys ! k)"
  by (auto simp: map_result_Inr_iff dest: list_all2_nthD)

lemma map_result_append:
  "map_result f (xs @ ys) =
     bind_result (map_result f xs) (\<lambda>us. bind_result (map_result f ys) (\<lambda>vs. Inr (us @ vs)))"
  by (induction xs) (simp_all add: bind_result_assoc)

lemma for_each_append_body:
  "for_each xs acc (\<lambda>x vs. bind_result (f x) (\<lambda>v. Inr (vs @ [v]))) =
     bind_result (map_result f xs) (\<lambda>vs. Inr (acc @ vs))"
proof (induction xs arbitrary: acc)
  case Nil
  show ?case by simp
next
  case (Cons x xs)
  show ?case
    by (cases "f x") (simp_all add: Cons.IH bind_result_assoc)
qed

lemma for_each_append:
  "for_each (xs @ ys) acc body = bind_result (for_each xs acc body) (\<lambda>acc'. for_each ys acc' body)"
  by (induction xs arbitrary: acc) (simp_all add: bind_result_assoc)

lemma for_each_total:
  "(\<And>x a. x \<in> set xs \<Longrightarrow> body x a = Inr (step x a)) \<Longrightarrow>
   for_each xs acc body = Inr (fold step xs acc)"
  by (induction xs arbitrary: acc) simp_all

lemma for_first_None_iff:
  "for_first xs body = Inr None \<longleftrightarrow> (\<forall>x \<in> set xs. body x = Inr None)"
  by (induction xs) (auto split: sum.splits option.splits)

lemma for_first_Some_iff:
  "for_first xs body = Inr (Some r) \<longleftrightarrow>
     (\<exists>k < length xs. body (xs ! k) = Inr (Some r) \<and> (\<forall>j < k. body (xs ! j) = Inr None))"
proof (induction xs)
  case Nil
  show ?case by simp
next
  case (Cons x xs)
  show ?case
    by (cases "body x" rule: result_option_cases)
      (simp_all add: Cons.IH Ex_less_Suc2 All_less_Suc2)
qed

lemma for_first_total:
  assumes "\<And>x. x \<in> set xs \<Longrightarrow> body x = Inr (g x)"
  shows "for_first xs body =
    Inr (case filter (\<lambda>x. g x \<noteq> None) xs of [] \<Rightarrow> None | x # _ \<Rightarrow> g x)"
  using assms
proof (induction xs)
  case Nil
  show ?case by simp
next
  case (Cons x xs)
  have "body x = Inr (g x)"
    by (simp add: Cons.prems)
  moreover have "for_first xs body =
      Inr (case filter (\<lambda>x. g x \<noteq> None) xs of [] \<Rightarrow> None | x # _ \<Rightarrow> g x)"
    by (rule Cons.IH) (simp add: Cons.prems)
  ultimately show ?case
    by (cases "g x") simp_all
qed

lemma succeeds_for_first_total:
  assumes "\<And>x. x \<in> set xs \<Longrightarrow> succeeds (body x)"
  shows "succeeds (for_first xs body)"
  using assms
proof (induction xs)
  case Nil
  show ?case by simp
next
  case (Cons x xs)
  have "succeeds (body x)" and "succeeds (for_first xs body)"
    by (simp_all add: Cons)
  then show ?case
    by (cases "body x" rule: result_option_cases) simp_all
qed

lemma map_result_map: "map_result f (map g xs) = map_result (\<lambda>x. f (g x)) xs"
  by (induction xs) simp_all

lemma map_result_cong [fundef_cong]:
  "xs = ys \<Longrightarrow> (\<And>x. x \<in> set ys \<Longrightarrow> f x = g x) \<Longrightarrow> map_result f xs = map_result g ys"
  by (induction ys arbitrary: xs) auto

lemma map_result_raises:
  assumes "x \<in> set xs" "f x = Inl e" "\<And>x e'. x \<in> set xs \<Longrightarrow> f x = Inl e' \<Longrightarrow> e' = e"
  shows "map_result f xs = Inl e"
  using assms
proof (induction xs)
  case Nil
  then show ?case by simp
next
  case (Cons a xs)
  show ?case
  proof (cases "f a")
    case (Inl e')
    with Cons.prems(3) [of a e'] show ?thesis by simp
  next
    case (Inr b)
    with Cons.prems have "x \<in> set xs" by auto
    then have "map_result f xs = Inl e"
      using Cons.prems by (intro Cons.IH) auto
    with Inr show ?thesis by simp
  qed
qed

lemma for_each_extend:
  "for_each xs acc (\<lambda>x values. bind_result (g x) (\<lambda>vs. Inr (values @ vs))) =
   bind_result (map_result g xs) (\<lambda>vss. Inr (acc @ concat vss))"
proof (induction xs arbitrary: acc)
  case Nil
  show ?case by simp
next
  case (Cons x xs)
  show ?case
    by (cases "g x"; cases "map_result g xs") (simp_all add: Cons.IH)
qed

lemma map_result_product:
  "map_result (\<lambda>(x, y). f x y) (List.product xs ys) =
   bind_result (map_result (\<lambda>x. map_result (f x) ys) xs) (\<lambda>vss. Inr (concat vss))"
proof (induction xs)
  case Nil
  show ?case by simp
next
  case (Cons x xs)
  show ?case
    by (cases "map_result (f x) ys"; cases "map_result (\<lambda>x. map_result (f x) ys) xs")
      (simp_all add: Cons.IH map_result_append map_result_map)
qed

lemma for_each_product:
  "for_each xs acc (\<lambda>x values. for_each ys values (\<lambda>y values.
      bind_result (f x y) (\<lambda>v. Inr (values @ [v])))) =
   bind_result (map_result (\<lambda>(x, y). f x y) (List.product xs ys)) (\<lambda>vs. Inr (acc @ vs))"
  by (simp add: for_each_append_body for_each_extend map_result_product bind_result_assoc)

lemma for_each_insert_if:
  "for_each xs acc (\<lambda>v options. Inr (if P v then insert v options else options)) =
   Inr (acc \<union> {v \<in> set xs. P v})"
  by (induction xs arbitrary: acc) auto

lemma map_result_py_get_range:
  "map_result (py_get row) (py_range 0 (int (length row))) = Inr row"
proof -
  have "map_result (py_get row) (py_range 0 (int (length row))) =
      Inr (map (\<lambda>x. row ! nat x) (py_range 0 (int (length row))))"
    by (rule map_result_total) (auto simp: py_get_eq index_ok_def)
  also have "map (\<lambda>x. row ! nat x) (py_range 0 (int (length row))) = row"
    by (rule nth_equalityI) simp_all
  finally show ?thesis .
qed

lemma py_range_nat: "py_range (int a) (int b) = map int [a..<b]"
  by (rule nth_equalityI) (auto simp: nat_diff_distrib')

lemma product_map_map:
  "List.product (map f xs) (map g ys) = map (\<lambda>(x, y). (f x, g y)) (List.product xs ys)"
  by (induction xs) simp_all

lemma py_range_0_9_nat: "py_range 0 9 = map int [0..<9]"
  using py_range_nat [of 0 9] by simp

lemma for_first_map: "for_first (map g xs) body = for_first xs (\<lambda>x. body (g x))"
  by (induction xs) (simp_all split: sum.split option.split)

lemma for_first_find:
  assumes "\<And>x. x \<in> set xs \<Longrightarrow> body x = Inr (if P x then Some (h x) else None)"
  shows "for_first xs body = Inr (map_option h (find P xs))"
  using assms by (induction xs) simp_all

lemma find_Some_set: "find P xs = Some v \<Longrightarrow> v \<in> set xs \<and> P v"
  by (induction xs) (auto split: if_splits)

lemma find_append:
  "find P (us @ vs) = (case find P us of None \<Rightarrow> find P vs | Some a \<Rightarrow> Some a)"
  by (induction us) simp_all

lemma find_map_Pair:
  "find P (map (\<lambda>x. (x, y)) us) = map_option (\<lambda>x. (x, y)) (find (\<lambda>x. P (x, y)) us)"
  by (induction us) simp_all

lemma for_first_nested_find:
  assumes "\<And>x y. x \<in> set xs \<Longrightarrow> y \<in> set ys \<Longrightarrow>
    body x y = Inr (if P (x, y) then Some (h (x, y)) else None)"
  shows "for_first ys (\<lambda>y. for_first xs (\<lambda>x. body x y)) =
    Inr (map_option h (find P (concat (map (\<lambda>y. map (\<lambda>x. (x, y)) xs) ys))))"
proof -
  have inner: "for_first xs (\<lambda>x. body x y) =
      Inr (map_option h (find P (map (\<lambda>x. (x, y)) xs)))" if "y \<in> set ys" for y
    using for_first_find [of xs "\<lambda>x. body x y" "\<lambda>x. P (x, y)" "\<lambda>x. h (x, y)"] that assms
    by (simp add: find_map_Pair option.map_comp comp_def)
  then show ?thesis
  proof (induction ys)
    case Nil
    show ?case by simp
  next
    case (Cons y ys)
    then show ?case
      by (cases "find P (map (\<lambda>x. (x, y)) xs)") (simp_all add: find_append)
  qed
qed

lemma result_option_stop:
  "r \<noteq> Inr None \<Longrightarrow>
   (case r of Inl e \<Rightarrow> Inl e | Inr (Some v) \<Rightarrow> Inr (Some v) | Inr None \<Rightarrow> k) = r"
  by (cases r rule: result_option_cases) simp_all

lemma for_first_stop:
  "for_first xs body =
     (case find (\<lambda>x. body x \<noteq> Inr None) xs of None \<Rightarrow> Inr None | Some x \<Rightarrow> body x)"
  by (induction xs) (simp_all add: result_option_stop)

lemma for_first_nested_stop:
  "for_first ys (\<lambda>y. for_first xs (\<lambda>x. body x y)) =
     (case find (\<lambda>(x, y). body x y \<noteq> Inr None) (concat (map (\<lambda>y. map (\<lambda>x. (x, y)) xs) ys)) of
        None \<Rightarrow> Inr None
      | Some (x, y) \<Rightarrow> body x y)"
proof (induction ys)
  case (Cons y ys)
  show ?case
  proof (cases "find (\<lambda>x. body x y \<noteq> Inr None) xs")
    case None
    with Cons show ?thesis
      by (simp add: for_first_stop [of xs] find_append find_map_Pair)
  next
    case (Some x)
    then have "body x y \<noteq> Inr None"
      by (auto dest: find_Some_set)
    with Some show ?thesis
      by (simp add: for_first_stop [of xs] find_append find_map_Pair result_option_stop)
  qed
qed simp

end
