(* ===== verification/Board.thy ===== *)
theory Board
  imports Py_Prelude
begin

text \<open>
  The class \<^verbatim>\<open>Sudoku\<close> of \<^verbatim>\<open>src/sudoku.py\<close>: its state, its constructor and the
  three methods that read and write one cell, \<^verbatim>\<open>place\<close>, \<^verbatim>\<open>unplace\<close> and
  \<^verbatim>\<open>value_at\<close>. Each method is a definition with the method's name, \<open>self\<close> first
  and the other arguments in the source's order. The state is the record \<open>sudoku\<close>
  with the one field \<open>grid\<close> (the attribute \<^verbatim>\<open>_grid\<close>), a list of rows. A method
  that mutates the board returns the new board; a method that can raise returns a
  \<open>result\<close>.

  \<open>get_cell\<close> and \<open>set_cell\<close> are the expression \<^verbatim>\<open>self._grid[y][x]\<close> read and
  assigned; all cell accesses of the class go through them. The grid is a value here:
  two rows are never the same object, as for every grid \<^verbatim>\<open>load_from_file\<close>
  builds (the theory \<open>Heap_Board\<close> lifts that assumption).

  This theory then proves, for a grid of any shape, what reading and writing one cell
  do (\<open>get_cell_eq\<close>, \<open>set_cell_eq\<close>): which coordinates are accepted, which cell
  a negative coordinate names, and that a write changes that cell and no other. The
  laws of \<open>place\<close>, \<open>unplace\<close> and \<open>value_at\<close> and the two invariants of the
  data model (the 9 by 9 shape \<open>wf_board\<close>, the digit range \<open>digits_ok\<close>) follow.
\<close>

section \<open>State and operations\<close>

record sudoku =
  grid :: "int list list"

definition init :: "int list list \<Rightarrow> sudoku" where
  "init puzzle = \<lparr>grid = puzzle\<rparr>"

definition get_cell :: "int list list \<Rightarrow> int \<Rightarrow> int \<Rightarrow> int result" where
  "get_cell g x y = bind_result (py_get g y) (\<lambda>row. py_get row x)"

definition set_cell :: "int list list \<Rightarrow> int \<Rightarrow> int \<Rightarrow> int \<Rightarrow> int list list result" where
  "set_cell g x y v =
     bind_result (py_get g y) (\<lambda>row.
     bind_result (py_set row x v) (\<lambda>row'.
     py_set g y row'))"

definition place :: "sudoku \<Rightarrow> int \<Rightarrow> int \<Rightarrow> int \<Rightarrow> sudoku result" where
  "place s v x y = bind_result (set_cell (grid s) x y v) (\<lambda>g. Inr (s\<lparr>grid := g\<rparr>))"

definition unplace :: "sudoku \<Rightarrow> int \<Rightarrow> int \<Rightarrow> sudoku result" where
  "unplace s x y = bind_result (set_cell (grid s) x y 0) (\<lambda>g. Inr (s\<lparr>grid := g\<rparr>))"

definition value_at :: "sudoku \<Rightarrow> int \<Rightarrow> int \<Rightarrow> int result" where
  "value_at s x y = get_cell (grid s) x y"

section \<open>Cells of a grid of any shape\<close>

text \<open>
  The reference reading of a pair of Python indices: \<open>cell_ok\<close> says that \<open>(x, y)\<close>
  names a cell, \<open>row_of\<close> and \<open>col_of\<close> give its position as naturals,
  \<open>cell_of\<close> its content and \<open>upd_cell\<close> the grid with that cell replaced.
\<close>

definition row_of :: "int list list \<Rightarrow> int \<Rightarrow> nat" where
  "row_of g y = pos (length g) y"

definition col_of :: "int list list \<Rightarrow> int \<Rightarrow> int \<Rightarrow> nat" where
  "col_of g x y = pos (length (g ! row_of g y)) x"

definition cell_ok :: "int list list \<Rightarrow> int \<Rightarrow> int \<Rightarrow> bool" where
  "cell_ok g x y \<longleftrightarrow> index_ok (length g) y \<and> index_ok (length (g ! row_of g y)) x"

definition cell_of :: "int list list \<Rightarrow> int \<Rightarrow> int \<Rightarrow> int" where
  "cell_of g x y = g ! row_of g y ! col_of g x y"

definition upd_at :: "'a list list \<Rightarrow> nat \<Rightarrow> nat \<Rightarrow> 'a \<Rightarrow> 'a list list" where
  "upd_at g r c v = g[r := (g ! r)[c := v]]"

definition upd_cell :: "int list list \<Rightarrow> int \<Rightarrow> int \<Rightarrow> int \<Rightarrow> int list list" where
  "upd_cell g x y v = upd_at g (row_of g y) (col_of g x y) v"

definition same_cell :: "int list list \<Rightarrow> int \<Rightarrow> int \<Rightarrow> int \<Rightarrow> int \<Rightarrow> bool" where
  "same_cell g x y x' y' \<longleftrightarrow> row_of g y = row_of g y' \<and> col_of g x y = col_of g x' y'"

section \<open>The invariants of the data model\<close>

definition wf_grid :: "int list list \<Rightarrow> bool" where
  "wf_grid g \<longleftrightarrow> length g = 9 \<and> list_all (\<lambda>row. length row = 9) g"

definition wf_board :: "sudoku \<Rightarrow> bool" where
  "wf_board s \<longleftrightarrow> wf_grid (grid s)"

definition is_digit :: "int \<Rightarrow> bool" where
  "is_digit v \<longleftrightarrow> 0 \<le> v \<and> v \<le> 9"

definition digits_ok :: "sudoku \<Rightarrow> bool" where
  "digits_ok s \<longleftrightarrow> list_all (list_all is_digit) (grid s)"

definition on_board :: "int \<Rightarrow> int \<Rightarrow> bool" where
  "on_board x y \<longleftrightarrow> 0 \<le> x \<and> x < 9 \<and> 0 \<le> y \<and> y < 9"

definition cell :: "sudoku \<Rightarrow> nat \<Rightarrow> nat \<Rightarrow> int" where
  "cell s x y = grid s ! y ! x"

section \<open>Boards for the closed instances\<close>

definition empty_board :: sudoku where
  "empty_board = init
    [[0, 0, 0, 0, 0, 0, 0, 0, 0], [0, 0, 0, 0, 0, 0, 0, 0, 0], [0, 0, 0, 0, 0, 0, 0, 0, 0],
     [0, 0, 0, 0, 0, 0, 0, 0, 0], [0, 0, 0, 0, 0, 0, 0, 0, 0], [0, 0, 0, 0, 0, 0, 0, 0, 0],
     [0, 0, 0, 0, 0, 0, 0, 0, 0], [0, 0, 0, 0, 0, 0, 0, 0, 0], [0, 0, 0, 0, 0, 0, 0, 0, 0]]"

definition sample_board :: sudoku where
  "sample_board = init
    [[5, 3, 0, 0, 7, 0, 0, 0, 0], [6, 0, 0, 1, 9, 5, 0, 0, 0], [0, 9, 8, 0, 0, 0, 0, 6, 0],
     [8, 0, 0, 0, 6, 0, 0, 0, 3], [4, 0, 0, 8, 0, 3, 0, 0, 1], [7, 0, 0, 0, 2, 0, 0, 0, 6],
     [0, 6, 0, 0, 0, 0, 2, 8, 0], [0, 0, 0, 4, 1, 9, 0, 0, 5], [0, 0, 0, 0, 8, 0, 0, 7, 9]]"

definition sample_placed :: sudoku where
  "sample_placed = init
    [[5, 3, 4, 0, 7, 0, 0, 0, 0], [6, 0, 0, 1, 9, 5, 0, 0, 0], [0, 9, 8, 0, 0, 0, 0, 6, 0],
     [8, 0, 0, 0, 6, 0, 0, 0, 3], [4, 0, 0, 8, 0, 3, 0, 0, 1], [7, 0, 0, 0, 2, 0, 0, 0, 6],
     [0, 6, 0, 0, 0, 0, 2, 8, 0], [0, 0, 0, 4, 1, 9, 0, 0, 5], [0, 0, 0, 0, 8, 0, 0, 7, 9]]"

definition solved_board :: sudoku where
  "solved_board = init
    [[5, 3, 4, 6, 7, 8, 9, 1, 2], [6, 7, 2, 1, 9, 5, 3, 4, 8], [1, 9, 8, 3, 4, 2, 5, 6, 7],
     [8, 5, 9, 7, 6, 1, 4, 2, 3], [4, 2, 6, 8, 5, 3, 7, 9, 1], [7, 1, 3, 9, 2, 4, 8, 5, 6],
     [9, 6, 1, 5, 3, 7, 2, 8, 4], [2, 8, 7, 4, 1, 9, 6, 3, 5], [3, 4, 5, 2, 8, 6, 1, 7, 9]]"

definition fives_board :: sudoku where
  "fives_board = init
    [[5, 5, 5, 5, 5, 5, 5, 5, 5], [5, 5, 5, 5, 5, 5, 5, 5, 5], [5, 5, 5, 5, 5, 5, 5, 5, 5],
     [5, 5, 5, 5, 5, 5, 5, 5, 5], [5, 5, 5, 5, 5, 5, 5, 5, 5], [5, 5, 5, 5, 5, 5, 5, 5, 5],
     [5, 5, 5, 5, 5, 5, 5, 5, 5], [5, 5, 5, 5, 5, 5, 5, 5, 5], [5, 5, 5, 5, 5, 5, 5, 5, 5]]"

named_theorems board_defs "definitions of the board operations, for evaluation"
named_theorems board_examples "the boards of the closed instances"

lemmas [board_examples] =
  empty_board_def sample_board_def sample_placed_def solved_board_def fives_board_def

lemmas [board_defs] =
  init_def get_cell_def set_cell_def place_def unplace_def value_at_def
  py_get_def py_set_def norm_index_def Let_def

section \<open>Updating a grid at a position\<close>

lemma length_upd_at [simp]: "length (upd_at g r c v) = length g"
  by (simp add: upd_at_def)

lemma nth_upd_at:
  "r < length g \<Longrightarrow> upd_at g r c v ! k = (if k = r then (g ! r)[c := v] else g ! k)"
  by (simp add: upd_at_def)

lemma upd_at_beyond: "length g \<le> r \<Longrightarrow> upd_at g r c v = g"
  by (simp add: upd_at_def list_update_beyond)

lemma length_nth_upd_at [simp]: "length (upd_at g r c v ! k) = length (g ! k)"
  by (cases "r < length g") (simp_all add: nth_upd_at upd_at_beyond)

lemma map_length_upd_at [simp]: "map length (upd_at g r c v) = map length g"
  by (rule nth_equalityI) simp_all

lemma nth_nth_upd_at:
  "r < length g \<Longrightarrow> c < length (g ! r) \<Longrightarrow>
   upd_at g r c v ! r' ! c' = (if r' = r \<and> c' = c then v else g ! r' ! c')"
  by (simp add: nth_upd_at nth_list_update)

lemma upd_at_same_value: "upd_at g r c (g ! r ! c) = g"
  by (simp add: upd_at_def)

lemma upd_at_twice: "upd_at (upd_at g r c v) r c w = upd_at g r c w"
  by (cases "r < length g") (simp_all add: upd_at_def list_update_beyond)

lemma upd_at_commute:
  "(r, c) \<noteq> (r', c') \<Longrightarrow>
   upd_at (upd_at g r c v) r' c' w = upd_at (upd_at g r' c' w) r c v"
  by (cases "r < length g"; cases "r' < length g"; cases "r = r'")
    (auto simp: upd_at_def list_update_swap list_update_beyond)

lemma set_concat_upd_at_subset: "set (concat (upd_at g r c v)) \<subseteq> insert v (set (concat g))"
proof (cases "r < length g")
  case True
  have "set (upd_at g r c v) \<subseteq> insert ((g ! r)[c := v]) (set g)"
    unfolding upd_at_def by (rule set_update_subset_insert)
  moreover have "set ((g ! r)[c := v]) \<subseteq> insert v (set (g ! r))"
    by (rule set_update_subset_insert)
  moreover from True have "g ! r \<in> set g"
    by simp
  ultimately show ?thesis
    by auto
next
  case False
  then show ?thesis
    by (auto simp: upd_at_beyond)
qed

lemma mset_concat_upd_at:
  assumes "r < length g" "c < length (g ! r)"
  shows "mset (concat (upd_at g r c v)) = mset (concat g) - {#g ! r ! c#} + {#v#}"
proof -
  from assms(1) have g: "g = take r g @ g ! r # drop (Suc r) g"
    by (simp add: id_take_nth_drop)
  from assms(1) have "upd_at g r c v = take r g @ (g ! r)[c := v] # drop (Suc r) g"
    by (simp add: upd_at_def upd_conv_take_nth_drop)
  then have "mset (concat (upd_at g r c v)) =
      mset (concat (take r g)) + mset ((g ! r)[c := v]) + mset (concat (drop (Suc r) g))"
    by simp
  also from assms(2) have "mset ((g ! r)[c := v]) = mset (g ! r) - {#g ! r ! c#} + {#v#}"
    by (simp add: mset_update)
  also have "mset (concat (take r g)) + (mset (g ! r) - {#g ! r ! c#} + {#v#}) +
      mset (concat (drop (Suc r) g)) =
      mset (concat (take r g)) + mset (g ! r) + mset (concat (drop (Suc r) g)) -
      {#g ! r ! c#} + {#v#}"
    using assms(2) by (simp add: nth_mem)
  also have "mset (concat (take r g)) + mset (g ! r) + mset (concat (drop (Suc r) g)) =
      mset (concat g)"
    by (subst (4) g) simp
  finally show ?thesis .
qed

section \<open>Reading and writing one cell\<close>

lemma get_cell_eq:
  "get_cell g x y = (if cell_ok g x y then Inr (cell_of g x y) else Inl IndexError)"
  by (simp add: get_cell_def py_get_eq cell_ok_def cell_of_def row_of_def col_of_def)

lemma set_cell_eq:
  "set_cell g x y v = (if cell_ok g x y then Inr (upd_cell g x y v) else Inl IndexError)"
  by (simp add: set_cell_def py_get_eq py_set_eq cell_ok_def upd_cell_def upd_at_def
      row_of_def col_of_def)

lemma get_cell_Inr: "get_cell g x y = Inr v \<longleftrightarrow> cell_ok g x y \<and> v = cell_of g x y"
  by (auto simp: get_cell_eq)

lemma get_cell_Inl: "get_cell g x y = Inl e \<longleftrightarrow> \<not> cell_ok g x y \<and> e = IndexError"
  by (auto simp: get_cell_eq)

lemma set_cell_Inr: "set_cell g x y v = Inr g' \<longleftrightarrow> cell_ok g x y \<and> g' = upd_cell g x y v"
  by (auto simp: set_cell_eq)

lemma set_cell_Inl: "set_cell g x y v = Inl e \<longleftrightarrow> \<not> cell_ok g x y \<and> e = IndexError"
  by (auto simp: set_cell_eq)

lemma succeeds_get_cell [simp]: "succeeds (get_cell g x y) \<longleftrightarrow> cell_ok g x y"
  by (simp add: get_cell_eq)

lemma succeeds_set_cell [simp]: "succeeds (set_cell g x y v) \<longleftrightarrow> cell_ok g x y"
  by (simp add: set_cell_eq)

lemma length_upd_cell [simp]: "length (upd_cell g x y v) = length g"
  by (simp add: upd_cell_def)

lemma length_nth_upd_cell [simp]: "length (upd_cell g x y v ! k) = length (g ! k)"
  by (simp add: upd_cell_def)

lemma map_length_upd_cell [simp]: "map length (upd_cell g x y v) = map length g"
  by (simp add: upd_cell_def)

lemma row_of_upd_cell [simp]: "row_of (upd_cell g x y v) y' = row_of g y'"
  by (simp add: row_of_def)

lemma col_of_upd_cell [simp]: "col_of (upd_cell g x y v) x' y' = col_of g x' y'"
  by (simp add: col_of_def)

lemma cell_ok_upd_cell [simp]: "cell_ok (upd_cell g x y v) x' y' \<longleftrightarrow> cell_ok g x' y'"
  by (simp add: cell_ok_def)

lemma same_cell_upd_cell [simp]:
  "same_cell (upd_cell g x y v) x1 y1 x2 y2 \<longleftrightarrow> same_cell g x1 y1 x2 y2"
  by (simp add: same_cell_def)

lemma same_cell_refl [simp]: "same_cell g x y x y"
  by (simp add: same_cell_def)

lemma same_cell_sym: "same_cell g x y x' y' \<longleftrightarrow> same_cell g x' y' x y"
  by (auto simp: same_cell_def)

lemma row_of_less [simp]: "cell_ok g x y \<Longrightarrow> row_of g y < length g"
  by (simp add: cell_ok_def row_of_def)

lemma col_of_less [simp]: "cell_ok g x y \<Longrightarrow> col_of g x y < length (g ! row_of g y)"
  by (simp add: cell_ok_def col_of_def)

lemma cell_of_upd_cell:
  assumes "cell_ok g x y"
  shows "cell_of (upd_cell g x y v) x' y' = (if same_cell g x y x' y' then v else cell_of g x' y')"
proof -
  have "cell_of (upd_cell g x y v) x' y' =
      upd_at g (row_of g y) (col_of g x y) v ! row_of g y' ! col_of g x' y'"
    by (simp add: cell_of_def) (simp add: upd_cell_def)
  also from assms have "\<dots> = (if row_of g y' = row_of g y \<and> col_of g x' y' = col_of g x y
      then v else g ! row_of g y' ! col_of g x' y')"
    by (simp add: nth_nth_upd_at)
  finally show ?thesis
    by (auto simp: same_cell_def cell_of_def)
qed

lemma upd_cell_same_value: "upd_cell g x y (cell_of g x y) = g"
  by (simp add: upd_cell_def cell_of_def upd_at_same_value)

lemma upd_cell_twice: "upd_cell (upd_cell g x y v) x y w = upd_cell g x y w"
proof -
  have "upd_cell (upd_cell g x y v) x y w = upd_at (upd_cell g x y v) (row_of g y) (col_of g x y) w"
    by (simp add: upd_cell_def [of "upd_cell g x y v"])
  then show ?thesis
    by (simp add: upd_cell_def upd_at_twice)
qed

lemma upd_cell_same_cell:
  "same_cell g x y x' y' \<Longrightarrow> upd_cell g x' y' v = upd_cell g x y v"
  by (simp add: upd_cell_def same_cell_def)

lemma upd_cell_commute:
  assumes "\<not> same_cell g x y x' y'"
  shows "upd_cell (upd_cell g x y v) x' y' w = upd_cell (upd_cell g x' y' w) x y v"
proof -
  from assms have neq: "(row_of g y, col_of g x y) \<noteq> (row_of g y', col_of g x' y')"
    by (auto simp: same_cell_def)
  have "upd_cell (upd_cell g x y v) x' y' w =
      upd_at (upd_at g (row_of g y) (col_of g x y) v) (row_of g y') (col_of g x' y') w"
    by (simp add: upd_cell_def [of "upd_cell g x y v"]) (simp add: upd_cell_def)
  also have "\<dots> = upd_at (upd_at g (row_of g y') (col_of g x' y') w) (row_of g y) (col_of g x y) v"
    using neq by (rule upd_at_commute)
  also have "\<dots> = upd_cell (upd_cell g x' y' w) x y v"
    by (simp add: upd_cell_def [of "upd_cell g x' y' w"]) (simp add: upd_cell_def)
  finally show ?thesis .
qed

lemma set_concat_upd_cell_subset:
  "set (concat (upd_cell g x y v)) \<subseteq> insert v (set (concat g))"
  unfolding upd_cell_def by (rule set_concat_upd_at_subset)

section \<open>Well-formed grids\<close>

lemma wf_grid_iff: "wf_grid g \<longleftrightarrow> map length g = replicate 9 9"
proof
  assume "wf_grid g"
  then show "map length g = replicate 9 9"
    by (intro nth_equalityI) (auto simp: wf_grid_def list_all_length)
next
  assume *: "map length g = replicate 9 9"
  then have len: "length g = 9"
    by (metis length_map length_replicate)
  moreover have "length (g ! k) = 9" if "k < 9" for k
    using that len nth_map [of k g length] by (simp add: *)
  ultimately show "wf_grid g"
    by (simp add: wf_grid_def list_all_length)
qed

lemma wf_grid_length: "wf_grid g \<Longrightarrow> length g = 9"
  by (simp add: wf_grid_def)

lemma wf_grid_length_nth: "wf_grid g \<Longrightarrow> k < 9 \<Longrightarrow> length (g ! k) = 9"
  by (simp add: wf_grid_def list_all_length)

lemma wf_grid_upd_cell [simp]: "wf_grid (upd_cell g x y v) \<longleftrightarrow> wf_grid g"
  by (simp add: wf_grid_iff)

lemma wf_grid_upd_at [simp]: "wf_grid (upd_at g r c v) \<longleftrightarrow> wf_grid g"
  by (simp add: wf_grid_iff)

lemma wf_row_of: "wf_grid g \<Longrightarrow> row_of g y = pos 9 y"
  by (simp add: row_of_def wf_grid_length)

lemma wf_cell_ok: "wf_grid g \<Longrightarrow> cell_ok g x y \<longleftrightarrow> index_ok 9 x \<and> index_ok 9 y"
  by (auto simp: cell_ok_def wf_row_of wf_grid_length wf_grid_length_nth)

lemma wf_col_of: "wf_grid g \<Longrightarrow> index_ok 9 y \<Longrightarrow> col_of g x y = pos 9 x"
  by (simp add: col_of_def wf_row_of wf_grid_length_nth)

lemma wf_same_cell:
  "wf_grid g \<Longrightarrow> index_ok 9 y \<Longrightarrow> index_ok 9 y' \<Longrightarrow>
   same_cell g x y x' y' \<longleftrightarrow> pos 9 x = pos 9 x' \<and> pos 9 y = pos 9 y'"
  by (auto simp: same_cell_def wf_row_of wf_col_of)

lemma wf_cell_of: "wf_grid g \<Longrightarrow> index_ok 9 y \<Longrightarrow> cell_of g x y = g ! pos 9 y ! pos 9 x"
  by (simp add: cell_of_def wf_row_of wf_col_of)

lemma wf_upd_cell:
  "wf_grid g \<Longrightarrow> index_ok 9 y \<Longrightarrow> upd_cell g x y v = upd_at g (pos 9 y) (pos 9 x) v"
  by (simp add: upd_cell_def wf_row_of wf_col_of)

lemmas wf_grid_simps =
  wf_grid_length wf_grid_length_nth wf_row_of wf_col_of wf_cell_ok wf_cell_of wf_upd_cell

lemma index_ok_9_iff: "index_ok 9 i \<longleftrightarrow> - 9 \<le> i \<and> i < 9"
  by (simp add: index_ok_def)

lemma on_board_index_ok: "on_board x y \<Longrightarrow> index_ok 9 x \<and> index_ok 9 y"
  by (simp add: on_board_def index_ok_def)

lemma on_board_nat [simp]: "on_board (int x) (int y) \<longleftrightarrow> x < 9 \<and> y < 9"
  by (simp add: on_board_def)

lemma on_board_cases:
  assumes "on_board x y"
  obtains i j where "x = int i" "y = int j" "i < 9" "j < 9"
proof -
  from assms have "x = int (nat x)" "y = int (nat y)" "nat x < 9" "nat y < 9"
    by (auto simp: on_board_def)
  then show ?thesis
    by (rule that)
qed

lemma digits_ok_iff: "digits_ok s \<longleftrightarrow> (\<forall>v \<in> set (concat (grid s)). is_digit v)"
  by (auto simp: digits_ok_def list_all_iff)

section \<open>The laws of place, unplace and value_at\<close>

lemma place_eq:
  "place s v x y =
     (if cell_ok (grid s) x y then Inr (s\<lparr>grid := upd_cell (grid s) x y v\<rparr>) else Inl IndexError)"
  by (simp add: place_def set_cell_eq)

lemma unplace_eq:
  "unplace s x y =
     (if cell_ok (grid s) x y then Inr (s\<lparr>grid := upd_cell (grid s) x y 0\<rparr>) else Inl IndexError)"
  by (simp add: unplace_def set_cell_eq)

lemma value_at_eq:
  "value_at s x y = (if cell_ok (grid s) x y then Inr (cell_of (grid s) x y) else Inl IndexError)"
  by (simp add: value_at_def get_cell_eq)

lemma place_Inr:
  "place s v x y = Inr s' \<longleftrightarrow> cell_ok (grid s) x y \<and> s' = s\<lparr>grid := upd_cell (grid s) x y v\<rparr>"
  by (auto simp: place_eq)

lemma unplace_Inr:
  "unplace s x y = Inr s' \<longleftrightarrow> cell_ok (grid s) x y \<and> s' = s\<lparr>grid := upd_cell (grid s) x y 0\<rparr>"
  by (auto simp: unplace_eq)

lemma value_at_Inr: "value_at s x y = Inr v \<longleftrightarrow> cell_ok (grid s) x y \<and> v = cell_of (grid s) x y"
  by (auto simp: value_at_eq)

lemma succeeds_place [simp]: "succeeds (place s v x y) \<longleftrightarrow> cell_ok (grid s) x y"
  by (simp add: place_eq)

lemma succeeds_unplace [simp]: "succeeds (unplace s x y) \<longleftrightarrow> cell_ok (grid s) x y"
  by (simp add: unplace_eq)

lemma succeeds_value_at [simp]: "succeeds (value_at s x y) \<longleftrightarrow> cell_ok (grid s) x y"
  by (simp add: value_at_eq)

lemma wf_value_at_nat [simp]:
  "wf_board s \<Longrightarrow> x < 9 \<Longrightarrow> y < 9 \<Longrightarrow> value_at s (int x) (int y) = Inr (cell s x y)"
  by (simp add: value_at_eq wf_board_def wf_cell_ok wf_cell_of cell_def)

lemma wf_get_cell_nat [simp]:
  "wf_board s \<Longrightarrow> x < 9 \<Longrightarrow> y < 9 \<Longrightarrow> get_cell (grid s) (int x) (int y) = Inr (cell s x y)"
  by (simp add: get_cell_eq wf_board_def wf_cell_ok wf_cell_of cell_def)

lemma wf_place_nat:
  "wf_board s \<Longrightarrow> x < 9 \<Longrightarrow> y < 9 \<Longrightarrow>
   place s v (int x) (int y) = Inr (s\<lparr>grid := upd_at (grid s) y x v\<rparr>)"
  by (simp add: place_eq wf_board_def wf_cell_ok wf_upd_cell)

lemma cell_upd_at:
  "wf_board s \<Longrightarrow> x < 9 \<Longrightarrow> y < 9 \<Longrightarrow>
   cell (s\<lparr>grid := upd_at (grid s) y x v\<rparr>) x' y' = (if x' = x \<and> y' = y then v else cell s x' y')"
  by (auto simp: cell_def wf_board_def nth_nth_upd_at wf_grid_simps)

text \<open>
  C4. After \<^verbatim>\<open>place(value, x, y)\<close> returns, \<^verbatim>\<open>value_at(x, y)\<close> returns the value
  placed. This holds for every grid shape and every pair of coordinates that
  \<^verbatim>\<open>place\<close> accepts, the negative ones included.
\<close>

theorem place_value_at:
  assumes "place s v x y = Inr s'"
  shows "value_at s' x y = Inr v"
  using assms by (auto simp: place_Inr value_at_eq cell_of_upd_cell)

theorem place_value_at_witness:
  "place sample_board 4 2 0 = Inr sample_placed \<and> value_at sample_placed 2 0 = Inr 4"
proof -
  have "place sample_board 4 2 0 = Inr sample_placed" "value_at sample_placed 2 0 = Inr 4"
    by (simp_all add: board_examples board_defs)
  with place_value_at [of sample_board 4 2 0 sample_placed] show ?thesis
    by (simp only: simp_thms)
qed

text \<open>
  C5. \<^verbatim>\<open>place\<close> changes one cell only: at every pair of coordinates that names
  another cell, and at every pair that names none, \<^verbatim>\<open>value_at\<close> answers after the
  call what it answered before, the \<^verbatim>\<open>IndexError\<close> included.
\<close>

theorem place_frame:
  assumes "place s v x y = Inr s'"
    and "\<not> (cell_ok (grid s) x' y' \<and> same_cell (grid s) x y x' y')"
  shows "value_at s' x' y' = value_at s x' y'"
  using assms by (auto simp: place_Inr value_at_eq cell_of_upd_cell)

theorem place_frame_witness:
  "place sample_board 4 2 0 = Inr sample_placed \<and>
   \<not> (cell_ok (grid sample_board) (- 6) 0 \<and> same_cell (grid sample_board) 2 0 (- 6) 0) \<and>
   value_at sample_placed (- 6) 0 = value_at sample_board (- 6) 0 \<and>
   \<not> (cell_ok (grid sample_board) 2 (- 12) \<and> same_cell (grid sample_board) 2 0 2 (- 12)) \<and>
   same_cell (grid sample_board) 2 0 2 (- 12) \<and>
   value_at sample_placed 2 (- 12) = value_at sample_board 2 (- 12)"
proof -
  have p: "place sample_board 4 2 0 = Inr sample_placed"
    by (simp add: board_examples board_defs)
  have n: "\<not> (cell_ok (grid sample_board) (- 6) 0 \<and> same_cell (grid sample_board) 2 0 (- 6) 0)"
    by (simp add: board_examples init_def same_cell_def row_of_def col_of_def pos_def)
  have o: "\<not> (cell_ok (grid sample_board) 2 (- 12) \<and> same_cell (grid sample_board) 2 0 2 (- 12))"
    "same_cell (grid sample_board) 2 0 2 (- 12)"
    by (simp_all add: board_examples init_def cell_ok_def index_ok_def same_cell_def row_of_def
        col_of_def pos_def)
  from place_frame [OF p n] place_frame [OF p o(1)] p n o show ?thesis
    by (simp only: simp_thms)
qed

text \<open>
  C3. The complete behaviour of the cell operations on a 9 by 9 board. A coordinate
  is accepted when it lies in \<open>[-9, 9)\<close>, not only in the documented \<open>[0, 9)\<close>; the
  cell read or written is the one Python's index rule names (\<open>-1\<close> is the last column
  or row); \<^verbatim>\<open>place\<close> changes nothing else and \<^verbatim>\<open>unplace\<close> is \<^verbatim>\<open>place\<close> of 0. Outside
  that range each call raises \<^verbatim>\<open>IndexError\<close> and has no effect.
\<close>

theorem cell_ops_spec:
  assumes "wf_board s"
  shows "place s v x y =
    (if - 9 \<le> x \<and> x < 9 \<and> - 9 \<le> y \<and> y < 9
     then Inr (s\<lparr>grid := upd_at (grid s) (pos 9 y) (pos 9 x) v\<rparr>)
     else Inl IndexError) \<and>
    unplace s x y = place s 0 x y \<and>
    value_at s x y =
    (if - 9 \<le> x \<and> x < 9 \<and> - 9 \<le> y \<and> y < 9
     then Inr (cell s (pos 9 x) (pos 9 y))
     else Inl IndexError)"
  using assms
  by (auto simp: place_eq unplace_eq value_at_eq wf_board_def wf_cell_ok wf_upd_cell wf_cell_of
      index_ok_9_iff cell_def)

theorem cell_ops_spec_witness:
  "wf_board sample_board \<and> place sample_board 4 (- 7) (- 9) = Inr sample_placed \<and>
   place sample_board 4 9 0 = Inl IndexError \<and> value_at sample_board (- 1) (- 1) = Inr 9 \<and>
   value_at sample_board 0 (- 10) = Inl IndexError \<and>
   unplace sample_placed (- 7) (- 9) = Inr sample_board"
proof -
  have wf: "wf_board sample_board" "wf_board sample_placed"
    by (simp_all add: board_examples init_def wf_board_def wf_grid_def)
  have "place sample_board 4 (- 7) (- 9) = Inr sample_placed"
    "unplace sample_placed (- 7) (- 9) = Inr sample_board"
    "value_at sample_board (- 1) (- 1) = Inr 9"
    by (simp_all add: board_examples board_defs py_get_def py_set_def norm_index_def)
  moreover have "place sample_board 4 9 0 = Inl IndexError"
    "value_at sample_board 0 (- 10) = Inl IndexError"
    by (simp_all add: cell_ops_spec [OF wf(1)])
  ultimately show ?thesis
    using wf by (simp only: simp_thms)
qed

text \<open>
  C36. The invariants of the data model. A successful \<^verbatim>\<open>place\<close> or \<^verbatim>\<open>unplace\<close>
  leaves the shape of the grid as it was, whatever value is written, so a 9 by 9
  board stays 9 by 9; writing a digit of \<open>[0, 9]\<close> into a board whose cells all hold
  digits of \<open>[0, 9]\<close> leaves such a board, and \<^verbatim>\<open>unplace\<close> always does. (\<^verbatim>\<open>place\<close>
  itself does not check the value: see \<open>place_breaks_digits\<close>.)
\<close>

theorem place_unplace_preserve:
  assumes "place s v x y = Inr s' \<or> (v = 0 \<and> unplace s x y = Inr s')"
  shows "map length (grid s') = map length (grid s) \<and> (wf_board s' \<longleftrightarrow> wf_board s) \<and>
         (digits_ok s \<and> is_digit v \<longrightarrow> digits_ok s')"
proof -
  from assms have s': "s' = s\<lparr>grid := upd_cell (grid s) x y v\<rparr>"
    by (auto simp: place_Inr unplace_Inr)
  have "digits_ok s'" if "digits_ok s" "is_digit v"
    using that set_concat_upd_cell_subset [of "grid s" x y v] by (auto simp: digits_ok_iff s')
  then show ?thesis
    by (simp add: s' wf_board_def)
qed

theorem place_unplace_preserve_witness:
  "place sample_board 4 2 0 = Inr sample_placed \<and> wf_board sample_placed \<and>
   digits_ok sample_placed \<and> unplace sample_placed 2 0 = Inr sample_board \<and>
   map length (grid sample_board) = map length (grid sample_placed)"
proof -
  have wf: "wf_board sample_board" "digits_ok sample_board" "is_digit 4"
    by (simp_all add: board_examples init_def wf_board_def wf_grid_def digits_ok_def is_digit_def)
  have p: "place sample_board 4 2 0 = Inr sample_placed"
    and u: "unplace sample_placed 2 0 = Inr sample_board"
    by (simp_all add: board_examples board_defs)
  from place_unplace_preserve [of sample_board 4 2 0 sample_placed]
    place_unplace_preserve [of sample_placed 0 2 0 sample_board] p u wf
  show ?thesis
    by simp
qed

text \<open>
  C8. Backtracking restores the board: if the cell at \<open>(x, y)\<close> is empty, then
  \<^verbatim>\<open>place(value, x, y)\<close> followed by \<^verbatim>\<open>unplace(x, y)\<close> yields the board the caller
  started from, in every cell.
\<close>

theorem place_unplace_restores:
  assumes "value_at s x y = Inr 0" and "place s v x y = Inr s'"
  shows "unplace s' x y = Inr s"
proof -
  from assms(1) have ok: "cell_ok (grid s) x y" and zero: "cell_of (grid s) x y = 0"
    by (simp_all add: value_at_Inr)
  from assms(2) have s': "s' = s\<lparr>grid := upd_cell (grid s) x y v\<rparr>"
    by (simp add: place_Inr)
  have "upd_cell (upd_cell (grid s) x y v) x y 0 = grid s"
    using upd_cell_same_value [of "grid s" x y] by (simp add: upd_cell_twice zero)
  with ok show ?thesis
    by (simp add: unplace_eq s')
qed

theorem place_unplace_restores_witness:
  "value_at sample_board 2 0 = Inr 0 \<and> place sample_board 4 2 0 = Inr sample_placed \<and>
   unplace sample_placed 2 0 = Inr sample_board"
proof -
  have "value_at sample_board 2 0 = Inr 0" "place sample_board 4 2 0 = Inr sample_placed"
    "unplace sample_placed 2 0 = Inr sample_board"
    by (simp_all add: board_examples board_defs)
  with place_unplace_restores [of sample_board 2 0 4 sample_placed] show ?thesis
    by (simp only: simp_thms)
qed

lemma unplace_eq_place: "unplace s x y = place s 0 x y"
  by (simp add: unplace_def place_def)

lemma place_breaks_digits:
  "digits_ok empty_board \<and> succeeds (place empty_board 10 0 0) \<and>
   (\<forall>s'. place empty_board 10 0 0 = Inr s' \<longrightarrow> \<not> digits_ok s')"
  by (simp add: board_examples board_defs digits_ok_def is_digit_def)

end
