(* ===== verification/Board_Views.thy ===== *)
theory Board_Views
  imports Board
begin

text \<open>
  The three derived views of the board, \<^verbatim>\<open>row_values\<close>, \<^verbatim>\<open>column_values\<close> and
  \<^verbatim>\<open>block_values\<close>. \<open>block_index\<close> is the number of the block of a cell, the
  expression that \<^verbatim>\<open>options_at\<close> computes before it asks for the block.

  The reference for a view is a list of cell positions (\<open>row_cells\<close>,
  \<open>column_cells\<close>, \<open>block_cells\<close>, pairs \<open>(x, y)\<close> of naturals below 9) and the
  contents of the board at these positions (\<open>cells_of\<close>). Each view is shown to
  return exactly that list, for every index Python accepts (\<open>wf_row_values\<close>,
  \<open>wf_column_values\<close>, \<open>wf_block_values\<close>), and to raise \<^verbatim>\<open>IndexError\<close> for
  every other. The positions of a block are then characterised by the block
  index that \<^verbatim>\<open>options_at\<close> computes (\<open>in_block_cells_iff\<close>, \<open>mset_block_cells\<close>):
  the nine blocks partition the board. On a grid of any shape the views are the
  sequences of the reads of \<^verbatim>\<open>value_at\<close> their loops perform
  (\<open>column_values_value_at\<close>, \<open>row_values_value_at\<close>).
\<close>

section \<open>The views\<close>

definition row_values :: "sudoku \<Rightarrow> int \<Rightarrow> int list result" where
  "row_values s i = py_get (grid s) i"

definition column_values :: "sudoku \<Rightarrow> int \<Rightarrow> int list result" where
  "column_values s i =
     for_each (grid s) [] (\<lambda>row values.
       bind_result (py_get row i) (\<lambda>v. Inr (values @ [v])))"

definition block_values :: "sudoku \<Rightarrow> int \<Rightarrow> int list result" where
  "block_values s i =
     (let x_start = (i mod 3) * 3;
          y_start = (i div 3) * 3
      in for_each (py_range x_start (x_start + 3)) [] (\<lambda>x values.
           for_each (py_range y_start (y_start + 3)) values (\<lambda>y values.
             bind_result (get_cell (grid s) x y) (\<lambda>v. Inr (values @ [v])))))"

definition block_index :: "int \<Rightarrow> int \<Rightarrow> int" where
  "block_index x y = (y div 3) * 3 + x div 3"

lemmas [board_defs] = row_values_def column_values_def block_values_def block_index_def

section \<open>Positions of the cells of a view\<close>

definition cells_of :: "sudoku \<Rightarrow> (nat \<times> nat) list \<Rightarrow> int list" where
  "cells_of s ps = map (\<lambda>(x, y). cell s x y) ps"

definition row_cells :: "nat \<Rightarrow> (nat \<times> nat) list" where
  "row_cells y = map (\<lambda>x. (x, y)) [0..<9]"

definition column_cells :: "nat \<Rightarrow> (nat \<times> nat) list" where
  "column_cells x = map (\<lambda>y. (x, y)) [0..<9]"

definition block_cells :: "nat \<Rightarrow> (nat \<times> nat) list" where
  "block_cells i = List.product [3 * (i mod 3)..<3 * (i mod 3) + 3] [3 * (i div 3)..<3 * (i div 3) + 3]"

definition block_of :: "nat \<Rightarrow> nat \<Rightarrow> nat" where
  "block_of x y = (y div 3) * 3 + x div 3"

definition row_major :: "(nat \<times> nat) list" where
  "row_major = concat (map row_cells [0..<9])"

section \<open>The views at natural indices\<close>

lemma wf_row_values_nat:
  assumes "wf_board s" "y < 9"
  shows "row_values s (int y) = Inr (cells_of s (row_cells y))"
proof -
  from assms have len: "length (grid s ! y) = 9" and "y < length (grid s)"
    by (simp_all add: wf_board_def wf_grid_simps)
  then have "row_values s (int y) = Inr (grid s ! y)"
    by (simp add: row_values_def)
  also have "grid s ! y = map (nth (grid s ! y)) [0..<9]"
    using map_nth [of "grid s ! y"] by (simp add: len)
  finally show ?thesis
    by (simp add: cells_of_def row_cells_def cell_def comp_def)
qed

lemma column_values_eq: "column_values s i = map_result (\<lambda>row. py_get row i) (grid s)"
  by (simp add: column_values_def for_each_append_body)

lemma wf_column_values_nat:
  assumes "wf_board s" "x < 9"
  shows "column_values s (int x) = Inr (cells_of s (column_cells x))"
proof -
  from assms have len: "length (grid s) = 9" and rows: "\<And>row. row \<in> set (grid s) \<Longrightarrow> length row = 9"
    by (simp_all add: wf_board_def wf_grid_def list_all_iff)
  have "column_values s (int x) = Inr (map (\<lambda>row. row ! x) (grid s))"
    unfolding column_values_eq using assms(2) by (intro map_result_total) (simp add: rows)
  also have "map (\<lambda>row. row ! x) (grid s) = map (\<lambda>row. row ! x) (map (nth (grid s)) [0..<9])"
    using map_nth [of "grid s"] by (simp add: len)
  finally show ?thesis
    by (simp add: cells_of_def column_cells_def cell_def comp_def)
qed

lemma block_values_eq:
  "block_values s i =
     map_result (\<lambda>(x, y). get_cell (grid s) x y)
       (List.product (py_range ((i mod 3) * 3) ((i mod 3) * 3 + 3))
                     (py_range ((i div 3) * 3) ((i div 3) * 3 + 3)))"
  by (simp add: block_values_def Let_def for_each_product)

lemma block_cells_bound: "i < 9 \<Longrightarrow> (x, y) \<in> set (block_cells i) \<Longrightarrow> x < 9 \<and> y < 9"
  by (auto simp: block_cells_def) arith

lemma wf_block_values_nat:
  assumes "wf_board s" "i < 9"
  shows "block_values s (int i) = Inr (cells_of s (block_cells i))"
proof -
  have x: "py_range (int i mod 3 * 3) (int i mod 3 * 3 + 3) = map int [3 * (i mod 3)..<3 * (i mod 3) + 3]"
    using py_range_nat [of "3 * (i mod 3)" "3 * (i mod 3) + 3"] by (simp add: zmod_int mult.commute)
  have y: "py_range (int i div 3 * 3) (int i div 3 * 3 + 3) = map int [3 * (i div 3)..<3 * (i div 3) + 3]"
    using py_range_nat [of "3 * (i div 3)" "3 * (i div 3) + 3"] by (simp add: zdiv_int mult.commute)
  have "block_values s (int i) =
      map_result (\<lambda>(x, y). get_cell (grid s) (int x) (int y)) (block_cells i)"
    by (simp add: block_values_eq x y block_cells_def product_map_map map_result_map
        case_prod_unfold)
  also have "\<dots> = Inr (map (\<lambda>(x, y). cell s x y) (block_cells i))"
    using assms by (intro map_result_total) (auto dest: block_cells_bound)
  finally show ?thesis
    by (simp add: cells_of_def)
qed


section \<open>The views at any index\<close>

lemma wf_get_cell:
  "wf_board s \<Longrightarrow>
   get_cell (grid s) x y =
     (if index_ok 9 x \<and> index_ok 9 y then Inr (cell s (pos 9 x) (pos 9 y)) else Inl IndexError)"
  by (simp add: get_cell_eq wf_board_def wf_cell_ok wf_cell_of cell_def)

lemma wf_value_at:
  "wf_board s \<Longrightarrow>
   value_at s x y =
     (if index_ok 9 x \<and> index_ok 9 y then Inr (cell s (pos 9 x) (pos 9 y)) else Inl IndexError)"
  by (simp add: value_at_def wf_get_cell)

lemma wf_row_values:
  assumes "wf_board s"
  shows "row_values s i =
    (if index_ok 9 i then Inr (cells_of s (row_cells (pos 9 i))) else Inl IndexError)"
proof (cases "index_ok 9 i")
  case True
  then have "row_values s i = row_values s (int (pos 9 i))"
    using assms by (simp add: row_values_def py_get_eq wf_board_def wf_grid_length)
  with True assms show ?thesis
    by (simp add: wf_row_values_nat)
next
  case False
  with assms show ?thesis
    by (simp add: row_values_def py_get_eq wf_board_def wf_grid_length)
qed

lemma wf_column_values:
  assumes "wf_board s"
  shows "column_values s i =
    (if index_ok 9 i then Inr (cells_of s (column_cells (pos 9 i))) else Inl IndexError)"
proof (cases "index_ok 9 i")
  case True
  have "map_result (\<lambda>row. py_get row i) (grid s) =
      map_result (\<lambda>row. py_get row (int (pos 9 i))) (grid s)"
    using assms True
    by (intro map_result_cong) (auto simp: py_get_eq wf_board_def wf_grid_def list_all_iff)
  with True assms show ?thesis
    by (simp add: wf_column_values_nat flip: column_values_eq)
next
  case False
  from assms have "grid s \<noteq> []" and "\<And>row. row \<in> set (grid s) \<Longrightarrow> length row = 9"
    by (auto simp: wf_board_def wf_grid_def list_all_iff)
  with False have "map_result (\<lambda>row. py_get row i) (grid s) = Inl IndexError"
    by (intro map_result_raises [of "hd (grid s)"]) (auto simp: py_get_eq)
  with False show ?thesis
    by (simp add: column_values_eq)
qed


lemma block_values_shift:
  assumes "wf_board s" "0 \<le> j" "j < 9"
  shows "block_values s (j - 9) = block_values s j"
proof -
  let ?xs = "py_range (j mod 3 * 3) (j mod 3 * 3 + 3)"
  let ?ys = "py_range (j div 3 * 3) (j div 3 * 3 + 3)"
  have m: "(j - 9) mod 3 = j mod 3" and d: "(j - 9) div 3 * 3 = j div 3 * 3 - 9"
    by presburger+
  have ys: "py_range (j div 3 * 3 - 9) (j div 3 * 3 - 6) = map (\<lambda>y. y - 9) ?ys"
    using py_range_3 [of "j div 3 * 3 - 9"] by (simp add: py_range_3)
  have "block_values s (j - 9) =
      map_result (\<lambda>(x, y). get_cell (grid s) x (y - 9)) (List.product ?xs ?ys)"
    using product_map_map [of "\<lambda>x. x" ?xs "\<lambda>y. y - 9" ?ys]
    by (simp add: block_values_eq m d ys map_result_map case_prod_unfold)
  also have "\<dots> = map_result (\<lambda>(x, y). get_cell (grid s) x y) (List.product ?xs ?ys)"
  proof (rule map_result_cong [OF refl])
    fix p
    assume "p \<in> set (List.product ?xs ?ys)"
    with assms(2,3) have "0 \<le> snd p" "snd p < 9"
      by (auto, presburger+)
    then have "index_ok 9 (snd p - 9)" "index_ok 9 (snd p)" "pos 9 (snd p - 9) = pos 9 (snd p)"
      by (simp_all add: index_ok_def pos_def)
    with assms(1) show "(case p of (x, y) \<Rightarrow> get_cell (grid s) x (y - 9)) =
        (case p of (x, y) \<Rightarrow> get_cell (grid s) x y)"
      by (simp add: wf_get_cell case_prod_unfold)
  qed
  finally show ?thesis
    by (simp add: block_values_eq)
qed

lemma wf_block_values:
  assumes "wf_board s"
  shows "block_values s i =
    (if index_ok 9 i then Inr (cells_of s (block_cells (pos 9 i))) else Inl IndexError)"
proof (cases "index_ok 9 i")
  case True
  show ?thesis
  proof (cases "0 \<le> i")
    case nonneg: True
    with True assms wf_block_values_nat [of s "nat i"] show ?thesis
      by (simp add: index_ok_def)
  next
    case False
    with True have "0 \<le> i + 9" "i + 9 < 9" "pos 9 i = nat (i + 9)"
      by (simp_all add: index_ok_def pos_def)
    with assms block_values_shift [of s "i + 9"] wf_block_values_nat [of s "nat (i + 9)"] True
    show ?thesis
      by simp
  qed
next
  case False
  let ?X = "i mod 3 * 3" and ?Y = "i div 3 * 3"
  from False have "\<not> index_ok 9 ?Y"
    by (auto simp: index_ok_def)
  with assms have "get_cell (grid s) ?X ?Y = Inl IndexError"
    by (simp add: wf_get_cell)
  then have "map_result (\<lambda>(x, y). get_cell (grid s) x y)
      (List.product (py_range ?X (?X + 3)) (py_range ?Y (?Y + 3))) = Inl IndexError"
    by (intro map_result_raises [of "(?X, ?Y)"]) (auto simp: get_cell_Inl)
  with False show ?thesis
    by (simp add: block_values_eq)
qed


section \<open>Which cells a view holds\<close>

lemma block_index_nat: "block_index (int x) (int y) = int (block_of x y)"
  by (simp add: block_index_def block_of_def zdiv_int)

lemma set_row_cells [simp]: "set (row_cells y) = {(x, y') . x < 9 \<and> y' = y}"
  by (auto simp: row_cells_def)

lemma set_column_cells [simp]: "set (column_cells x) = {(x', y) . x' = x \<and> y < 9}"
  by (auto simp: column_cells_def)

lemma set_row_major [simp]: "set row_major = {(x, y). x < 9 \<and> y < 9}"
  by (auto simp: row_major_def)

lemma distinct_row_cells [simp]: "distinct (row_cells y)"
  by (simp add: row_cells_def distinct_map inj_on_def)

lemma distinct_column_cells [simp]: "distinct (column_cells x)"
  by (simp add: column_cells_def distinct_map inj_on_def)

lemma distinct_block_cells [simp]: "distinct (block_cells i)"
  by (simp add: block_cells_def distinct_product)

lemma distinct_row_major [simp]: "distinct row_major"
  unfolding row_major_def
  by (rule distinct_concat) (auto simp: distinct_map inj_on_def row_cells_def)

lemma length_row_cells [simp]: "length (row_cells y) = 9"
  by (simp add: row_cells_def)

lemma length_column_cells [simp]: "length (column_cells x) = 9"
  by (simp add: column_cells_def)

lemma length_block_cells [simp]: "length (block_cells i) = 9"
  by (simp add: block_cells_def)

lemma length_cells_of [simp]: "length (cells_of s ps) = length ps"
  by (simp add: cells_of_def)

lemma set_cells_of: "set (cells_of s ps) = (\<lambda>(x, y). cell s x y) ` set ps"
  by (simp add: cells_of_def)

lemma block_range_iff: "3 * a \<le> x \<and> x < 3 * a + 3 \<longleftrightarrow> x div 3 = (a::nat)"
  by arith

lemma div3_less_iff: "x div 3 < (3::nat) \<longleftrightarrow> x < 9"
  by arith

lemma block_of_eq_iff:
  assumes "x < 9"
  shows "block_of x y = i \<longleftrightarrow> x div 3 = i mod 3 \<and> y div 3 = i div 3"
proof -
  from assms have "x div 3 < 3"
    by (simp add: div3_less_iff)
  then show ?thesis
    by (auto simp: block_of_def)
qed

lemma in_block_cells_div:
  "(x, y) \<in> set (block_cells i) \<longleftrightarrow> x div 3 = i mod 3 \<and> y div 3 = i div 3"
  using block_range_iff [of "i mod 3" x] block_range_iff [of "i div 3" y]
  by (simp add: block_cells_def)

lemma in_block_cells_iff:
  assumes "i < 9"
  shows "(x, y) \<in> set (block_cells i) \<longleftrightarrow> x < 9 \<and> y < 9 \<and> block_of x y = i"
proof -
  from assms have "i mod 3 < 3" "i div 3 < 3"
    by (simp_all add: div3_less_iff)
  then have "x div 3 = i mod 3 \<and> y div 3 = i div 3 \<Longrightarrow> x < 9 \<and> y < 9"
    using div3_less_iff [of x] div3_less_iff [of y] by simp
  then show ?thesis
    unfolding in_block_cells_div using block_of_eq_iff [of x y i] by blast
qed

lemma block_of_less: "x < 9 \<Longrightarrow> y < 9 \<Longrightarrow> block_of x y < 9"
  unfolding block_of_def by arith

lemma in_block_cells_same_block:
  "x < 9 \<Longrightarrow>
   (x', y') \<in> set (block_cells (block_of x y)) \<longleftrightarrow> x' div 3 = x div 3 \<and> y' div 3 = y div 3"
  using block_of_eq_iff [of x y "block_of x y"] by (simp add: in_block_cells_div)

lemma mset_block_cells:
  assumes "i < 9"
  shows "mset (block_cells i) = filter_mset (\<lambda>(x, y). block_of x y = i) (mset row_major)"
proof -
  have "set (block_cells i) = set (filter (\<lambda>(x, y). block_of x y = i) row_major)"
    using assms by (auto simp: in_block_cells_iff)
  then have "mset (block_cells i) = mset (filter (\<lambda>(x, y). block_of x y = i) row_major)"
    by (intro iffD1 [OF set_eq_iff_mset_eq_distinct]) simp_all
  then show ?thesis
    by simp
qed

section \<open>The views against value_at\<close>

lemma wf_value_at_row:
  assumes "wf_board s"
  shows "map_result (\<lambda>x. value_at s x i) (py_range 0 9) =
    (if index_ok 9 i then Inr (cells_of s (row_cells (pos 9 i))) else Inl IndexError)"
proof (cases "index_ok 9 i")
  case True
  with assms have "map_result (\<lambda>x. value_at s (int x) i) [0..<9] =
      Inr (map (\<lambda>x. cell s x (pos 9 i)) [0..<9])"
    by (intro map_result_total) (simp add: wf_value_at)
  with True show ?thesis
    by (simp add: py_range_0_9_nat map_result_map cells_of_def row_cells_def comp_def)
next
  case False
  with assms have "map_result (\<lambda>x. value_at s x i) (py_range 0 9) = Inl IndexError"
    by (intro map_result_raises [of 0]) (auto simp: wf_value_at split: if_splits)
  with False show ?thesis
    by simp
qed

lemma wf_value_at_column:
  assumes "wf_board s"
  shows "map_result (\<lambda>y. value_at s i y) (py_range 0 9) =
    (if index_ok 9 i then Inr (cells_of s (column_cells (pos 9 i))) else Inl IndexError)"
proof (cases "index_ok 9 i")
  case True
  with assms have "map_result (\<lambda>y. value_at s i (int y)) [0..<9] =
      Inr (map (\<lambda>y. cell s (pos 9 i) y) [0..<9])"
    by (intro map_result_total) (simp add: wf_value_at)
  with True show ?thesis
    by (simp add: py_range_0_9_nat map_result_map cells_of_def column_cells_def comp_def)
next
  case False
  with assms have "map_result (\<lambda>y. value_at s i y) (py_range 0 9) = Inl IndexError"
    by (intro map_result_raises [of 0]) (auto simp: wf_value_at split: if_splits)
  with False show ?thesis
    by simp
qed

lemma wf_sample_board: "wf_board sample_board"
  by (simp add: board_examples init_def wf_board_def wf_grid_def)

section \<open>The views on a grid of any shape\<close>

lemma map_result_nth_upt: "map_result (\<lambda>k. f (xs ! k)) [0..<length xs] = map_result f xs"
  using map_result_map [of f "nth xs" "[0..<length xs]"] by (simp add: map_nth)

lemma value_at_nat_row:
  "y < length (grid s) \<Longrightarrow> value_at s i (int y) = py_get (grid s ! y) i"
  by (simp add: value_at_def get_cell_def)

lemma column_values_value_at:
  "column_values s i = map_result (\<lambda>y. value_at s i y) (py_range 0 (int (length (grid s))))"
proof -
  have "map_result (\<lambda>y. value_at s i (int y)) [0..<length (grid s)] =
      map_result (\<lambda>y. py_get (grid s ! y) i) [0..<length (grid s)]"
    by (intro map_result_cong refl) (simp add: value_at_nat_row)
  then show ?thesis
    using py_range_nat [of 0 "length (grid s)"] map_result_nth_upt [of "\<lambda>row. py_get row i" "grid s"]
    by (simp add: column_values_eq map_result_map comp_def)
qed

lemma row_values_value_at:
  "row_values s i =
     bind_result (py_get (grid s) i) (\<lambda>row.
       map_result (\<lambda>x. value_at s x i) (py_range 0 (int (length row))))"
proof (cases "py_get (grid s) i")
  case (Inr row)
  have "map_result (\<lambda>x. value_at s (int x) i) [0..<length row] = Inr (map (nth row) [0..<length row])"
    by (intro map_result_total) (simp add: value_at_def get_cell_def Inr)
  with Inr show ?thesis
    using py_range_nat [of 0 "length row"] by (simp add: row_values_def map_result_map map_nth)
qed (simp add: row_values_def)

text \<open>
  C40. The views against \<^verbatim>\<open>value_at\<close>, on a grid of any shape. \<^verbatim>\<open>column_values(i)\<close>
  is the sequence of \<^verbatim>\<open>value_at(i, y)\<close> for \<open>y\<close> over all the rows of the grid, top to
  bottom; \<^verbatim>\<open>row_values(i)\<close> is the sequence of \<^verbatim>\<open>value_at(x, i)\<close> for \<open>x\<close> over the
  length of the row, left to right; \<^verbatim>\<open>block_values(i)\<close> is the sequence of the nine
  reads of its two loops. Each raises exactly when these reads raise; on a 9 by 9
  board the rows and the columns are read for the indices 0 to 8.
\<close>

theorem views_value_at:
  "column_values s i = map_result (\<lambda>y. value_at s i y) (py_range 0 (int (length (grid s)))) \<and>
   row_values s i =
     bind_result (py_get (grid s) i) (\<lambda>row.
       map_result (\<lambda>x. value_at s x i) (py_range 0 (int (length row)))) \<and>
   block_values s i =
     map_result (\<lambda>(x, y). value_at s x y)
       (List.product (py_range ((i mod 3) * 3) ((i mod 3) * 3 + 3))
                     (py_range ((i div 3) * 3) ((i div 3) * 3 + 3))) \<and>
   (wf_board s \<longrightarrow>
      row_values s i = map_result (\<lambda>x. value_at s x i) (py_range 0 9) \<and>
      column_values s i = map_result (\<lambda>y. value_at s i y) (py_range 0 9))"
proof -
  have "block_values s i =
     map_result (\<lambda>(x, y). value_at s x y)
       (List.product (py_range ((i mod 3) * 3) ((i mod 3) * 3 + 3))
                     (py_range ((i div 3) * 3) ((i div 3) * 3 + 3)))"
    by (simp add: block_values_eq value_at_def [abs_def])
  moreover have "row_values s i = map_result (\<lambda>x. value_at s x i) (py_range 0 9)"
    "column_values s i = map_result (\<lambda>y. value_at s i y) (py_range 0 9)" if "wf_board s"
    using that by (simp_all add: wf_row_values wf_value_at_row wf_column_values wf_value_at_column)
  ultimately show ?thesis
    using column_values_value_at [of s i] row_values_value_at [of s i] by blast
qed

theorem views_value_at_witness:
  "wf_board sample_board \<and>
   map_result (\<lambda>x. value_at sample_board x 1) (py_range 0 9) = Inr [6, 0, 0, 1, 9, 5, 0, 0, 0] \<and>
   map_result (\<lambda>y. value_at sample_board 8 y) (py_range 0 9) = Inr [0, 0, 0, 3, 1, 6, 0, 5, 9] \<and>
   column_values (init [[1, 2], [3]]) 1 = Inl IndexError \<and>
   map_result (\<lambda>y. value_at (init [[1, 2], [3]]) 1 y) (py_range 0 2) = Inl IndexError"
proof -
  have e: "row_values sample_board 1 = Inr [6, 0, 0, 1, 9, 5, 0, 0, 0]"
    "column_values sample_board 8 = Inr [0, 0, 0, 3, 1, 6, 0, 5, 9]"
    "column_values (init [[1, 2], [3]]) 1 = Inl IndexError"
    by (simp_all add: board_examples board_defs py_eval)
  have k: "int (length (grid (init [[1, 2], [3]]))) = 2"
    by (simp add: init_def)
  from views_value_at [of sample_board 1] views_value_at [of sample_board 8] wf_sample_board
  have "row_values sample_board 1 = map_result (\<lambda>x. value_at sample_board x 1) (py_range 0 9)"
    "column_values sample_board 8 = map_result (\<lambda>y. value_at sample_board 8 y) (py_range 0 9)"
    by blast+
  moreover from views_value_at [of "init [[1, 2], [3]]" 1]
  have "column_values (init [[1, 2], [3]]) 1 =
      map_result (\<lambda>y. value_at (init [[1, 2], [3]]) 1 y) (py_range 0 2)"
    unfolding k by blast
  ultimately show ?thesis
    using e wf_sample_board by (simp only: simp_thms)
qed

text \<open>
  C39. The complete behaviour of \<^verbatim>\<open>block_values\<close> on a 9 by 9 board. For a block index
  in \<open>[-9, 9)\<close> it returns the nine cells of the block, column by column and top to
  bottom within a column; a negative index counts from the last block, as a list
  index would; any other index raises \<^verbatim>\<open>IndexError\<close>.
\<close>

theorem block_values_spec:
  assumes "wf_board s"
  shows "block_values s i =
    (if - 9 \<le> i \<and> i < 9 then Inr (cells_of s (block_cells (pos 9 i))) else Inl IndexError)"
  using assms by (simp add: wf_block_values index_ok_9_iff)

theorem block_values_spec_witness:
  "wf_board sample_board \<and>
   block_values sample_board 2 = Inr [0, 0, 0, 0, 0, 6, 0, 0, 0] \<and>
   block_values sample_board (- 7) = Inr [0, 0, 0, 0, 0, 6, 0, 0, 0] \<and>
   block_values sample_board 9 = Inl IndexError"
proof -
  have "cells_of sample_board (block_cells 2) = [0, 0, 0, 0, 0, 6, 0, 0, 0]"
    by (simp add: cells_of_def block_cells_def cell_def board_examples init_def upt_rec)
  with block_values_spec [OF wf_sample_board, of 2]
    block_values_spec [OF wf_sample_board, of "- 7"]
    block_values_spec [OF wf_sample_board, of 9] wf_sample_board
  show ?thesis
    by (simp add: pos_def)
qed

text \<open>
  C9. \<^verbatim>\<open>block_values(i)\<close> holds the cells of block \<open>i\<close> and no others: as a multiset,
  its result is the contents of the cells \<open>(x, y)\<close> of the board whose block index, as
  \<^verbatim>\<open>options_at\<close> computes it, is \<open>i\<close>; there are nine of them.
\<close>

theorem block_values_contents:
  assumes "wf_board s" and "i < 9"
  shows "map_sum id mset (block_values s (int i)) =
      Inr (image_mset (\<lambda>(x, y). cell s x y)
        (filter_mset (\<lambda>(x, y). block_index (int x) (int y) = int i) (mset row_major))) \<and>
    map_sum id length (block_values s (int i)) = Inr 9"
  using assms
  by (simp add: wf_block_values_nat cells_of_def mset_block_cells block_index_nat)

theorem block_values_contents_witness:
  "wf_board sample_board \<and> (2::nat) < 9 \<and>
   block_values sample_board (int 2) = Inr [0, 0, 0, 0, 0, 6, 0, 0, 0] \<and>
   image_mset (\<lambda>(x, y). cell sample_board x y)
     (filter_mset (\<lambda>(x, y). block_index (int x) (int y) = int 2) (mset row_major)) =
     mset [0, 0, 0, 0, 0, 6, 0, 0, 0]"
proof -
  have "block_values sample_board (int 2) = Inr [0, 0, 0, 0, 0, 6, 0, 0, 0]"
    by (simp add: board_examples board_defs py_eval)
  with block_values_contents [OF wf_sample_board, of 2] wf_sample_board show ?thesis
    by simp
qed

end
