(* ===== verification/Board_Queries.thy ===== *)
theory Board_Queries
  imports Board_Views
begin

text \<open>
  The three queries a solver drives: \<^verbatim>\<open>options_at\<close>, \<^verbatim>\<open>next_empty_index\<close> and
  \<^verbatim>\<open>is_solved\<close>.

  \<^item> \<open>peer x y x' y'\<close> says that the cell \<open>(x', y')\<close> lies in the row, the column or
    the block of \<open>(x, y)\<close> (the cell itself does). \<open>candidates\<close> is the reference
    for \<^verbatim>\<open>options_at\<close>: the digits of 1 to 9 that no peer holds.
  \<^item> \<open>row_major\<close> lists the 81 positions row by row and left to right; \<open>before\<close> is
    that order. The reference for \<^verbatim>\<open>next_empty_index\<close> is the first position of
    \<open>row_major\<close> that holds 0.
  \<^item> \<^verbatim>\<open>is_solved\<close> is compared with both.
  \<^item> On a grid of any shape \<open>in_grid\<close> says that a position of the 9 by 9 window
    exists and \<open>first_stop\<close> is the first position of \<open>row_major\<close> that is missing
    or holds 0: the scan of \<^verbatim>\<open>next_empty_index\<close> ends there
    (\<open>next_empty_index_scan\<close>), with \<^verbatim>\<open>IndexError\<close> at a missing position. Off the
    9 by 9 shape the sentinel and \<^verbatim>\<open>is_solved\<close> no longer agree.
\<close>

section \<open>The queries\<close>

definition options_at :: "sudoku \<Rightarrow> int \<Rightarrow> int \<Rightarrow> int set result" where
  "options_at s x y =
     bind_result (row_values s y) (\<lambda>row.
     bind_result (column_values s x) (\<lambda>column.
     bind_result (block_values s (block_index x y)) (\<lambda>block.
     for_each (py_range 1 10) {} (\<lambda>v options.
       Inr (if v \<notin> set row \<and> v \<notin> set column \<and> v \<notin> set block
            then insert v options else options)))))"

definition next_empty_index :: "sudoku \<Rightarrow> (int \<times> int) result" where
  "next_empty_index s =
     bind_result
       (for_first (py_range 0 9) (\<lambda>y.
          for_first (py_range 0 9) (\<lambda>x.
            bind_result (get_cell (grid s) x y) (\<lambda>v.
              Inr (if v = 0 then Some (x, y) else None)))))
       (\<lambda>found. Inr (case found of Some p \<Rightarrow> p | None \<Rightarrow> (- 1, - 1)))"

definition is_solved :: "sudoku \<Rightarrow> bool" where
  "is_solved s = (if 0 \<in> set (concat (grid s)) then False else True)"

lemmas [board_defs] = options_at_def next_empty_index_def is_solved_def

section \<open>Reference definitions\<close>

definition peer :: "nat \<Rightarrow> nat \<Rightarrow> nat \<Rightarrow> nat \<Rightarrow> bool" where
  "peer x y x' y' \<longleftrightarrow> y' = y \<or> x' = x \<or> (x' div 3 = x div 3 \<and> y' div 3 = y div 3)"

definition peers :: "nat \<Rightarrow> nat \<Rightarrow> (nat \<times> nat) list" where
  "peers x y = filter (\<lambda>(x', y'). peer x y x' y') row_major"

definition candidates :: "sudoku \<Rightarrow> nat \<Rightarrow> nat \<Rightarrow> int set" where
  "candidates s x y = {v \<in> {1..9}. v \<notin> set (cells_of s (peers x y))}"

definition before :: "nat \<times> nat \<Rightarrow> nat \<times> nat \<Rightarrow> bool" where
  "before p q \<longleftrightarrow> snd p < snd q \<or> (snd p = snd q \<and> fst p < fst q)"

definition first_empty :: "sudoku \<Rightarrow> (nat \<times> nat) option" where
  "first_empty s = find (\<lambda>(x, y). cell s x y = 0) row_major"

definition in_grid :: "sudoku \<Rightarrow> nat \<Rightarrow> nat \<Rightarrow> bool" where
  "in_grid s x y \<longleftrightarrow> y < length (grid s) \<and> x < length (grid s ! y)"

definition first_stop :: "sudoku \<Rightarrow> (nat \<times> nat) option" where
  "first_stop s = find (\<lambda>(x, y). \<not> in_grid s x y \<or> cell s x y = 0) row_major"

section \<open>options_at\<close>

lemma set_peers:
  "x < 9 \<Longrightarrow> y < 9 \<Longrightarrow>
   set (peers x y) = set (row_cells y) \<union> set (column_cells x) \<union> set (block_cells (block_of x y))"
  by (auto simp: peers_def peer_def in_block_cells_same_block dest: block_cells_bound [OF block_of_less, rotated 2])

lemma options_at_eq:
  "options_at s x y =
     bind_result (row_values s y) (\<lambda>row.
     bind_result (column_values s x) (\<lambda>column.
     bind_result (block_values s (block_index x y)) (\<lambda>block.
     Inr {v \<in> {1..9}. v \<notin> set row \<and> v \<notin> set column \<and> v \<notin> set block})))"
proof -
  have "{v. 1 \<le> v \<and> v < 10 \<and> P v} = {v \<in> {1..9}. P v}" for P :: "int \<Rightarrow> bool"
    by auto
  then show ?thesis
    by (simp add: options_at_def for_each_insert_if)
qed

lemma wf_options_at_nat:
  assumes "wf_board s" "x < 9" "y < 9"
  shows "options_at s (int x) (int y) = Inr (candidates s x y)"
proof -
  have "block_of x y < 9"
    using assms(2,3) by (rule block_of_less)
  with assms show ?thesis
    by (auto simp: options_at_eq wf_row_values_nat wf_column_values_nat block_index_nat
        wf_block_values_nat candidates_def set_cells_of set_peers)
qed


lemma candidates_iff:
  assumes "x < 9" "y < 9"
  shows "v \<in> candidates s x y \<longleftrightarrow>
    1 \<le> v \<and> v \<le> 9 \<and> (\<forall>x' < 9. \<forall>y' < 9. peer x y x' y' \<longrightarrow> cell s x' y' \<noteq> v)"
  by (auto simp: candidates_def set_cells_of peers_def)

lemma wf_options_at:
  assumes "wf_board s"
  shows "options_at s x y =
    (if index_ok 9 x \<and> index_ok 9 y \<and> index_ok 9 (block_index x y)
     then Inr {v \<in> {1..9}. v \<notin> set (cells_of s (row_cells (pos 9 y))) \<and>
                 v \<notin> set (cells_of s (column_cells (pos 9 x))) \<and>
                 v \<notin> set (cells_of s (block_cells (pos 9 (block_index x y))))}
     else Inl IndexError)"
  using assms by (simp add: options_at_eq wf_row_values wf_column_values wf_block_values)

section \<open>The row-major order\<close>

lemma row_major_eq: "row_major = concat (map (\<lambda>y. map (\<lambda>x. (x, y)) [0..<9]) [0..<9])"
  by (simp add: row_major_def row_cells_def [abs_def])

lemma row_major_index: "row_major = map (\<lambda>k. (k mod 9, k div 9)) [0..<81]"
  by (simp add: row_major_def row_cells_def upt_rec)

lemma length_row_major [simp]: "length row_major = 81"
  by (simp add: row_major_index)

lemma nth_row_major: "k < 81 \<Longrightarrow> row_major ! k = (k mod 9, k div 9)"
  by (simp add: row_major_index)

lemma lex_less_iff:
  "r < 9 \<Longrightarrow> x < 9 \<Longrightarrow> 9 * q + r < 9 * y + x \<longleftrightarrow> q < y \<or> (q = y \<and> r < (x::nat))"
  by arith

lemma before_index:
  assumes "x < 9"
  shows "j < 9 * y + x \<longleftrightarrow> before (j mod 9, j div 9) (x, y)"
  using assms lex_less_iff [of "j mod 9" x "j div 9" y] by (simp add: before_def)

lemma cell_index_mod [simp]: "x < 9 \<Longrightarrow> (9 * y + x) mod 9 = (x::nat)"
  by simp

lemma cell_index_div [simp]: "x < 9 \<Longrightarrow> (9 * y + x) div 9 = (y::nat)"
  by simp

lemma cell_index_less: "x < 9 \<Longrightarrow> y < 9 \<Longrightarrow> 9 * y + x < (81::nat)"
  by arith

lemma nth_row_major_cell: "x < 9 \<Longrightarrow> y < 9 \<Longrightarrow> row_major ! (9 * y + x) = (x, y)"
  by (simp add: nth_row_major cell_index_less)

lemma find_row_major_Some:
  "find P row_major = Some (x, y) \<longleftrightarrow>
     x < 9 \<and> y < 9 \<and> P (x, y) \<and> (\<forall>x' < 9. \<forall>y' < 9. before (x', y') (x, y) \<longrightarrow> \<not> P (x', y'))"
  (is "?L \<longleftrightarrow> ?R")
proof
  assume ?L
  then obtain i where i: "i < 81" "P (row_major ! i)" "(x, y) = row_major ! i"
    and first: "\<And>j. j < i \<Longrightarrow> \<not> P (row_major ! j)"
    unfolding find_Some_iff by auto
  from i(1,3) have x: "x = i mod 9" and y: "y = i div 9"
    by (simp_all add: nth_row_major)
  from i(1) have bound: "x < 9" "y < 9" and idx: "i = 9 * y + x"
    unfolding x y by simp_all
  have "\<not> P (x', y')" if "x' < 9" "y' < 9" "before (x', y') (x, y)" for x' y'
  proof -
    from that bound have "9 * y' + x' < i"
      unfolding idx using before_index [of x "9 * y' + x'" y] by simp
    then have "\<not> P (row_major ! (9 * y' + x'))"
      by (rule first)
    with that show ?thesis
      by (simp add: nth_row_major_cell)
  qed
  with i(2,3) bound show ?R
    by simp
next
  assume r: ?R
  then have bound: "x < 9" "y < 9"
    by simp_all
  have "\<not> P (row_major ! j)" if "j < 9 * y + x" for j
  proof -
    from that bound have "j < 81"
      using cell_index_less [of x y] by simp
    moreover from that bound have "before (j mod 9, j div 9) (x, y)"
      by (simp flip: before_index)
    moreover from \<open>j < 81\<close> have "j mod 9 < 9" "j div 9 < 9"
      by simp_all
    ultimately show ?thesis
      using r by (simp add: nth_row_major)
  qed
  with r bound show ?L
    unfolding find_Some_iff
    by (intro exI [of _ "9 * y + x"]) (simp add: nth_row_major_cell cell_index_less)
qed


section \<open>next_empty_index and is_solved\<close>

lemma wf_grid_eq:
  assumes "wf_board s"
  shows "grid s = map (\<lambda>y. cells_of s (row_cells y)) [0..<9]"
  using assms
  by (intro nth_equalityI)
    (auto simp: wf_board_def wf_grid_simps cells_of_def row_cells_def cell_def)

lemma wf_concat_grid: "wf_board s \<Longrightarrow> concat (grid s) = cells_of s row_major"
  by (subst wf_grid_eq) (simp_all add: cells_of_def row_major_def map_concat comp_def)

lemma wf_is_solved:
  "wf_board s \<Longrightarrow> is_solved s \<longleftrightarrow> (\<forall>x < 9. \<forall>y < 9. cell s x y \<noteq> 0)"
  by (force simp: is_solved_def wf_concat_grid set_cells_of)

lemma wf_is_solved_find:
  "wf_board s \<Longrightarrow> is_solved s \<longleftrightarrow> find (\<lambda>(x, y). cell s x y = 0) row_major = None"
  by (auto simp: wf_is_solved find_None_iff)


lemma wf_next_empty_index:
  assumes "wf_board s"
  shows "next_empty_index s =
    Inr (case find (\<lambda>(x, y). cell s x y = 0) row_major of
           None \<Rightarrow> (- 1, - 1) | Some (x, y) \<Rightarrow> (int x, int y))"
proof -
  have "for_first [0..<9] (\<lambda>y. for_first [0..<9] (\<lambda>x.
      bind_result (get_cell (grid s) (int x) (int y)) (\<lambda>v.
        Inr (if v = 0 then Some (int x, int y) else None)))) =
    Inr (map_option (\<lambda>(x, y). (int x, int y)) (find (\<lambda>(x, y). cell s x y = 0) row_major))"
    unfolding row_major_eq using assms
    by (intro for_first_nested_find) simp
  then show ?thesis
    by (simp add: next_empty_index_def py_range_0_9_nat for_first_map split: option.split)
qed


lemma first_empty_Some:
  "first_empty s = Some (x, y) \<longleftrightarrow>
     x < 9 \<and> y < 9 \<and> cell s x y = 0 \<and>
     (\<forall>x' < 9. \<forall>y' < 9. before (x', y') (x, y) \<longrightarrow> cell s x' y' \<noteq> 0)"
  by (simp add: first_empty_def find_row_major_Some)

lemma first_empty_None: "first_empty s = None \<longleftrightarrow> (\<forall>x < 9. \<forall>y < 9. cell s x y \<noteq> 0)"
  by (auto simp: first_empty_def find_None_iff)

section \<open>The scan on a grid of any shape\<close>

lemma get_cell_nat:
  "get_cell (grid s) (int x) (int y) = (if in_grid s x y then Inr (cell s x y) else Inl IndexError)"
  by (simp add: get_cell_eq cell_ok_def cell_of_def row_of_def col_of_def in_grid_def cell_def)

lemma wf_in_grid: "wf_board s \<Longrightarrow> in_grid s x y \<longleftrightarrow> x < 9 \<and> y < 9"
  by (auto simp: in_grid_def wf_board_def wf_grid_simps)

lemma in_grid_cell: "in_grid s x y \<Longrightarrow> cell s x y \<in> set (concat (grid s))"
  unfolding in_grid_def cell_def set_concat by (blast intro: nth_mem)

lemma digits_ok_cell:
  assumes "wf_board s" "digits_ok s" "x < 9" "y < 9"
  shows "is_digit (cell s x y)"
  using assms in_grid_cell [of s x y] by (auto simp: digits_ok_iff wf_in_grid)

lemma next_empty_index_scan:
  "next_empty_index s =
     (case first_stop s of
        None \<Rightarrow> Inr (- 1, - 1)
      | Some (x, y) \<Rightarrow> if in_grid s x y then Inr (int x, int y) else Inl IndexError)"
proof -
  let ?body = "\<lambda>x y. bind_result (get_cell (grid s) (int x) (int y))
    (\<lambda>v. Inr (if v = 0 then Some (int x, int y) else None))"
  have stop: "?body x y \<noteq> Inr None \<longleftrightarrow> \<not> in_grid s x y \<or> cell s x y = 0" for x y
    by (simp add: get_cell_nat)
  have "for_first [0..<9] (\<lambda>y. for_first [0..<9] (\<lambda>x. ?body x y)) =
      (case find (\<lambda>(x, y). \<not> in_grid s x y \<or> cell s x y = 0) row_major of
         None \<Rightarrow> Inr None | Some (x, y) \<Rightarrow> ?body x y)"
    unfolding for_first_nested_stop row_major_eq stop ..
  then show ?thesis
    by (auto simp: next_empty_index_def first_stop_def py_range_0_9_nat for_first_map get_cell_nat
        split: option.split dest: find_Some_set)
qed

lemma first_stop_wf: "wf_board s \<Longrightarrow> first_stop s = first_empty s"
  unfolding first_stop_def first_empty_def
  by (intro find_cong) (auto simp: wf_in_grid)

lemma wf_empty_board: "wf_board empty_board"
  by (simp add: board_examples init_def wf_board_def wf_grid_def)

section \<open>Properties of options_at\<close>

text \<open>
  C1. \<^verbatim>\<open>options_at(x, y)\<close> on a 9 by 9 board, for a cell of the board, returns exactly
  the digits of 1 to 9 that no cell of the row, the column or the block of \<open>(x, y)\<close>
  holds: it never offers a digit a peer holds and never withholds one that no peer
  holds. The cell itself counts as its own peer.
\<close>

theorem options_at_spec:
  assumes "wf_board s" and "x < 9" and "y < 9"
  shows "options_at s (int x) (int y) =
    Inr {v. 1 \<le> v \<and> v \<le> 9 \<and> (\<forall>x' < 9. \<forall>y' < 9. peer x y x' y' \<longrightarrow> cell s x' y' \<noteq> v)}"
  using assms candidates_iff [of x y _ s] by (simp add: wf_options_at_nat set_eq_iff)

theorem options_at_spec_witness:
  "wf_board sample_board \<and> (2::nat) < 9 \<and> (0::nat) < 9 \<and>
   options_at sample_board 2 0 = Inr {4, 2, 1} \<and>
   {v. 1 \<le> v \<and> v \<le> 9 \<and>
      (\<forall>x' < 9. \<forall>y' < 9. peer 2 0 x' y' \<longrightarrow> cell sample_board x' y' \<noteq> v)} = {4, 2, 1}"
proof -
  have e: "options_at sample_board 2 0 = Inr {4, 2, 1}"
    by (simp add: board_examples board_defs py_eval)
  from options_at_spec [OF wf_sample_board, of 2 0] e
  have "{v. 1 \<le> v \<and> v \<le> 9 \<and>
      (\<forall>x' < 9. \<forall>y' < 9. peer 2 0 x' y' \<longrightarrow> cell sample_board x' y' \<noteq> v)} = {4, 2, 1}"
    by simp
  with e wf_sample_board show ?thesis
    by simp
qed

text \<open>
  C38. Which coordinates \<^verbatim>\<open>options_at\<close> accepts on a 9 by 9 board: both must lie in
  \<open>[-9, 9)\<close>, as for \<^verbatim>\<open>value_at\<close>, and so must the block index computed from them.
  So \<^verbatim>\<open>options_at(-9, -9)\<close> raises \<^verbatim>\<open>IndexError\<close> although \<^verbatim>\<open>value_at(-9, -9)\<close>
  reads the top left cell.
\<close>

theorem options_at_accepts:
  assumes "wf_board s"
  shows "succeeds (options_at s x y) \<longleftrightarrow>
    - 9 \<le> x \<and> x < 9 \<and> - 9 \<le> y \<and> y < 9 \<and> - 9 \<le> block_index x y \<and> block_index x y < 9"
  using assms by (simp add: wf_options_at index_ok_9_iff)

theorem options_at_accepts_witness:
  "wf_board empty_board \<and> succeeds (value_at empty_board (- 9) (- 9)) \<and>
   \<not> succeeds (options_at empty_board (- 9) (- 9)) \<and> succeeds (options_at empty_board 8 8)"
proof -
  have "succeeds (value_at empty_board (- 9) (- 9))"
    using wf_empty_board by (simp add: wf_value_at index_ok_9_iff)
  moreover have "\<not> succeeds (options_at empty_board (- 9) (- 9))"
    by (simp add: options_at_accepts [OF wf_empty_board] block_index_def)
  moreover have "succeeds (options_at empty_board 8 8)"
    by (simp add: options_at_accepts [OF wf_empty_board] block_index_def)
  ultimately show ?thesis
    using wf_empty_board by simp
qed

lemma block_shift_mod: "b < 9 \<Longrightarrow> (b + 6) mod 9 = (if b < 3 then b + 6 else b - (3::nat))"
  by (simp add: mod_if)

text \<open>
  C33. For a negative column index the block that \<^verbatim>\<open>options_at\<close> consults is not the
  block of the cell. With \<open>x\<close> in \<open>[-9, 0)\<close> and \<open>y\<close> in \<open>[0, 9)\<close>, the cell named is
  \<open>(x + 9, y)\<close>, the row and the column consulted are its own, but the block is the
  one two block rows further down (one block row up, cyclically).
\<close>

theorem options_at_negative_column:
  assumes "wf_board s" and "- 9 \<le> x" and "x < 0" and "y < 9"
  shows "block_values s (block_index x (int y)) =
    Inr (cells_of s (block_cells ((block_of (nat (x + 9)) y + 6) mod 9)))"
proof -
  define x' where "x' = nat (x + 9)"
  with assms have x: "x = int x' - 9" and x': "x' < 9"
    by simp_all
  have "(int x' - 9) div 3 = int (x' div 3) - 3"
    by (simp add: zdiv_int)
  then have b: "block_index x (int y) = int (block_of x' y) - 3"
    by (simp add: block_index_def block_of_def x zdiv_int)
  from x' assms(4) have "block_of x' y < 9"
    by (rule block_of_less)
  then have "index_ok 9 (block_index x (int y))"
    and "pos 9 (block_index x (int y)) = (block_of x' y + 6) mod 9"
    unfolding b by (auto simp: index_ok_def pos_def nat_add_distrib nat_diff_distrib' block_shift_mod)
  with assms(1) show ?thesis
    by (simp add: wf_block_values x'_def)
qed

theorem options_at_negative_column_witness:
  "wf_board sample_board \<and>
   value_at sample_board (- 1) 0 = value_at sample_board 8 0 \<and>
   block_values sample_board (block_index 8 0) = Inr [0, 0, 0, 0, 0, 6, 0, 0, 0] \<and>
   block_values sample_board (block_index (- 1) 0) = Inr [2, 0, 0, 8, 0, 7, 0, 5, 9] \<and>
   options_at sample_board 8 0 = Inr {8, 4, 2} \<and>
   options_at sample_board (- 1) 0 = Inr {4}"
proof -
  have "cells_of sample_board (block_cells ((block_of (nat (- 1 + 9)) 0 + 6) mod 9)) =
      [2, 0, 0, 8, 0, 7, 0, 5, 9]"
    by (simp add: cells_of_def block_cells_def block_of_def cell_def board_examples init_def upt_rec)
  with options_at_negative_column [OF wf_sample_board, of "- 1" 0]
  have "block_values sample_board (block_index (- 1) 0) = Inr [2, 0, 0, 8, 0, 7, 0, 5, 9]"
    by simp
  moreover have "value_at sample_board (- 1) 0 = value_at sample_board 8 0"
    "block_values sample_board (block_index 8 0) = Inr [0, 0, 0, 0, 0, 6, 0, 0, 0]"
    "options_at sample_board 8 0 = Inr {8, 4, 2}"
    "options_at sample_board (- 1) 0 = Inr {4}"
    by (simp_all add: board_examples board_defs py_eval)
  ultimately show ?thesis
    using wf_sample_board by simp
qed

section \<open>Properties of next_empty_index and is_solved\<close>

text \<open>
  C19. \<^verbatim>\<open>next_empty_index\<close> on a grid of any shape. The scan visits the positions
  of the 9 by 9 window in row-major order and stops at the first one that is missing
  from the grid or holds 0: it raises \<^verbatim>\<open>IndexError\<close> at a missing position, returns
  the position of a 0, and returns \<open>(-1, -1)\<close> when it never stops. On a 9 by 9 board
  no position is missing, and the call returns the first empty cell.
\<close>

theorem next_empty_index_any:
  "next_empty_index s =
     (case first_stop s of
        None \<Rightarrow> Inr (- 1, - 1)
      | Some (x, y) \<Rightarrow> if in_grid s x y then Inr (int x, int y) else Inl IndexError) \<and>
   (wf_board s \<longrightarrow> first_stop s = first_empty s)"
  using next_empty_index_scan [of s] by (simp add: first_stop_wf)

theorem next_empty_index_any_witness:
  "first_stop (init [[1, 2], [3]]) = Some (2, 0) \<and> \<not> in_grid (init [[1, 2], [3]]) 2 0 \<and>
   next_empty_index (init [[1, 2], [3]]) = Inl IndexError \<and>
   wf_board sample_board \<and> first_empty sample_board = Some (2, 0) \<and>
   next_empty_index sample_board = Inr (2, 0) \<and>
   next_empty_index (init [[1, 1, 1, 1, 1, 1, 1, 1, 0]]) = Inr (8, 0)"
proof -
  have "next_empty_index (init [[1, 1, 1, 1, 1, 1, 1, 1, 0]]) = Inr (8, 0)"
    by (simp add: board_defs py_eval)
  moreover
  have "first_stop (init [[1, 2], [3]]) = Some (2, 0)" "\<not> in_grid (init [[1, 2], [3]]) 2 0"
    "first_stop sample_board = Some (2, 0)" "in_grid sample_board 2 0"
    by (simp_all add: first_stop_def in_grid_def cell_def init_def board_examples row_major_def
        row_cells_def upt_rec)
  ultimately show ?thesis
    using next_empty_index_any [of "init [[1, 2], [3]]"] next_empty_index_any [of sample_board]
      wf_sample_board
    by simp
qed

text \<open>
  C32. The sentinel and \<^verbatim>\<open>is_solved\<close> disagree off the 9 by 9 shape. On a grid
  without a 0 that lacks a position of the 9 by 9 window, \<^verbatim>\<open>is_solved\<close> is true and
  \<^verbatim>\<open>next_empty_index\<close> raises \<^verbatim>\<open>IndexError\<close>; on a grid whose window holds no 0,
  \<^verbatim>\<open>next_empty_index\<close> returns \<open>(-1, -1)\<close> whatever the cells outside the window
  hold, also when \<^verbatim>\<open>is_solved\<close> is false.
\<close>

theorem sentinel_needs_shape:
  "(is_solved s \<and> x < 9 \<and> y < 9 \<and> \<not> in_grid s x y \<longrightarrow> next_empty_index s = Inl IndexError) \<and>
   (list_all (\<lambda>(x, y). in_grid s x y \<and> cell s x y \<noteq> 0) row_major \<longrightarrow>
      next_empty_index s = Inr (- 1, - 1))"
proof (intro conjI impI)
  assume a: "is_solved s \<and> x < 9 \<and> y < 9 \<and> \<not> in_grid s x y"
  then have "first_stop s \<noteq> None"
    by (auto simp: first_stop_def find_None_iff)
  then obtain x' y' where f: "first_stop s = Some (x', y')"
    by auto
  from a have "cell s x' y' \<noteq> 0" if "in_grid s x' y'"
    using in_grid_cell [OF that] by (auto simp: is_solved_def split: if_splits)
  with find_Some_set [OF f [unfolded first_stop_def]] have "\<not> in_grid s x' y'"
    by auto
  with f show "next_empty_index s = Inl IndexError"
    by (simp add: next_empty_index_scan)
next
  assume "list_all (\<lambda>(x, y). in_grid s x y \<and> cell s x y \<noteq> 0) row_major"
  then have "first_stop s = None"
    by (auto simp: first_stop_def find_None_iff list_all_iff)
  then show "next_empty_index s = Inr (- 1, - 1)"
    by (simp add: next_empty_index_scan)
qed

theorem sentinel_needs_shape_witness:
  "is_solved (init [[1, 2], [3]]) \<and> next_empty_index (init [[1, 2], [3]]) = Inl IndexError \<and>
   is_solved (init []) \<and> next_empty_index (init []) = Inl IndexError \<and>
   \<not> is_solved (init (grid fives_board @ [[0]])) \<and>
   next_empty_index (init (grid fives_board @ [[0]])) = Inr (- 1, - 1)"
proof -
  have "is_solved (init [[1, 2], [3]])" "\<not> in_grid (init [[1, 2], [3]]) 2 0"
    "is_solved (init [])" "\<not> in_grid (init []) 0 0"
    "\<not> is_solved (init (grid fives_board @ [[0]]))"
    by (simp_all add: is_solved_def in_grid_def init_def board_examples)
  moreover have "list_all (\<lambda>(x, y). in_grid (init (grid fives_board @ [[0]])) x y \<and>
      cell (init (grid fives_board @ [[0]])) x y \<noteq> 0) row_major"
    by (simp add: in_grid_def cell_def init_def board_examples row_major_def row_cells_def upt_rec)
  ultimately show ?thesis
    using sentinel_needs_shape [of "init [[1, 2], [3]]" 2 0] sentinel_needs_shape [of "init []" 0 0]
      sentinel_needs_shape [of "init (grid fives_board @ [[0]])"]
    by simp
qed

text \<open>
  C2. The scan order of \<^verbatim>\<open>next_empty_index\<close>: on a 9 by 9 board it returns the
  position \<open>(x, y)\<close> of the board exactly when that cell holds 0 and every cell
  before it (in an earlier row, or to its left in the same row) holds a digit other
  than 0.
\<close>

theorem next_empty_index_first:
  assumes "wf_board s" and "x < 9" and "y < 9"
  shows "next_empty_index s = Inr (int x, int y) \<longleftrightarrow>
    cell s x y = 0 \<and> (\<forall>x' < 9. \<forall>y' < 9. before (x', y') (x, y) \<longrightarrow> cell s x' y' \<noteq> 0)"
proof -
  have "next_empty_index s = Inr (int x, int y) \<longleftrightarrow> first_empty s = Some (x, y)"
    using assms(1) by (auto simp: wf_next_empty_index first_empty_def split: option.splits)
  with assms(2,3) show ?thesis
    by (simp add: first_empty_Some)
qed

theorem next_empty_index_first_witness:
  "wf_board sample_board \<and> (2::nat) < 9 \<and> (0::nat) < 9 \<and>
   next_empty_index sample_board = Inr (2, 0) \<and> cell sample_board 2 0 = 0 \<and>
   before (1, 0) (2, 0) \<and> cell sample_board 1 0 \<noteq> 0 \<and>
   before (0, 0) (2, 0) \<and> cell sample_board 0 0 \<noteq> 0"
proof -
  have e: "next_empty_index sample_board = Inr (int 2, int 0)"
    by (simp add: board_examples board_defs py_eval)
  with next_empty_index_first [OF wf_sample_board, of 2 0] wf_sample_board show ?thesis
    by (simp add: before_def)
qed

text \<open>
  C34. \<^verbatim>\<open>is_solved\<close> answers for completeness only: on a 9 by 9 board it is true
  exactly when \<^verbatim>\<open>value_at\<close> returns 0 for no cell of the board. It does not look at
  rows, columns or blocks, although its docstring says so.
\<close>

theorem is_solved_spec:
  assumes "wf_board s"
  shows "is_solved s \<longleftrightarrow> (\<forall>x < 9. \<forall>y < 9. value_at s (int x) (int y) \<noteq> Inr 0)"
  using assms by (simp add: wf_is_solved)

theorem is_solved_spec_witness:
  "wf_board fives_board \<and> is_solved fives_board \<and>
   value_at fives_board (int 3) (int 4) \<noteq> Inr 0 \<and>
   row_values fives_board 0 = Inr [5, 5, 5, 5, 5, 5, 5, 5, 5]"
proof -
  have wf: "wf_board fives_board"
    by (simp add: board_examples init_def wf_board_def wf_grid_def)
  have solved: "is_solved fives_board"
    by (simp add: board_examples board_defs)
  have row: "row_values fives_board 0 = Inr [5, 5, 5, 5, 5, 5, 5, 5, 5]"
    by (simp add: board_examples board_defs)
  from solved have ns: "value_at fives_board (int x) (int y) \<noteq> Inr 0" if "x < 9" "y < 9" for x y
    using is_solved_spec [OF wf] that by blast
  have "value_at fives_board (int 3) (int 4) \<noteq> Inr 0"
    by (rule ns) simp_all
  with wf solved row show ?thesis
    by (intro conjI)
qed

text \<open>
  C7. The sentinel and the terminal predicate agree: on a 9 by 9 board
  \<^verbatim>\<open>next_empty_index\<close> returns \<open>(-1, -1)\<close> exactly when \<^verbatim>\<open>is_solved\<close> is true, so a
  solver that loops until \<^verbatim>\<open>is_solved\<close> always gets a cell to fill.
\<close>

theorem next_empty_index_sentinel:
  assumes "wf_board s"
  shows "next_empty_index s = Inr (- 1, - 1) \<longleftrightarrow> is_solved s"
  using assms by (auto simp: wf_next_empty_index wf_is_solved_find split: option.splits)

theorem next_empty_index_sentinel_witness:
  "wf_board solved_board \<and> is_solved solved_board \<and>
   next_empty_index solved_board = Inr (- 1, - 1) \<and>
   wf_board sample_board \<and> \<not> is_solved sample_board \<and>
   \<not> is_solved (init (grid solved_board @ [[0]]))"
proof -
  have wf: "wf_board solved_board"
    by (simp add: board_examples init_def wf_board_def wf_grid_def)
  have "is_solved solved_board" "\<not> is_solved (init (grid solved_board @ [[0]]))"
    by (simp_all add: board_examples board_defs)
  moreover have "next_empty_index sample_board = Inr (2, 0)"
    by (simp add: board_examples board_defs py_eval)
  ultimately show ?thesis
    using next_empty_index_sentinel [OF wf] next_empty_index_sentinel [OF wf_sample_board]
      wf wf_sample_board
    by simp
qed

end
