(* ===== verification/Board_Ops.thy ===== *)
theory Board_Ops
  imports Board_Queries
begin

text \<open>
  The board as its caller sees it: a sequence of method calls on one mutable
  instance. \<open>op\<close> names a call of a public method of \<^verbatim>\<open>Sudoku\<close> with its arguments
  (coordinates are naturals here: the documented callers count from 0), \<open>reply\<close> is
  what the call returns, \<open>exec\<close> performs one call and \<open>run\<close> a sequence of calls,
  stopping at the first exception as Python does. \<open>run_with\<close> is the sequencing
  alone, over any step function and any type of states, so that the abstract board
  of \<open>Board_Spec\<close> is run by the same definition.

  \<open>trace_ok\<close> is the discipline a backtracking search follows: a \<^verbatim>\<open>place\<close> goes to an
  empty cell of the board, every \<^verbatim>\<open>unplace\<close> withdraws the most recent placement
  still standing, and queries stay on the board. The theory shows that such a trace
  never raises and leaves the board as it found it once every placement is withdrawn.

  \<open>step\<close> and \<open>steps\<close> are the same runs as a labelled transition relation, with
  its laws (\<open>step_uniq\<close>, \<open>steps_append\<close>, \<open>steps_induct_invariant\<close>). \<open>ty\<close>,
  \<open>result_ty\<close> and \<open>has_ty\<close> give every call the type of its reply, the return
  annotation of the method refined by the ranges of the data model, and
  \<open>typed_board\<close> is the type of the state; the calls are type safe on typed boards.
\<close>

section \<open>Calls and runs\<close>

datatype op =
    Place int nat nat
  | Unplace nat nat
  | Value_At nat nat
  | Options_At nat nat
  | Next_Empty_Index
  | Is_Solved
  | Row_Values nat
  | Column_Values nat
  | Block_Values nat

datatype reply = Done | Val int | Opts "int set" | Pos "int \<times> int" | Flag bool | Vals "int list"

definition answer :: "('a \<Rightarrow> reply) \<Rightarrow> 'st \<Rightarrow> 'a result \<Rightarrow> (reply \<times> 'st) result" where
  "answer f s r = bind_result r (\<lambda>a. Inr (f a, s))"

definition effect :: "'st result \<Rightarrow> (reply \<times> 'st) result" where
  "effect r = bind_result r (\<lambda>s'. Inr (Done, s'))"

fun exec :: "op \<Rightarrow> sudoku \<Rightarrow> (reply \<times> sudoku) result" where
  "exec (Place v x y) s = effect (place s v (int x) (int y))"
| "exec (Unplace x y) s = effect (unplace s (int x) (int y))"
| "exec (Value_At x y) s = answer Val s (value_at s (int x) (int y))"
| "exec (Options_At x y) s = answer Opts s (options_at s (int x) (int y))"
| "exec Next_Empty_Index s = answer Pos s (next_empty_index s)"
| "exec Is_Solved s = Inr (Flag (is_solved s), s)"
| "exec (Row_Values i) s = answer Vals s (row_values s (int i))"
| "exec (Column_Values i) s = answer Vals s (column_values s (int i))"
| "exec (Block_Values i) s = answer Vals s (block_values s (int i))"

fun run_with :: "(op \<Rightarrow> 'st \<Rightarrow> (reply \<times> 'st) result) \<Rightarrow> op list \<Rightarrow> 'st \<Rightarrow> (reply list \<times> 'st) result" where
  "run_with step [] s = Inr ([], s)"
| "run_with step (c # cs) s =
     bind_result (step c s) (\<lambda>(r, s').
     bind_result (run_with step cs s') (\<lambda>(rs, s''). Inr (r # rs, s'')))"

definition run :: "op list \<Rightarrow> sudoku \<Rightarrow> (reply list \<times> sudoku) result" where
  "run = run_with exec"

section \<open>Runs as a relation\<close>

text \<open>
  The same runs as a labelled transition relation: \<open>step c s t\<close> holds when the call
  \<open>c\<close> returns on the board \<open>s\<close> and leaves the board \<open>t\<close>, and \<open>steps cs s t\<close> when
  the calls \<open>cs\<close> return one after the other. Invariants of the board are proved by
  induction over \<open>steps\<close>.
\<close>

inductive step :: "op \<Rightarrow> sudoku \<Rightarrow> sudoku \<Rightarrow> bool" where
  step_exec: "exec c s = Inr (r, t) \<Longrightarrow> step c s t"

inductive steps :: "op list \<Rightarrow> sudoku \<Rightarrow> sudoku \<Rightarrow> bool" where
  steps_Nil: "steps [] s s"
| steps_Cons: "step c s t \<Longrightarrow> steps cs t u \<Longrightarrow> steps (c # cs) s u"

code_pred step .

code_pred steps .

inductive_cases steps_NilE [elim!]: "steps [] s t"

inductive_cases steps_ConsE [elim!]: "steps (c # cs) s t"

inductive_simps step_iff: "step c s t"

fun digit_op :: "op \<Rightarrow> bool" where
  "digit_op (Place v x y) \<longleftrightarrow> is_digit v"
| "digit_op c \<longleftrightarrow> True"

section \<open>Types of the replies\<close>

text \<open>
  The return annotations of the methods, refined by the ranges of the data model: a
  value read from the board is a digit of 0..9, an option a digit of 1..9, a position
  a cell of the board or the sentinel, a view a list of nine digits. A board is
  \<open>typed_board\<close> when it is 9 by 9 and holds digits.
\<close>

datatype ty = None_T | Digit_T | Options_T | Position_T | Bool_T | Digits_T

fun result_ty :: "op \<Rightarrow> ty" where
  "result_ty (Place v x y) = None_T"
| "result_ty (Unplace x y) = None_T"
| "result_ty (Value_At x y) = Digit_T"
| "result_ty (Options_At x y) = Options_T"
| "result_ty Next_Empty_Index = Position_T"
| "result_ty Is_Solved = Bool_T"
| "result_ty (Row_Values i) = Digits_T"
| "result_ty (Column_Values i) = Digits_T"
| "result_ty (Block_Values i) = Digits_T"

fun has_ty :: "reply \<Rightarrow> ty \<Rightarrow> bool" where
  "has_ty Done None_T \<longleftrightarrow> True"
| "has_ty (Val v) Digit_T \<longleftrightarrow> is_digit v"
| "has_ty (Opts vs) Options_T \<longleftrightarrow> (\<forall>v \<in> vs. 1 \<le> v \<and> v \<le> 9)"
| "has_ty (Pos p) Position_T \<longleftrightarrow> p = (- 1, - 1) \<or> on_board (fst p) (snd p)"
| "has_ty (Flag b) Bool_T \<longleftrightarrow> True"
| "has_ty (Vals vs) Digits_T \<longleftrightarrow> length vs = 9 \<and> list_all is_digit vs"
| "has_ty r t \<longleftrightarrow> False"

definition typed_board :: "sudoku \<Rightarrow> bool" where
  "typed_board s \<longleftrightarrow> wf_board s \<and> digits_ok s"

section \<open>The discipline of a backtracking search\<close>

fun in_range :: "op \<Rightarrow> bool" where
  "in_range (Place v x y) \<longleftrightarrow> x < 9 \<and> y < 9"
| "in_range (Unplace x y) \<longleftrightarrow> x < 9 \<and> y < 9"
| "in_range (Value_At x y) \<longleftrightarrow> x < 9 \<and> y < 9"
| "in_range (Options_At x y) \<longleftrightarrow> x < 9 \<and> y < 9"
| "in_range Next_Empty_Index \<longleftrightarrow> True"
| "in_range Is_Solved \<longleftrightarrow> True"
| "in_range (Row_Values i) \<longleftrightarrow> i < 9"
| "in_range (Column_Values i) \<longleftrightarrow> i < 9"
| "in_range (Block_Values i) \<longleftrightarrow> i < 9"

fun is_query :: "op \<Rightarrow> bool" where
  "is_query (Place v x y) \<longleftrightarrow> False"
| "is_query (Unplace x y) \<longleftrightarrow> False"
| "is_query c \<longleftrightarrow> True"

definition put_cell :: "sudoku \<Rightarrow> nat \<Rightarrow> nat \<Rightarrow> int \<Rightarrow> sudoku" where
  "put_cell s x y v = s\<lparr>grid := upd_at (grid s) y x v\<rparr>"

fun trace_ok :: "sudoku \<Rightarrow> (nat \<times> nat) list \<Rightarrow> op list \<Rightarrow> bool" where
  "trace_ok s st [] \<longleftrightarrow> st = []"
| "trace_ok s st (Place v x y # cs) \<longleftrightarrow>
     x < 9 \<and> y < 9 \<and> cell s x y = 0 \<and> trace_ok (put_cell s x y v) ((x, y) # st) cs"
| "trace_ok s st (Unplace x y # cs) \<longleftrightarrow>
     (case st of [] \<Rightarrow> False
      | p # st' \<Rightarrow> p = (x, y) \<and> x < 9 \<and> y < 9 \<and> trace_ok (put_cell s x y 0) st' cs)"
| "trace_ok s st (c # cs) \<longleftrightarrow> in_range c \<and> trace_ok s st cs"

section \<open>Reference: what a call returns and leaves\<close>

fun reply_of :: "op \<Rightarrow> sudoku \<Rightarrow> reply" where
  "reply_of (Place v x y) s = Done"
| "reply_of (Unplace x y) s = Done"
| "reply_of (Value_At x y) s = Val (cell s x y)"
| "reply_of (Options_At x y) s = Opts (candidates s x y)"
| "reply_of Next_Empty_Index s =
     Pos (case first_empty s of None \<Rightarrow> (- 1, - 1) | Some (x, y) \<Rightarrow> (int x, int y))"
| "reply_of Is_Solved s = Flag (first_empty s = None)"
| "reply_of (Row_Values i) s = Vals (cells_of s (row_cells i))"
| "reply_of (Column_Values i) s = Vals (cells_of s (column_cells i))"
| "reply_of (Block_Values i) s = Vals (cells_of s (block_cells i))"

fun next_board :: "op \<Rightarrow> sudoku \<Rightarrow> sudoku" where
  "next_board (Place v x y) s = put_cell s x y v"
| "next_board (Unplace x y) s = put_cell s x y 0"
| "next_board c s = s"

fun replies :: "op list \<Rightarrow> sudoku \<Rightarrow> reply list" where
  "replies [] s = []"
| "replies (c # cs) s = reply_of c s # replies cs (next_board c s)"

definition final_board :: "op list \<Rightarrow> sudoku \<Rightarrow> sudoku" where
  "final_board cs s = fold next_board cs s"

definition withdraw :: "(nat \<times> nat) list \<Rightarrow> sudoku \<Rightarrow> sudoku" where
  "withdraw st s = fold (\<lambda>(x, y) s. put_cell s x y 0) st s"

section \<open>One call\<close>

lemma answer_Inr [simp]: "answer f s (Inr a) = Inr (f a, s)"
  by (simp add: answer_def)

lemma answer_Inl [simp]: "answer f s (Inl e) = Inl e"
  by (simp add: answer_def)

lemma effect_Inr [simp]: "effect (Inr s) = Inr (Done, s)"
  by (simp add: effect_def)

lemma effect_Inl [simp]: "effect (Inl e) = Inl e"
  by (simp add: effect_def)

lemma wf_put_cell [simp]: "wf_board (put_cell s x y v) \<longleftrightarrow> wf_board s"
  by (simp add: put_cell_def wf_board_def)

lemma cell_put_cell:
  "wf_board s \<Longrightarrow> x < 9 \<Longrightarrow> y < 9 \<Longrightarrow>
   cell (put_cell s x y v) x' y' = (if x' = x \<and> y' = y then v else cell s x' y')"
  unfolding put_cell_def by (rule cell_upd_at)

lemma put_cell_same: "put_cell s x y (cell s x y) = s"
  by (simp add: put_cell_def cell_def upd_at_same_value)

lemma put_cell_twice [simp]: "put_cell (put_cell s x y v) x y w = put_cell s x y w"
  by (simp add: put_cell_def upd_at_twice)

lemma put_cell_zero: "cell s x y = 0 \<Longrightarrow> put_cell s x y 0 = s"
  using put_cell_same [of s x y] by simp

lemma put_cell_undo: "cell s x y = 0 \<Longrightarrow> put_cell (put_cell s x y v) x y 0 = s"
  using put_cell_same [of s x y] by simp

lemma wf_place_int:
  assumes "wf_board s"
  shows "place s v (int x) (int y) =
    (if x < 9 \<and> y < 9 then Inr (put_cell s x y v) else Inl IndexError)"
  using assms by (simp add: place_eq wf_board_def wf_cell_ok wf_upd_cell put_cell_def)

lemma wf_next_board [simp]: "wf_board (next_board c s) \<longleftrightarrow> wf_board s"
  by (cases c) simp_all

lemma wf_final_board [simp]: "wf_board (final_board cs s) \<longleftrightarrow> wf_board s"
  unfolding final_board_def by (induction cs arbitrary: s) simp_all

lemma final_board_simps [simp]:
  "final_board [] s = s"
  "final_board (c # cs) s = final_board cs (next_board c s)"
  by (simp_all add: final_board_def)

lemma length_replies [simp]: "length (replies cs s) = length cs"
  by (induction cs arbitrary: s) simp_all

lemma wf_exec:
  assumes wf: "wf_board s"
  shows "exec c s = (if in_range c then Inr (reply_of c s, next_board c s) else Inl IndexError)"
proof (cases c)
  case (Options_At x y)
  with wf show ?thesis
    by (cases "x < 9 \<and> y < 9") (simp_all add: wf_options_at_nat, auto simp: wf_options_at)
next
  case Next_Empty_Index
  with wf show ?thesis
    by (simp add: wf_next_empty_index first_empty_def)
next
  case Is_Solved
  with wf show ?thesis
    by (simp add: wf_is_solved_find first_empty_def)
qed (use wf in \<open>simp_all add: wf_place_int unplace_eq_place wf_value_at wf_row_values
      wf_column_values wf_block_values\<close>)

section \<open>Runs\<close>

lemma run_with_refines:
  assumes step: "\<And>c s. I s \<Longrightarrow> map_sum id (map_prod id \<alpha>) (f c s) = g c (\<alpha> s)"
    and inv: "\<And>c s r s'. I s \<Longrightarrow> f c s = Inr (r, s') \<Longrightarrow> I s'"
    and "I s"
  shows "map_sum id (map_prod id \<alpha>) (run_with f cs s) = run_with g cs (\<alpha> s)"
  using \<open>I s\<close>
proof (induction cs arbitrary: s)
  case Nil
  show ?case
    by simp
next
  case (Cons c cs)
  show ?case
  proof (cases "f c s")
    case (Inl e)
    with step [OF Cons.prems, of c] have "g c (\<alpha> s) = Inl e"
      by simp
    with Inl show ?thesis
      by simp
  next
    case (Inr p)
    obtain r s' where p: "p = (r, s')"
      by (cases p)
    from Inr p inv [OF Cons.prems] have "I s'"
      by blast
    from step [OF Cons.prems, of c] Inr p have "g c (\<alpha> s) = Inr (r, \<alpha> s')"
      by simp
    with Cons.IH [OF \<open>I s'\<close>, symmetric] Inr p show ?thesis
      by (cases "run_with f cs s'") auto
  qed
qed

lemma run_Nil [simp]: "run [] s = Inr ([], s)"
  by (simp add: run_def)

lemma run_Cons:
  "run (c # cs) s =
     bind_result (exec c s) (\<lambda>(r, s'). bind_result (run cs s') (\<lambda>(rs, s''). Inr (r # rs, s'')))"
  by (simp add: run_def)

lemma wf_run_Cons:
  assumes "wf_board s"
  shows "run (c # cs) s =
    (if in_range c
     then bind_result (run cs (next_board c s)) (\<lambda>(rs, s'). Inr (reply_of c s # rs, s'))
     else Inl IndexError)"
  using assms by (simp add: run_Cons wf_exec)

lemma withdraw_simps [simp]:
  "withdraw [] s = s"
  "withdraw ((x, y) # st) s = withdraw st (put_cell s x y 0)"
  by (simp_all add: withdraw_def)

lemma trace_ok_run:
  assumes "trace_ok s st cs" "wf_board s"
  shows "run cs s = Inr (replies cs s, withdraw st s)"
  using assms
proof (induction s st cs rule: trace_ok.induct)
  case (2 s st v x y cs)
  then show ?case
    by (simp add: wf_run_Cons put_cell_zero)
next
  case (3 s st x y cs)
  then show ?case
    by (cases st) (auto simp: wf_run_Cons)
qed (simp_all add: wf_run_Cons)

lemma wf_run:
  assumes "wf_board s"
  shows "run cs s =
    (if list_all in_range cs then Inr (replies cs s, final_board cs s) else Inl IndexError)"
  using assms by (induction cs arbitrary: s) (simp_all add: wf_run_Cons)

text \<open>
  C29. A sequence of calls on a 9 by 9 board raises \<^verbatim>\<open>IndexError\<close> exactly when one
  of its calls has a coordinate or an index outside 0..8; otherwise it returns, call
  by call, the reference replies, and leaves the board the writes produce.
\<close>

theorem run_spec:
  assumes "wf_board s"
  shows "run cs s =
    (if list_all in_range cs then Inr (replies cs s, final_board cs s) else Inl IndexError)"
  using assms by (rule wf_run)

lemmas run_eval = run_def effect_def answer_def

theorem run_spec_witness:
  "run [Next_Empty_Index, Options_At 2 0, Place 4 2 0, Value_At 2 0, Is_Solved] sample_board =
     Inr ([Pos (2, 0), Opts {4, 2, 1}, Done, Val 4, Flag False], sample_placed) \<and>
   replies [Next_Empty_Index, Options_At 2 0, Place 4 2 0, Value_At 2 0, Is_Solved] sample_board =
     [Pos (2, 0), Opts {4, 2, 1}, Done, Val 4, Flag False] \<and>
   run [Value_At 0 0, Value_At 9 0, Place 1 0 0] sample_board = Inl IndexError"
proof -
  have e: "run [Next_Empty_Index, Options_At 2 0, Place 4 2 0, Value_At 2 0, Is_Solved] sample_board =
     Inr ([Pos (2, 0), Opts {4, 2, 1}, Done, Val 4, Flag False], sample_placed)"
    by (simp add: run_eval board_examples board_defs py_eval)
  have "run [Next_Empty_Index, Options_At 2 0, Place 4 2 0, Value_At 2 0, Is_Solved] sample_board =
     Inr (replies [Next_Empty_Index, Options_At 2 0, Place 4 2 0, Value_At 2 0, Is_Solved] sample_board,
          final_board [Next_Empty_Index, Options_At 2 0, Place 4 2 0, Value_At 2 0, Is_Solved] sample_board)"
    by (simp add: run_spec [OF wf_sample_board] del: replies.simps final_board_simps)
  with e have "replies [Next_Empty_Index, Options_At 2 0, Place 4 2 0, Value_At 2 0, Is_Solved] sample_board =
     [Pos (2, 0), Opts {4, 2, 1}, Done, Val 4, Flag False]"
    by (simp del: replies.simps final_board_simps)
  moreover have "run [Value_At 0 0, Value_At 9 0, Place 1 0 0] sample_board = Inl IndexError"
    by (simp add: run_spec [OF wf_sample_board])
  ultimately show ?thesis
    using e by (simp del: replies.simps)
qed

text \<open>
  C11. Backtracking leaves no trace. A sequence of calls in which every \<^verbatim>\<open>place\<close>
  goes to an empty cell, every \<^verbatim>\<open>unplace\<close> withdraws the latest placement still
  standing, every placement is withdrawn in the end and every query is on the board,
  never raises and returns the board it started from.
\<close>

theorem trace_ok_restores:
  assumes "wf_board s" "trace_ok s [] cs"
  shows "run cs s = Inr (replies cs s, s)"
  using trace_ok_run [OF assms(2,1)] by simp

theorem trace_ok_restores_witness:
  "trace_ok sample_board []
     [Next_Empty_Index, Place 4 2 0, Options_At 8 0, Place 2 8 0, Is_Solved, Unplace 8 0, Unplace 2 0] \<and>
   run [Next_Empty_Index, Place 4 2 0, Options_At 8 0, Place 2 8 0, Is_Solved, Unplace 8 0, Unplace 2 0]
     sample_board =
     Inr ([Pos (2, 0), Done, Opts {8, 2}, Done, Flag False, Done, Done], sample_board)"
proof -
  have t: "trace_ok sample_board []
     [Next_Empty_Index, Place 4 2 0, Options_At 8 0, Place 2 8 0, Is_Solved, Unplace 8 0, Unplace 2 0]"
    by (simp add: put_cell_def upd_at_def cell_def board_examples init_def)
  have "run [Next_Empty_Index, Place 4 2 0, Options_At 8 0, Place 2 8 0, Is_Solved, Unplace 8 0, Unplace 2 0]
     sample_board =
     Inr ([Pos (2, 0), Done, Opts {8, 2}, Done, Flag False, Done, Done], sample_board)"
    by (simp add: run_eval board_examples board_defs py_eval)
  with trace_ok_restores [OF wf_sample_board t] t show ?thesis
    by (simp del: replies.simps trace_ok.simps)
qed

section \<open>Invariants of the reachable boards\<close>

lemma digits_ok_put_cell: "digits_ok s \<Longrightarrow> is_digit v \<Longrightarrow> digits_ok (put_cell s x y v)"
  using set_concat_upd_at_subset [of "grid s" y x v] by (auto simp: digits_ok_iff put_cell_def)

lemma digits_ok_next_board: "digits_ok s \<Longrightarrow> digit_op c \<Longrightarrow> digits_ok (next_board c s)"
  by (cases c) (simp_all add: digits_ok_put_cell is_digit_def)

lemma wf_step: "wf_board s \<Longrightarrow> step c s t \<longleftrightarrow> in_range c \<and> t = next_board c s"
  by (auto simp: step_iff wf_exec)

lemma steps_iff_run: "steps cs s t \<longleftrightarrow> (\<exists>rs. run cs s = Inr (rs, t))"
proof (induction cs arbitrary: s)
  case (Cons c cs)
  show ?case
    by (auto simp: run_Cons step_iff Cons.IH bind_result_eq_Inr intro: steps.intros)
qed (auto intro: steps.intros)

section \<open>The transition relation\<close>

lemma step_uniq: "step c s t \<Longrightarrow> step c s t' \<Longrightarrow> t' = t"
  by (auto simp: step_iff)

lemma steps_uniq: "steps cs s t \<Longrightarrow> steps cs s t' \<Longrightarrow> t' = t"
proof (induction cs arbitrary: s)
  case (Cons c cs)
  then show ?case
    by (elim steps_ConsE) (blast dest: step_uniq)
qed blast

lemma steps_append: "steps cs s t \<Longrightarrow> steps ds t u \<Longrightarrow> steps (cs @ ds) s u"
  by (induction rule: steps.induct) (auto intro: steps.intros)

lemma steps_appendD: "steps (cs @ ds) s u \<Longrightarrow> \<exists>t. steps cs s t \<and> steps ds t u"
proof (induction cs arbitrary: s)
  case (Cons c cs)
  from Cons.prems obtain s' where "step c s s'" "steps (cs @ ds) s' u"
    by auto
  with Cons.IH [of s'] show ?case
    by (blast intro: steps.intros)
qed (auto intro: steps.intros)

lemma steps_induct_invariant:
  assumes "steps cs s t" and "I s"
    and "\<And>c s t. c \<in> set cs \<Longrightarrow> I s \<Longrightarrow> step c s t \<Longrightarrow> I t"
  shows "I t"
  using assms by (induction rule: steps.induct) auto

section \<open>Type safety\<close>

lemma cells_of_typed:
  assumes "wf_board s" "digits_ok s" "\<forall>(x, y) \<in> set ps. x < 9 \<and> y < 9"
  shows "list_all is_digit (cells_of s ps)"
  using assms by (auto simp: list_all_iff set_cells_of digits_ok_cell)

lemma reply_of_typed:
  assumes "typed_board s" "in_range c"
  shows "has_ty (reply_of c s) (result_ty c)"
proof (cases c)
  case (Value_At x y)
  with assms show ?thesis
    by (simp add: typed_board_def digits_ok_cell)
next
  case Next_Empty_Index
  then show ?thesis
    by (auto simp: first_empty_Some split: option.splits)
next
  case (Block_Values i)
  with assms show ?thesis
    by (auto simp: typed_board_def intro!: cells_of_typed dest: block_cells_bound)
qed (use assms in \<open>auto simp: typed_board_def candidates_def intro!: cells_of_typed\<close>)

lemma typed_next_board: "typed_board s \<Longrightarrow> digit_op c \<Longrightarrow> typed_board (next_board c s)"
  by (simp add: typed_board_def digits_ok_next_board)

lemma exec_typed:
  assumes "typed_board s" "digit_op c"
  shows "exec c s =
    (if in_range c then Inr (reply_of c s, next_board c s) else Inl IndexError) \<and>
    (in_range c \<longrightarrow> has_ty (reply_of c s) (result_ty c) \<and> typed_board (next_board c s))"
  using assms by (simp add: wf_exec typed_board_def [of s] reply_of_typed typed_next_board)

lemma replies_typed:
  assumes "typed_board s" "list_all digit_op cs" "list_all in_range cs"
  shows "list_all2 has_ty (replies cs s) (map result_ty cs) \<and> typed_board (final_board cs s)"
  using assms
  by (induction cs arbitrary: s) (simp_all add: reply_of_typed typed_next_board)

text \<open>
  C13. Type safety of the interface. On a 9 by 9 board of digits, calls that place
  digits only and stay within 0..8 all return (progress); when a sequence of calls
  returns, every reply has the type its method declares, within the ranges of the
  data model, and the board is again a 9 by 9 board of digits (preservation); the
  only exception a sequence can raise is \<^verbatim>\<open>IndexError\<close>.
\<close>

theorem run_type_safe:
  assumes "typed_board s" "list_all digit_op cs"
  shows "(list_all in_range cs \<longrightarrow> succeeds (run cs s)) \<and>
         (run cs s = Inr (rs, t) \<longrightarrow> list_all2 has_ty rs (map result_ty cs) \<and> typed_board t) \<and>
         (run cs s = Inl e \<longrightarrow> e = IndexError)"
proof -
  from assms(1) have "wf_board s"
    by (simp add: typed_board_def)
  from wf_run [OF this, of cs] replies_typed [OF assms] show ?thesis
    by (auto split: if_splits)
qed

theorem run_type_safe_witness:
  "typed_board sample_board \<and>
   run [Next_Empty_Index, Options_At 2 0, Place 4 2 0, Row_Values 0, Is_Solved] sample_board =
     Inr ([Pos (2, 0), Opts {4, 2, 1}, Done, Vals [5, 3, 4, 0, 7, 0, 0, 0, 0], Flag False],
          sample_placed) \<and>
   has_ty (Vals [5, 3, 4, 0, 7, 0, 0, 0, 0]) (result_ty (Row_Values 0)) \<and>
   typed_board sample_placed \<and> \<not> has_ty (Val 10) Digit_T"
proof -
  have ty: "typed_board sample_board"
    by (simp add: typed_board_def wf_board_def wf_grid_def digits_ok_def is_digit_def
        board_examples init_def)
  have r: "run [Next_Empty_Index, Options_At 2 0, Place 4 2 0, Row_Values 0, Is_Solved] sample_board =
     Inr ([Pos (2, 0), Opts {4, 2, 1}, Done, Vals [5, 3, 4, 0, 7, 0, 0, 0, 0], Flag False],
          sample_placed)"
    by (simp add: run_eval board_examples board_defs py_eval)
  from run_type_safe [OF ty, of "[Next_Empty_Index, Options_At 2 0, Place 4 2 0, Row_Values 0, Is_Solved]"
      "[Pos (2, 0), Opts {4, 2, 1}, Done, Vals [5, 3, 4, 0, 7, 0, 0, 0, 0], Flag False]" sample_placed]
    ty r
  show ?thesis
    by (simp add: is_digit_def)
qed

text \<open>
  C37. The invariants of the data model hold on every board the calls can reach.
  Calls that return on a 9 by 9 board leave a 9 by 9 board, and were all within
  0..8; if moreover the board held digits and every value placed was a digit of
  0..9, the board they leave holds digits.
\<close>

theorem steps_invariant:
  assumes "steps cs s t" "wf_board s"
  shows "wf_board t \<and> list_all in_range cs \<and> (digits_ok s \<and> list_all digit_op cs \<longrightarrow> digits_ok t)"
  using assms
proof (induction rule: steps.induct)
  case (steps_Cons c s t cs u)
  then show ?case
    by (auto simp: wf_step digits_ok_next_board)
qed simp

theorem steps_invariant_witness:
  "steps [Place 4 2 0, Options_At 8 0, Unplace 2 0] sample_board sample_board \<and>
   wf_board sample_board \<and> digits_ok sample_board \<and>
   steps [Place 10 0 0] empty_board (put_cell empty_board 0 0 10) \<and>
   wf_board (put_cell empty_board 0 0 10) \<and> \<not> digits_ok (put_cell empty_board 0 0 10)"
proof -
  have s: "steps [Place 4 2 0, Options_At 8 0, Unplace 2 0] sample_board sample_board"
    "steps [Place 10 0 0] empty_board (put_cell empty_board 0 0 10)"
    unfolding steps_iff_run
    by (simp_all add: run_eval board_examples board_defs py_eval put_cell_def upd_at_def)
  have "digits_ok sample_board" "\<not> digits_ok (put_cell empty_board 0 0 10)"
    by (simp_all add: board_examples init_def digits_ok_def is_digit_def put_cell_def upd_at_def)
  with steps_invariant [OF s(1) wf_sample_board] steps_invariant [OF s(2) wf_empty_board] s
  show ?thesis
    by (simp add: is_digit_def)
qed

end
