(* ===== verification/Board_Spec.thy ===== *)
theory Board_Spec
  imports Board_Ops
begin

text \<open>
  What the board promises, stated without lists and without Python: an abstract
  board is a finite map from the 81 positions to values, and \<open>spec\<close> gives, for each
  call, the reply and the next abstract board. \<open>abs_board\<close> reads a concrete board
  as an abstract one. The theory shows that \<open>exec\<close> implements \<open>spec\<close> on every
  9 by 9 board, call by call (\<open>exec_refines\<close>) and run by run, and that \<open>abs_board\<close>
  forgets nothing of a 9 by 9 board.
\<close>

section \<open>The abstract board\<close>

type_synonym aboard = "nat \<times> nat \<rightharpoonup> int"

definition abs_board :: "sudoku \<Rightarrow> aboard" where
  "abs_board s = (\<lambda>(x, y). if x < 9 \<and> y < 9 then Some (cell s x y) else None)"

definition a_cells :: "aboard \<Rightarrow> (nat \<times> nat) list \<Rightarrow> int list" where
  "a_cells m ps = map (\<lambda>p. the (m p)) ps"

definition a_put :: "aboard \<Rightarrow> nat \<times> nat \<Rightarrow> int \<Rightarrow> (reply \<times> aboard) result" where
  "a_put m p v = (case m p of None \<Rightarrow> Inl IndexError | Some w \<Rightarrow> Inr (Done, m(p \<mapsto> v)))"

definition a_view :: "aboard \<Rightarrow> nat \<Rightarrow> (nat \<times> nat) list \<Rightarrow> (reply \<times> aboard) result" where
  "a_view m i ps = (if i < 9 then Inr (Vals (a_cells m ps), m) else Inl IndexError)"

fun spec :: "op \<Rightarrow> aboard \<Rightarrow> (reply \<times> aboard) result" where
  "spec (Place v x y) m = a_put m (x, y) v"
| "spec (Unplace x y) m = a_put m (x, y) 0"
| "spec (Value_At x y) m = (case m (x, y) of None \<Rightarrow> Inl IndexError | Some v \<Rightarrow> Inr (Val v, m))"
| "spec (Options_At x y) m =
     (case m (x, y) of None \<Rightarrow> Inl IndexError
      | Some w \<Rightarrow> Inr (Opts {v \<in> {1..9}. v \<notin> set (a_cells m (peers x y))}, m))"
| "spec Next_Empty_Index m =
     Inr (Pos (case find (\<lambda>p. m p = Some 0) row_major of
                 None \<Rightarrow> (- 1, - 1) | Some (x, y) \<Rightarrow> (int x, int y)), m)"
| "spec Is_Solved m = Inr (Flag (find (\<lambda>p. m p = Some 0) row_major = None), m)"
| "spec (Row_Values i) m = a_view m i (row_cells i)"
| "spec (Column_Values i) m = a_view m i (column_cells i)"
| "spec (Block_Values i) m = a_view m i (block_cells i)"

definition run_spec_with :: "op list \<Rightarrow> aboard \<Rightarrow> (reply list \<times> aboard) result" where
  "run_spec_with = run_with spec"

section \<open>The abstraction\<close>

lemma abs_board_apply: "abs_board s (x, y) = (if x < 9 \<and> y < 9 then Some (cell s x y) else None)"
  by (simp add: abs_board_def)

lemma dom_abs_board [simp]: "dom (abs_board s) = set row_major"
  by (auto simp: abs_board_def split: if_splits)

lemma abs_board_put_cell:
  assumes "wf_board s" "x < 9" "y < 9"
  shows "abs_board (put_cell s x y v) = (abs_board s)((x, y) \<mapsto> v)"
  using assms by (auto simp: abs_board_def cell_put_cell fun_eq_iff)

lemma a_cells_abs_board:
  assumes "\<forall>(x, y) \<in> set ps. x < 9 \<and> y < 9"
  shows "a_cells (abs_board s) ps = cells_of s ps"
  using assms by (auto simp: a_cells_def cells_of_def abs_board_def)

lemma a_cells_views:
  "a_cells (abs_board s) (peers x y) = cells_of s (peers x y)"
  "i < 9 \<Longrightarrow> a_cells (abs_board s) (row_cells i) = cells_of s (row_cells i)"
  "i < 9 \<Longrightarrow> a_cells (abs_board s) (column_cells i) = cells_of s (column_cells i)"
  "i < 9 \<Longrightarrow> a_cells (abs_board s) (block_cells i) = cells_of s (block_cells i)"
  by (rule a_cells_abs_board; auto simp: peers_def dest: block_cells_bound)+

lemma candidates_abs_board:
  "candidates s x y = {v \<in> {1..9}. v \<notin> set (a_cells (abs_board s) (peers x y))}"
  by (simp add: candidates_def a_cells_views)

lemma first_empty_abs_board: "first_empty s = find (\<lambda>p. abs_board s p = Some 0) row_major"
  unfolding first_empty_def by (rule find_cong) (auto simp: abs_board_def)

lemma abs_board_inject:
  assumes "wf_board s" "wf_board s'" "abs_board s = abs_board s'"
  shows "s = s'"
proof -
  have "cell s x y = cell s' x y" if "x < 9" "y < 9" for x y
    using that fun_cong [OF assms(3), of "(x, y)"] by (simp add: abs_board_apply)
  then have "cells_of s (row_cells y) = cells_of s' (row_cells y)" if "y < 9" for y
    using that by (simp add: cells_of_def row_cells_def)
  then have "map (\<lambda>y. cells_of s (row_cells y)) [0..<9] = map (\<lambda>y. cells_of s' (row_cells y)) [0..<9]"
    by simp
  with assms(1,2) have "grid s = grid s'"
    by (simp only: wf_grid_eq)
  then show ?thesis
    by simp
qed

section \<open>Refinement\<close>

lemma spec_abs_board:
  assumes wf: "wf_board s"
  shows "spec c (abs_board s) =
    (if in_range c then Inr (reply_of c s, abs_board (next_board c s)) else Inl IndexError)"
  using wf
  by (cases c)
    (auto simp: a_put_def a_view_def abs_board_apply abs_board_put_cell
      candidates_abs_board first_empty_abs_board a_cells_views)

lemma exec_refines:
  assumes "wf_board s"
  shows "map_sum id (map_prod id abs_board) (exec c s) = spec c (abs_board s)"
  using assms by (simp add: wf_exec spec_abs_board)

lemma wf_exec_Inr: "wf_board s \<Longrightarrow> exec c s = Inr (r, s') \<Longrightarrow> wf_board s'"
  by (auto simp: wf_exec split: if_splits)

text \<open>
  C10. The class implements the abstract board. On a 9 by 9 board every call, and
  every sequence of calls, returns the replies the abstract specification gives,
  raises exactly when the specification does, and leaves a board whose abstraction
  is the specification's final board.
\<close>

theorem run_refines_spec:
  assumes "wf_board s"
  shows "map_sum id (map_prod id abs_board) (exec c s) = spec c (abs_board s) \<and>
         map_sum id (map_prod id abs_board) (run cs s) = run_spec_with cs (abs_board s)"
proof
  show "map_sum id (map_prod id abs_board) (exec c s) = spec c (abs_board s)"
    using assms by (rule exec_refines)
  show "map_sum id (map_prod id abs_board) (run cs s) = run_spec_with cs (abs_board s)"
    unfolding run_def run_spec_with_def
    by (rule run_with_refines [where I = wf_board]) (auto intro: exec_refines wf_exec_Inr assms)
qed

theorem run_refines_spec_witness:
  "run_spec_with [Next_Empty_Index, Place 4 2 0, Value_At 2 0, Value_At 2 9] (abs_board sample_board) =
     Inl IndexError \<and>
   run_spec_with [Next_Empty_Index, Place 4 2 0, Value_At 2 0] (abs_board sample_board) =
     Inr ([Pos (2, 0), Done, Val 4], abs_board sample_placed) \<and>
   spec (Options_At 2 0) (abs_board sample_board) = Inr (Opts {4, 2, 1}, abs_board sample_board) \<and>
   run_spec_with [Place 4 2 0, Unplace 2 0] (abs_board sample_board) =
     Inr ([Done, Done], abs_board sample_board)"
proof -
  have "run [Next_Empty_Index, Place 4 2 0, Value_At 2 0, Value_At 2 9] sample_board = Inl IndexError"
    "run [Next_Empty_Index, Place 4 2 0, Value_At 2 0] sample_board =
       Inr ([Pos (2, 0), Done, Val 4], sample_placed)"
    "run [Place 4 2 0, Unplace 2 0] sample_board = Inr ([Done, Done], sample_board)"
    "exec (Options_At 2 0) sample_board = Inr (Opts {4, 2, 1}, sample_board)"
    by (simp_all add: run_eval board_examples board_defs py_eval)
  with run_refines_spec [OF wf_sample_board,
      of "Options_At 2 0" "[Next_Empty_Index, Place 4 2 0, Value_At 2 0, Value_At 2 9]"]
    run_refines_spec [OF wf_sample_board,
      of "Options_At 2 0" "[Next_Empty_Index, Place 4 2 0, Value_At 2 0]"]
    run_refines_spec [OF wf_sample_board, of "Options_At 2 0" "[Place 4 2 0, Unplace 2 0]"]
  show ?thesis
    by (simp del: spec.simps)
qed

end
