(* ===== verification/Sudoku_Rules.thy ===== *)
theory Sudoku_Rules
  imports Board_Queries
begin

text \<open>
  The rules of Sudoku, and what the queries of \<^verbatim>\<open>src/sudoku.py\<close> have to do with
  them. The source never states the rules; it uses them in \<^verbatim>\<open>options_at\<close>, which
  excludes the values of a cell's row, column and block, and its docstrings appeal to
  them. \<open>groups\<close> lists the 27 rows, columns and blocks as lists of cells, and
  \<open>rules_ok\<close> says that no group holds a non-zero value twice; both are reference
  definitions and compute. The lemmas relate \<open>rules_ok\<close> to the relation \<open>peer\<close> of
  \<open>Board_Queries\<close> (\<open>rules_okI\<close>, \<open>rules_okD\<close>) and to one write (\<open>rules_ok_upd_iff\<close>,
  \<open>candidates_upd\<close>); the theorems state what a caller of \<^verbatim>\<open>options_at\<close>,
  \<^verbatim>\<open>place\<close> and \<^verbatim>\<open>is_solved\<close> may rely on.
\<close>

section \<open>Reference definitions\<close>

definition groups :: "(nat \<times> nat) list list" where
  "groups = map row_cells [0..<9] @ map column_cells [0..<9] @ map block_cells [0..<9]"

definition rules_ok :: "sudoku \<Rightarrow> bool" where
  "rules_ok s \<longleftrightarrow> list_all (\<lambda>g. distinct (filter (\<lambda>v. v \<noteq> 0) (cells_of s g))) groups"

section \<open>Groups and peers\<close>

lemma distinct_filter_map_iff:
  assumes "distinct xs"
  shows "distinct (filter P (map f xs)) \<longleftrightarrow>
    (\<forall>p \<in> set xs. \<forall>q \<in> set xs. p \<noteq> q \<and> P (f p) \<longrightarrow> f p \<noteq> f q)"
  using assms
proof (induction xs)
  case Nil
  show ?case by simp
next
  case (Cons x xs)
  then show ?case
    by (auto simp: image_iff)
qed

lemma peer_refl [simp]: "peer x y x y"
  by (simp add: peer_def)

lemma peer_sym: "peer x y x' y' \<longleftrightarrow> peer x' y' x y"
  by (auto simp: peer_def)

lemma groups_cases:
  assumes "g \<in> set groups"
  obtains i where "i < 9" "g = row_cells i"
  | i where "i < 9" "g = column_cells i"
  | i where "i < 9" "g = block_cells i"
  using assms unfolding groups_def by auto

lemma row_cells_group: "y < 9 \<Longrightarrow> row_cells y \<in> set groups"
  by (simp add: groups_def)

lemma column_cells_group: "x < 9 \<Longrightarrow> column_cells x \<in> set groups"
  by (simp add: groups_def)

lemma block_cells_group: "i < 9 \<Longrightarrow> block_cells i \<in> set groups"
  by (simp add: groups_def)

lemma in_own_block: "x < 9 \<Longrightarrow> y < 9 \<Longrightarrow> (x, y) \<in> set (block_cells (block_of x y))"
  by (simp add: in_block_cells_same_block)

lemma peer_iff_group:
  assumes "x < 9" "y < 9" "x' < 9" "y' < 9"
  shows "peer x y x' y' \<longleftrightarrow> (\<exists>g \<in> set groups. (x, y) \<in> set g \<and> (x', y') \<in> set g)"
proof
  assume "peer x y x' y'"
  then consider "y' = y" | "x' = x" | "x' div 3 = x div 3" "y' div 3 = y div 3"
    unfolding peer_def by blast
  then show "\<exists>g \<in> set groups. (x, y) \<in> set g \<and> (x', y') \<in> set g"
  proof cases
    case 1
    with assms show ?thesis
      by (intro bexI [OF _ row_cells_group [of y]]) simp_all
  next
    case 2
    with assms show ?thesis
      by (intro bexI [OF _ column_cells_group [of x]]) simp_all
  next
    case 3
    with assms show ?thesis
      by (intro bexI [OF _ block_cells_group [OF block_of_less [of x y]]])
        (simp_all add: in_block_cells_same_block)
  qed
next
  assume "\<exists>g \<in> set groups. (x, y) \<in> set g \<and> (x', y') \<in> set g"
  then obtain g where g: "g \<in> set groups" and m: "(x, y) \<in> set g" "(x', y') \<in> set g"
    by blast
  from g show "peer x y x' y'"
  proof (cases rule: groups_cases)
    case (1 i)
    with m show ?thesis by (simp add: peer_def)
  next
    case (2 i)
    with m show ?thesis by (simp add: peer_def)
  next
    case (3 i)
    with m show ?thesis by (simp add: peer_def in_block_cells_div)
  qed
qed

lemma group_on_board: "g \<in> set groups \<Longrightarrow> (x, y) \<in> set g \<Longrightarrow> x < 9 \<and> y < 9"
  by (erule groups_cases) (auto dest: block_cells_bound)

lemma distinct_group: "g \<in> set groups \<Longrightarrow> distinct g"
  by (erule groups_cases) simp_all

lemma length_group: "g \<in> set groups \<Longrightarrow> length g = 9"
  by (erule groups_cases) simp_all

lemma distinct_group_values:
  assumes "g \<in> set groups"
  shows "distinct (filter (\<lambda>v. v \<noteq> 0) (cells_of s g)) \<longleftrightarrow>
    (\<forall>p \<in> set g. \<forall>q \<in> set g.
       p \<noteq> q \<and> cell s (fst p) (snd p) \<noteq> 0 \<longrightarrow> cell s (fst p) (snd p) \<noteq> cell s (fst q) (snd q))"
  unfolding cells_of_def distinct_filter_map_iff [OF distinct_group [OF assms]]
  by (simp add: case_prod_unfold)

section \<open>The rules as a relation between peers\<close>

lemma rules_okD:
  assumes ok: "rules_ok s" and b: "x < 9" "y < 9" "x' < 9" "y' < 9"
    and p: "peer x y x' y'" "(x, y) \<noteq> (x', y')" "cell s x y \<noteq> 0"
  shows "cell s x y \<noteq> cell s x' y'"
proof -
  from p(1) peer_iff_group [OF b] obtain g
    where g: "g \<in> set groups" and m: "(x, y) \<in> set g" "(x', y') \<in> set g"
    by blast
  from ok g have "distinct (filter (\<lambda>v. v \<noteq> 0) (cells_of s g))"
    by (simp add: rules_ok_def list_all_iff)
  then have "\<forall>p \<in> set g. \<forall>q \<in> set g.
     p \<noteq> q \<and> cell s (fst p) (snd p) \<noteq> 0 \<longrightarrow> cell s (fst p) (snd p) \<noteq> cell s (fst q) (snd q)"
    by (simp only: distinct_group_values [OF g])
  from this [rule_format, OF m] p show ?thesis
    by simp
qed

lemma rules_okI:
  assumes r: "\<And>x y x' y'. x < 9 \<Longrightarrow> y < 9 \<Longrightarrow> x' < 9 \<Longrightarrow> y' < 9 \<Longrightarrow> peer x y x' y' \<Longrightarrow>
    (x, y) \<noteq> (x', y') \<Longrightarrow> cell s x y \<noteq> 0 \<Longrightarrow> cell s x y \<noteq> cell s x' y'"
  shows "rules_ok s"
proof -
  have "distinct (filter (\<lambda>v. v \<noteq> 0) (cells_of s g))" if g: "g \<in> set groups" for g
    unfolding distinct_group_values [OF g]
  proof (intro ballI impI)
    fix p q
    assume pq: "p \<in> set g" "q \<in> set g"
      and *: "p \<noteq> q \<and> cell s (fst p) (snd p) \<noteq> 0"
    from pq g have b: "fst p < 9" "snd p < 9" "fst q < 9" "snd q < 9"
      using group_on_board [of g "fst p" "snd p"] group_on_board [of g "fst q" "snd q"]
      by simp_all
    from pq g have "peer (fst p) (snd p) (fst q) (snd q)"
      unfolding peer_iff_group [OF b] by auto
    with * r [OF b] show "cell s (fst p) (snd p) \<noteq> cell s (fst q) (snd q)"
      by (simp add: prod_eq_iff)
  qed
  then show ?thesis
    by (simp add: rules_ok_def list_all_iff)
qed

lemma rules_ok_iff:
  "rules_ok s \<longleftrightarrow>
    (\<forall>x < 9. \<forall>y < 9. \<forall>x' < 9. \<forall>y' < 9.
       peer x y x' y' \<and> (x, y) \<noteq> (x', y') \<and> cell s x y \<noteq> 0 \<longrightarrow> cell s x y \<noteq> cell s x' y')"
  (is "_ \<longleftrightarrow> ?R")
proof
  assume "rules_ok s"
  then show ?R
    using rules_okD [of s] by (intro allI impI) simp
next
  assume r: ?R
  show "rules_ok s"
    by (rule rules_okI) (rule r [rule_format], simp_all)
qed

lemma rules_ok_updD:
  assumes wf: "wf_board s" and b: "x < 9" "y < 9" and v: "v \<noteq> 0"
    and ok: "rules_ok (s\<lparr>grid := upd_at (grid s) y x v\<rparr>)"
    and b': "x' < 9" "y' < 9" and p: "peer x y x' y'" "(x, y) \<noteq> (x', y')"
  shows "cell s x' y' \<noteq> v"
  using rules_okD [OF ok b b' p] p(2) v by (auto simp: cell_upd_at [OF wf b] split: if_splits)

lemma rules_ok_updI:
  assumes wf: "wf_board s" and ok: "rules_ok s" and b: "x < 9" "y < 9"
    and r: "\<And>x' y'. x' < 9 \<Longrightarrow> y' < 9 \<Longrightarrow> peer x y x' y' \<Longrightarrow> (x, y) \<noteq> (x', y') \<Longrightarrow> cell s x' y' \<noteq> v"
  shows "rules_ok (s\<lparr>grid := upd_at (grid s) y x v\<rparr>)"
proof (rule rules_okI)
  fix x1 y1 x2 y2
  assume b1: "x1 < 9" "y1 < 9" and b2: "x2 < 9" "y2 < 9"
    and p: "peer x1 y1 x2 y2" "(x1, y1) \<noteq> (x2, y2)"
    and nz: "cell (s\<lparr>grid := upd_at (grid s) y x v\<rparr>) x1 y1 \<noteq> 0"
  note c = cell_upd_at [OF wf b]
  consider "(x1, y1) = (x, y)" | "(x2, y2) = (x, y)" | "(x1, y1) \<noteq> (x, y)" "(x2, y2) \<noteq> (x, y)"
    by blast
  then show "cell (s\<lparr>grid := upd_at (grid s) y x v\<rparr>) x1 y1 \<noteq>
      cell (s\<lparr>grid := upd_at (grid s) y x v\<rparr>) x2 y2"
  proof cases
    case 1
    with p r [OF b2] show ?thesis
      by (auto simp: c)
  next
    case 2
    with p nz r [OF b1] show ?thesis
      by (auto simp: c peer_sym [of x y])
  next
    case 3
    with p nz rules_okD [OF ok b1 b2] show ?thesis
      by (auto simp: c)
  qed
qed

lemma rules_ok_upd_iff:
  assumes wf: "wf_board s" and ok: "rules_ok s" and b: "x < 9" "y < 9"
    and empty: "cell s x y = 0" and v: "v \<noteq> 0"
  shows "rules_ok (s\<lparr>grid := upd_at (grid s) y x v\<rparr>) \<longleftrightarrow>
    (\<forall>x' < 9. \<forall>y' < 9. peer x y x' y' \<and> (x', y') \<noteq> (x, y) \<longrightarrow> cell s x' y' \<noteq> v)"
  using rules_ok_updD [OF wf b v] rules_ok_updI [OF wf ok b, of v] by blast

lemmas rules_eval =
  rules_ok_def groups_def cells_of_def row_cells_def column_cells_def block_cells_def
  cell_def init_def upt_rec

lemma rules_ok_sample_board: "rules_ok sample_board"
  by (simp add: rules_eval board_examples)

lemma rules_ok_solved_board: "rules_ok solved_board"
  by (simp add: rules_eval board_examples)

section \<open>The rules and the queries\<close>

text \<open>
  C6. One step of a solver is sound and complete. On a 9 by 9 board that obeys the
  rules, writing a digit \<open>v\<close> of 1..9 into an empty cell with \<^verbatim>\<open>place\<close> gives a
  board that obeys the rules exactly when \<open>v\<close> is one of the values \<^verbatim>\<open>options_at\<close>
  returned for that cell.
\<close>

theorem option_keeps_rules:
  assumes wf: "wf_board s" and ok: "rules_ok s" and b: "x < 9" "y < 9"
    and empty: "value_at s (int x) (int y) = Inr 0"
    and opts: "options_at s (int x) (int y) = Inr opts"
    and placed: "place s v (int x) (int y) = Inr s'"
    and v: "1 \<le> v" "v \<le> 9"
  shows "rules_ok s' \<longleftrightarrow> v \<in> opts"
proof -
  from wf b empty have e: "cell s x y = 0"
    by simp
  from wf b placed have s': "s' = s\<lparr>grid := upd_at (grid s) y x v\<rparr>"
    by (simp add: wf_place_nat)
  from wf b opts have o: "opts = candidates s x y"
    by (simp add: wf_options_at_nat)
  from e v have "cell s x y \<noteq> v"
    by simp
  then have "v \<in> candidates s x y \<longleftrightarrow>
      (\<forall>x' < 9. \<forall>y' < 9. peer x y x' y' \<and> (x', y') \<noteq> (x, y) \<longrightarrow> cell s x' y' \<noteq> v)"
    unfolding candidates_iff [OF b] using v by blast
  moreover from v have "v \<noteq> 0"
    by simp
  ultimately show ?thesis
    unfolding s' o using rules_ok_upd_iff [OF wf ok b e] by simp
qed

theorem option_keeps_rules_witness:
  "options_at sample_board 2 0 = Inr {4, 2, 1} \<and> place sample_board 4 2 0 = Inr sample_placed \<and>
   rules_ok sample_placed"
proof -
  have e: "options_at sample_board (int 2) (int 0) = Inr {4, 2, 1}"
    and p: "place sample_board 4 (int 2) (int 0) = Inr sample_placed"
    and v: "value_at sample_board (int 2) (int 0) = Inr 0"
    by (simp_all add: board_examples board_defs py_eval)
  from option_keeps_rules [OF wf_sample_board rules_ok_sample_board _ _ v e p] e p
  show ?thesis
    by simp
qed

lemma nine_digits:
  assumes "distinct vs" "length vs = 9" "\<forall>v \<in> set vs. 1 \<le> v \<and> v \<le> (9::int)"
  shows "mset vs = mset [1..9]"
proof -
  from assms(1,2) have "card (set vs) = card {1..9::int}"
    by (simp add: distinct_card)
  moreover from assms(3) have "set vs \<subseteq> {1..9}"
    by auto
  ultimately have "set vs = set [1..9]"
    by (simp add: card_subset_eq)
  with assms(1) show ?thesis
    by (simp add: set_eq_iff_mset_eq_distinct [symmetric])
qed

lemma solved_group:
  assumes wf: "wf_board s" and d: "digits_ok s" and ok: "rules_ok s" and solved: "is_solved s"
    and g: "g \<in> set groups"
  shows "mset (cells_of s g) = mset [1..9]"
proof (rule nine_digits)
  have v: "1 \<le> cell s x y \<and> cell s x y \<le> 9" if "(x, y) \<in> set g" for x y
  proof -
    from group_on_board [OF g that] have b: "x < 9" "y < 9"
      by simp_all
    with solved have "cell s x y \<noteq> 0"
      by (simp add: wf_is_solved [OF wf])
    with digits_ok_cell [OF wf d b] show ?thesis
      by (simp add: is_digit_def)
  qed
  then show "\<forall>v \<in> set (cells_of s g). 1 \<le> v \<and> v \<le> 9"
    by (auto simp: set_cells_of)
  from v have "filter (\<lambda>v. v \<noteq> 0) (cells_of s g) = cells_of s g"
    by (force simp: filter_id_conv set_cells_of)
  with ok g show "distinct (cells_of s g)"
    by (auto simp: rules_ok_def list_all_iff)
  from g show "length (cells_of s g) = 9"
    by (simp add: cells_of_def length_group)
qed

text \<open>
  C28. What a solved board is. On a 9 by 9 board of digits that obeys the rules and on
  which \<^verbatim>\<open>is_solved\<close> holds, every row, every column and every block, as
  \<^verbatim>\<open>row_values\<close>, \<^verbatim>\<open>column_values\<close> and \<^verbatim>\<open>block_values\<close> return them, holds each
  digit of 1..9 exactly once.
\<close>

theorem solved_groups_complete:
  assumes "wf_board s" "digits_ok s" "rules_ok s" "is_solved s" "i < 9"
  shows "map_sum id mset (row_values s (int i)) = Inr (mset [1..9]) \<and>
         map_sum id mset (column_values s (int i)) = Inr (mset [1..9]) \<and>
         map_sum id mset (block_values s (int i)) = Inr (mset [1..9])"
  using assms
  by (simp add: wf_row_values_nat wf_column_values_nat wf_block_values_nat solved_group
      row_cells_group column_cells_group block_cells_group)

theorem solved_groups_complete_witness:
  "is_solved solved_board \<and> rules_ok solved_board \<and>
   map_sum id mset (block_values solved_board 4) = Inr (mset [1..9])"
proof -
  have "wf_board solved_board" "digits_ok solved_board" "is_solved solved_board"
    by (simp_all add: board_examples board_defs wf_board_def wf_grid_def digits_ok_def is_digit_def)
  with solved_groups_complete [of solved_board 4] rules_ok_solved_board show ?thesis
    by simp
qed

lemma peers_upd_iff:
  assumes b: "x < (9::nat)" "y < (9::nat)" and nz: "c x y \<noteq> (w::int)"
  shows "(\<forall>a < 9. \<forall>b < 9. p a b \<longrightarrow> (if a = x \<and> b = y then v else c a b) \<noteq> w) \<longleftrightarrow>
         (\<forall>a < 9. \<forall>b < 9. p a b \<longrightarrow> c a b \<noteq> w) \<and> (p x y \<longrightarrow> w \<noteq> v)"
  (is "?L \<longleftrightarrow> ?R")
proof
  assume l: ?L
  have "c a b \<noteq> w" if "a < 9" "b < 9" "p a b" for a b
    using l [rule_format, OF that] nz by (cases "a = x \<and> b = y") auto
  moreover have "w \<noteq> v" if "p x y"
    using l [rule_format, OF b that] by auto
  ultimately show ?R
    by blast
next
  assume r: ?R
  show ?L
  proof (intro allI impI)
    fix a b
    assume "a < 9" "b < 9" "p a b"
    with r show "(if a = x \<and> b = y then v else c a b) \<noteq> w"
      by (cases "a = x \<and> b = y") auto
  qed
qed

lemma candidates_upd:
  assumes wf: "wf_board s" and b: "x < 9" "y < 9" and b': "x' < 9" "y' < 9"
    and e: "cell s x y = 0"
  shows "candidates (s\<lparr>grid := upd_at (grid s) y x v\<rparr>) x' y' =
    (if peer x' y' x y then candidates s x' y' - {v} else candidates s x' y')"
proof -
  have c: "cell (s\<lparr>grid := upd_at (grid s) y x v\<rparr>) a b = (if a = x \<and> b = y then v else cell s a b)"
    for a b
    using wf b by (rule cell_upd_at)
  have "w \<in> candidates (s\<lparr>grid := upd_at (grid s) y x v\<rparr>) x' y' \<longleftrightarrow>
      w \<in> candidates s x' y' \<and> (peer x' y' x y \<longrightarrow> w \<noteq> v)" for w
  proof (cases "1 \<le> w")
    case True
    with e have "cell s x y \<noteq> w"
      by simp
    with b show ?thesis
      unfolding candidates_iff [OF b'] c
      using peers_upd_iff [of x y "cell s" w "peer x' y'" v] by blast
  qed (simp add: candidates_iff [OF b'])
  then show ?thesis
    by auto
qed

text \<open>
  C27. Placing a digit narrows the options of its peers and of no other cell. After
  \<^verbatim>\<open>place(v, x, y)\<close> on an empty cell of a 9 by 9 board, \<^verbatim>\<open>options_at(x', y')\<close>
  returns what it returned before without \<open>v\<close> when \<open>(x', y')\<close> shares a row, a column
  or a block with \<open>(x, y)\<close>, and exactly what it returned before otherwise.
\<close>

theorem place_narrows_options:
  assumes wf: "wf_board s" and b: "x < 9" "y < 9" and b': "x' < 9" "y' < 9"
    and empty: "value_at s (int x) (int y) = Inr 0"
    and placed: "place s v (int x) (int y) = Inr s'"
    and opts: "options_at s (int x') (int y') = Inr opts"
  shows "options_at s' (int x') (int y') = Inr (if peer x' y' x y then opts - {v} else opts)"
proof -
  from wf b empty have e: "cell s x y = 0"
    by simp
  from wf b placed have s': "s' = s\<lparr>grid := upd_at (grid s) y x v\<rparr>"
    by (simp add: wf_place_nat)
  with wf have "wf_board s'"
    by (simp add: wf_board_def)
  with b' have "options_at s' (int x') (int y') = Inr (candidates s' x' y')"
    by (simp add: wf_options_at_nat)
  moreover from wf b' opts have "opts = candidates s x' y'"
    by (simp add: wf_options_at_nat)
  ultimately show ?thesis
    unfolding s' using candidates_upd [OF wf b b' e] by simp
qed

theorem place_narrows_options_witness:
  "options_at sample_board 8 0 = Inr {8, 4, 2} \<and> peer 8 0 2 0 \<and>
   options_at sample_placed 8 0 = Inr {8, 2} \<and>
   options_at sample_board 8 8 = Inr {4} \<and> \<not> peer 8 8 2 0 \<and>
   options_at sample_placed 8 8 = Inr {4}"
proof -
  have v: "value_at sample_board (int 2) (int 0) = Inr 0"
    and p: "place sample_board 4 (int 2) (int 0) = Inr sample_placed"
    and o: "options_at sample_board (int 8) (int 0) = Inr {8, 4, 2}"
      "options_at sample_board (int 8) (int 8) = Inr {4}"
    by (simp_all add: board_examples board_defs py_eval)
  have "{8, 4, 2} - {4} = {8, 2::int}"
    by auto
  with place_narrows_options [OF wf_sample_board _ _ _ _ v p o(1)]
    place_narrows_options [OF wf_sample_board _ _ _ _ v p o(2)] o
  show ?thesis
    by (simp add: peer_def)
qed

end
