(* ===== verification/Solver.thy ===== *)
theory Solver
  imports Sudoku_Rules Board_Ops
begin

text \<open>
  The caller the board is written for: a backtracking search that finds the next
  empty cell with \<^verbatim>\<open>next_empty_index\<close>, tries the values \<^verbatim>\<open>options_at\<close> offers for it
  in ascending order, commits one with \<^verbatim>\<open>place\<close>, recurses, and withdraws it with
  \<^verbatim>\<open>unplace\<close> when the recursion fails. The solver is not part of the source; it
  is written here from the consumer contract of the specification, over the
  methods of \<open>Board\<close> and \<open>Board_Queries\<close>, to state what these methods are for.

  \<open>solve n\<close> searches to a depth of at most \<open>n\<close> placements and returns \<open>None\<close> when
  that depth is not enough. Every level of the recursion fills one empty cell, so a
  depth above the number of empty cells, and 82 on every board, is enough
  (\<open>solve_enough\<close>), and more depth returns the same result (\<open>solve_mono\<close>).

  The theory shows that the search raises nothing and restores the board it fails on
  (\<open>solve_restores\<close>), that a success is a solution (\<open>solve_valid\<close>), that a failure
  means there is none (\<open>solve_fails\<close>), and so that the search finds a solution
  whenever one exists (\<open>solve_success\<close>).
\<close>

section \<open>The search\<close>

type_synonym outcome = "(bool \<times> sudoku) result option"

definition option_list :: "int set \<Rightarrow> int list" where
  "option_list opts = filter (\<lambda>v. v \<in> opts) (py_range 1 10)"

fun try_each :: "(sudoku \<Rightarrow> outcome) \<Rightarrow> sudoku \<Rightarrow> int \<Rightarrow> int \<Rightarrow> int list \<Rightarrow> outcome" where
  "try_each rec s x y [] = Some (Inr (False, s))"
| "try_each rec s x y (v # vs) =
     (case place s v x y of
        Inl e \<Rightarrow> Some (Inl e)
      | Inr s1 \<Rightarrow>
          (case rec s1 of
             None \<Rightarrow> None
           | Some (Inl e) \<Rightarrow> Some (Inl e)
           | Some (Inr (found, s2)) \<Rightarrow>
               if found then Some (Inr (True, s2))
               else (case unplace s2 x y of
                       Inl e \<Rightarrow> Some (Inl e)
                     | Inr s3 \<Rightarrow> try_each rec s3 x y vs)))"

primrec solve :: "nat \<Rightarrow> sudoku \<Rightarrow> outcome" where
  "solve 0 s = None"
| "solve (Suc n) s =
     (if is_solved s then Some (Inr (True, s))
      else case next_empty_index s of
             Inl e \<Rightarrow> Some (Inl e)
           | Inr (x, y) \<Rightarrow>
               (case options_at s x y of
                  Inl e \<Rightarrow> Some (Inl e)
                | Inr opts \<Rightarrow> try_each (solve n) s x y (option_list opts)))"

section \<open>Reference\<close>

definition empties :: "sudoku \<Rightarrow> nat" where
  "empties s = length (filter (\<lambda>p. cell s (fst p) (snd p) = 0) row_major)"

definition extends :: "sudoku \<Rightarrow> sudoku \<Rightarrow> bool" where
  "extends s t \<longleftrightarrow> list_all (\<lambda>p. cell s (fst p) (snd p) = 0 \<or> cell t (fst p) (snd p) = cell s (fst p) (snd p)) row_major"

definition solution :: "sudoku \<Rightarrow> sudoku \<Rightarrow> bool" where
  "solution s t \<longleftrightarrow> wf_board t \<and> digits_ok t \<and> rules_ok t \<and> is_solved t \<and> extends s t"

definition tiny_board :: sudoku where
  "tiny_board = init
    [[0, 0, 4, 6, 7, 8, 9, 1, 2],
     [6, 7, 2, 1, 9, 5, 3, 4, 8],
     [1, 9, 8, 3, 4, 2, 5, 6, 7],
     [8, 5, 9, 7, 6, 1, 4, 2, 3],
     [4, 2, 6, 8, 5, 3, 7, 9, 1],
     [7, 1, 3, 9, 2, 4, 8, 5, 6],
     [9, 6, 1, 5, 3, 7, 2, 8, 4],
     [2, 8, 7, 4, 1, 9, 6, 3, 5],
     [0, 4, 5, 2, 8, 6, 1, 7, 9]]"

definition stuck_board :: sudoku where
  "stuck_board = init
    [[0, 0, 2, 3, 4, 5, 6, 7, 8],
     [1, 0, 0, 0, 0, 0, 0, 0, 0],
     [0, 0, 0, 0, 0, 0, 0, 0, 0],
     [0, 0, 0, 0, 0, 0, 0, 0, 0],
     [0, 0, 0, 0, 0, 0, 0, 0, 0],
     [0, 0, 0, 0, 0, 0, 0, 0, 0],
     [0, 0, 0, 0, 0, 0, 0, 0, 0],
     [0, 0, 0, 0, 0, 0, 0, 0, 0],
     [0, 0, 0, 0, 0, 0, 0, 0, 0]]"

definition valid :: "sudoku \<Rightarrow> bool" where
  "valid s \<longleftrightarrow> wf_board s \<and> digits_ok s \<and> rules_ok s"

definition restores :: "sudoku \<Rightarrow> (bool \<times> sudoku) result \<Rightarrow> bool" where
  "restores s r \<longleftrightarrow>
     (case r of
        Inl e \<Rightarrow> False
      | Inr (found, s') \<Rightarrow> wf_board s' \<and> (if found then is_solved s' \<and> extends s s' else s' = s))"

lemmas solve_eval = eval_nat_numeral option_list_def try_each.simps solve.simps

declare try_each.simps(2) [simp del] solve.simps(2) [simp del]

section \<open>One level of the search\<close>

lemma solve_tiny: "solve 4 tiny_board = Some (Inr (True, solved_board))"
  by (simp add: solve_eval tiny_board_def board_examples board_defs py_eval)

lemma extends_iff:
  "extends s t \<longleftrightarrow> (\<forall>x < 9. \<forall>y < 9. cell s x y \<noteq> 0 \<longrightarrow> cell t x y = cell s x y)"
  by (auto simp: extends_def list_all_iff)

lemma extends_refl [simp]: "extends s s"
  by (simp add: extends_iff)

lemma extends_trans: "extends s t \<Longrightarrow> extends t u \<Longrightarrow> extends s u"
  by (simp add: extends_iff)

lemma extends_put_cell:
  "wf_board s \<Longrightarrow> x < 9 \<Longrightarrow> y < 9 \<Longrightarrow> cell s x y = 0 \<Longrightarrow> extends s (put_cell s x y v)"
  by (simp add: extends_iff cell_put_cell)

lemma restores_Inr:
  "restores s (Inr (found, s')) \<longleftrightarrow>
     wf_board s' \<and> (if found then is_solved s' \<and> extends s s' else s' = s)"
  by (simp add: restores_def)

lemma restores_cases:
  assumes "restores s r"
  obtains s' where "r = Inr (True, s')" "wf_board s'" "is_solved s'" "extends s s'"
    | "r = Inr (False, s)" "wf_board s"
  using assms by (cases r) (auto simp: restores_def split: if_splits)

lemma unsolved_first_empty:
  assumes "wf_board s" "\<not> is_solved s"
  obtains x y where "x < 9" "y < 9" "cell s x y = 0" "first_empty s = Some (x, y)"
proof -
  from assms obtain p where "first_empty s = Some p"
    by (auto simp: wf_is_solved_find first_empty_def)
  then show ?thesis
    using that [of "fst p" "snd p"] by (cases p) (simp add: first_empty_Some)
qed

lemma solve_Suc_unsolved:
  assumes "wf_board s" "first_empty s = Some (x, y)"
  shows "solve (Suc n) s =
    try_each (solve n) s (int x) (int y) (option_list (candidates s x y))"
proof -
  from assms(2) have b: "x < 9" "y < 9" and "\<not> is_solved s"
    using assms(1) by (auto simp: first_empty_Some wf_is_solved)
  with assms show ?thesis
    by (simp add: solve.simps wf_next_empty_index first_empty_def [symmetric] wf_options_at_nat)
qed

lemma try_each_Cons_restored:
  assumes "wf_board s" "x < 9" "y < 9" "cell s x y = 0"
    and "rec (put_cell s x y v) = Some r" "restores (put_cell s x y v) r"
  shows "try_each rec s (int x) (int y) (v # vs) =
    (case r of Inr (True, s') \<Rightarrow> Some r | _ \<Rightarrow> try_each rec s (int x) (int y) vs)"
  using assms(6)
proof (cases rule: restores_cases)
  case (1 s')
  with assms show ?thesis
    by (simp add: try_each.simps wf_place_int)
next
  case 2
  with assms show ?thesis
    by (simp add: try_each.simps wf_place_int unplace_eq_place put_cell_zero)
qed

lemma try_each_Cons_None:
  assumes "wf_board s" "x < 9" "y < 9" "rec (put_cell s x y v) = None"
  shows "try_each rec s (int x) (int y) (v # vs) = None"
  using assms by (simp add: try_each.simps wf_place_int)

section \<open>The search restores or solves\<close>

lemma try_each_restores:
  assumes rec: "\<And>s1 r. wf_board s1 \<Longrightarrow> rec s1 = Some r \<Longrightarrow> restores s1 r"
    and wf: "wf_board s" "x < 9" "y < 9" "cell s x y = 0"
    and "try_each rec s (int x) (int y) vs = Some r"
  shows "restores s r"
  using assms(6)
proof (induction vs)
  case Nil
  with wf show ?case
    by (auto simp: restores_Inr)
next
  case (Cons v vs)
  show ?case
  proof (cases "rec (put_cell s x y v)")
    case None
    with Cons.prems wf show ?thesis
      by (simp add: try_each_Cons_None)
  next
    case (Some r1)
    with rec [of "put_cell s x y v" r1] wf have r1: "restores (put_cell s x y v) r1"
      by simp
    have step: "try_each rec s (int x) (int y) (v # vs) =
        (case r1 of Inr (True, s') \<Rightarrow> Some r1 | _ \<Rightarrow> try_each rec s (int x) (int y) vs)"
      using wf Some r1 by (rule try_each_Cons_restored)
    from r1 Cons step show ?thesis
      by (cases rule: restores_cases)
        (auto simp: restores_Inr intro: extends_trans [OF extends_put_cell [OF wf]])
  qed
qed

lemma solve_restores: "wf_board s \<Longrightarrow> solve n s = Some r \<Longrightarrow> restores s r"
proof (induction n arbitrary: s r)
  case (Suc n)
  show ?case
  proof (cases "is_solved s")
    case True
    with Suc.prems show ?thesis
      by (auto simp: solve.simps restores_Inr)
  next
    case False
    with Suc.prems(1) obtain x y where xy: "x < 9" "y < 9" "cell s x y = 0" "first_empty s = Some (x, y)"
      by (rule unsolved_first_empty)
    from Suc.prems show ?thesis
      unfolding solve_Suc_unsolved [OF Suc.prems(1) xy(4)]
      by (intro try_each_restores [OF Suc.IH _ xy(1-3)]) auto
  qed
qed simp

section \<open>The search as the first option that does not fail\<close>

lemma try_each_solve:
  assumes wf: "wf_board s" "x < 9" "y < 9" "cell s x y = 0"
  shows "try_each (solve n) s (int x) (int y) vs =
    (case find (\<lambda>v. solve n (put_cell s x y v) \<noteq> Some (Inr (False, put_cell s x y v))) vs of
       None \<Rightarrow> Some (Inr (False, s))
     | Some v \<Rightarrow> solve n (put_cell s x y v))"
proof (induction vs)
  case (Cons v vs)
  show ?case
  proof (cases "solve n (put_cell s x y v)")
    case None
    with wf show ?thesis
      by (simp add: try_each_Cons_None)
  next
    case (Some r1)
    with wf have r1: "restores (put_cell s x y v) r1"
      by (intro solve_restores [of _ n]) simp_all
    have "try_each (solve n) s (int x) (int y) (v # vs) =
        (case r1 of Inr (True, s') \<Rightarrow> Some r1 | _ \<Rightarrow> try_each (solve n) s (int x) (int y) vs)"
      using wf Some r1 by (rule try_each_Cons_restored)
    with r1 Some Cons show ?thesis
      by (cases rule: restores_cases) simp_all
  qed
qed simp

lemma solve_Suc_find:
  assumes "wf_board s" "first_empty s = Some (x, y)"
  shows "solve (Suc n) s =
    (case find (\<lambda>v. solve n (put_cell s x y v) \<noteq> Some (Inr (False, put_cell s x y v)))
            (option_list (candidates s x y)) of
       None \<Rightarrow> Some (Inr (False, s))
     | Some v \<Rightarrow> solve n (put_cell s x y v))"
  using assms by (simp add: solve_Suc_unsolved try_each_solve first_empty_Some)

lemma set_option_list: "set (option_list (candidates s x y)) = candidates s x y"
  by (auto simp: option_list_def candidates_def)

section \<open>Placing an option\<close>

lemma valid_put_option:
  assumes "valid s" "x < 9" "y < 9" "cell s x y = 0" "v \<in> candidates s x y"
  shows "valid (put_cell s x y v)"
proof -
  from assms(2,3,5) have v: "1 \<le> v" "v \<le> 9"
      and p: "\<forall>x' < 9. \<forall>y' < 9. peer x y x' y' \<and> (x', y') \<noteq> (x, y) \<longrightarrow> cell s x' y' \<noteq> v"
    by (simp_all add: candidates_iff)
  from v assms(1,2,3,4) p have "rules_ok (put_cell s x y v)"
    unfolding put_cell_def valid_def by (subst rules_ok_upd_iff) simp_all
  with v assms(1) show ?thesis
    by (simp add: valid_def digits_ok_put_cell is_digit_def)
qed

lemma empties_card: "empties s = card {p \<in> set row_major. cell s (fst p) (snd p) = 0}"
  unfolding empties_def by (simp add: distinct_length_filter Int_def conj_commute)

lemma empties_put_cell:
  assumes "wf_board s" "x < 9" "y < 9" "cell s x y = 0" "v \<noteq> 0"
  shows "empties (put_cell s x y v) < empties s"
proof -
  let ?A = "{p \<in> set row_major. cell s (fst p) (snd p) = 0}"
  have "{p \<in> set row_major. cell (put_cell s x y v) (fst p) (snd p) = 0} = ?A - {(x, y)}"
    using assms by (auto simp: cell_put_cell)
  moreover have "(x, y) \<in> ?A" "finite ?A"
    using assms by simp_all
  ultimately show ?thesis
    unfolding empties_card by (simp only: card_Diff1_less)
qed

lemma candidates_nonzero: "v \<in> candidates s x y \<Longrightarrow> 1 \<le> v \<and> v \<le> 9"
  by (simp add: candidates_def)

lemma solution_cell:
  assumes sol: "solution s t" and b: "x < 9" "y < 9" and e: "cell s x y = 0" and wf: "wf_board s"
  shows "cell t x y \<in> candidates s x y" "solution (put_cell s x y (cell t x y)) t"
proof -
  from sol have t: "wf_board t" "digits_ok t" "rules_ok t" "is_solved t"
      and ext: "\<And>x' y'. x' < 9 \<Longrightarrow> y' < 9 \<Longrightarrow> cell s x' y' \<noteq> 0 \<Longrightarrow> cell t x' y' = cell s x' y'"
    by (simp_all add: solution_def extends_iff)
  from t b have nz: "cell t x y \<noteq> 0"
    by (simp add: wf_is_solved)
  with digits_ok_cell [OF t(1,2) b] have v: "1 \<le> cell t x y" "cell t x y \<le> 9"
    by (simp_all add: is_digit_def)
  have "cell s x' y' \<noteq> cell t x y" if "x' < 9" "y' < 9" "peer x y x' y'" for x' y'
  proof (cases "cell s x' y' = 0")
    case False
    with e have "(x, y) \<noteq> (x', y')"
      by auto
    from rules_okD [OF t(3) b that(1,2,3) this nz] ext [OF that(1,2) False] show ?thesis
      by simp
  qed (use nz in simp)
  with v b show "cell t x y \<in> candidates s x y"
    by (simp add: candidates_iff)
  from ext wf b show "solution (put_cell s x y (cell t x y)) t"
    using t by (auto simp: solution_def extends_iff cell_put_cell)
qed

section \<open>Properties of the search\<close>

lemma solve_valid: "valid s \<Longrightarrow> solve n s = Some (Inr (True, s')) \<Longrightarrow> valid s'"
proof (induction n arbitrary: s)
  case (Suc n)
  show ?case
  proof (cases "is_solved s")
    case True
    with Suc.prems show ?thesis
      by (simp add: solve.simps)
  next
    case False
    from Suc.prems(1) have wf: "wf_board s"
      by (simp add: valid_def)
    from wf False obtain x y where xy: "x < 9" "y < 9" "cell s x y = 0" "first_empty s = Some (x, y)"
      by (rule unsolved_first_empty)
    from Suc.prems(2) obtain v where "v \<in> candidates s x y"
        "solve n (put_cell s x y v) = Some (Inr (True, s'))"
      unfolding solve_Suc_find [OF wf xy(4)]
      by (auto split: option.splits dest!: find_Some_set simp: set_option_list)
    with Suc.IH [of "put_cell s x y v"] valid_put_option [OF Suc.prems(1) xy(1-3)] show ?thesis
      by simp
  qed
qed simp

lemma valid_examples: "valid tiny_board" "valid stuck_board"
  by (simp_all add: valid_def tiny_board_def stuck_board_def wf_board_def wf_grid_def
      digits_ok_def is_digit_def rules_eval)

text \<open>
  C14. The search is sound. Started on a 9 by 9 board of digits that obeys the rules,
  a search that reports success leaves a solution of the board it started from: a
  9 by 9 board of digits without empty cells that obeys the rules and agrees with
  the initial board on every cell that was filled.
\<close>

theorem solve_sound:
  assumes "valid s" "solve n s = Some (Inr (True, s'))"
  shows "solution s s'"
proof -
  from assms(1) have "wf_board s"
    by (simp add: valid_def)
  from solve_restores [OF this assms(2)] solve_valid [OF assms] show ?thesis
    by (simp add: restores_Inr solution_def valid_def)
qed

theorem solve_sound_witness:
  "valid tiny_board \<and> solve 4 tiny_board = Some (Inr (True, solved_board)) \<and>
   solution tiny_board solved_board"
  using solve_sound [OF valid_examples(1) solve_tiny] valid_examples(1) solve_tiny by simp

lemma solve_stuck: "solve 3 stuck_board = Some (Inr (False, stuck_board))"
  by (simp add: solve_eval stuck_board_def board_defs py_eval)

text \<open>
  C18. The search raises nothing and cleans up after itself: on a 9 by 9 board a
  search that returns either reports success with a board without empty cells that
  agrees with the initial board on its filled cells, or reports failure with
  exactly the board it started from.
\<close>

theorem solve_backtracks:
  assumes "wf_board s" "solve n s = Some r"
  shows "(\<exists>s'. r = Inr (True, s') \<and> wf_board s' \<and> is_solved s' \<and> extends s s') \<or>
         r = Inr (False, s)"
  using solve_restores [OF assms] by (rule restores_cases) simp_all

theorem solve_backtracks_witness:
  "wf_board stuck_board \<and> solve 3 stuck_board = Some (Inr (False, stuck_board)) \<and>
   \<not> is_solved stuck_board"
proof -
  have wf: "wf_board stuck_board" and "\<not> is_solved stuck_board"
    by (simp_all add: stuck_board_def board_defs wf_board_def wf_grid_def)
  with solve_backtracks [OF wf solve_stuck] solve_stuck show ?thesis
    by simp
qed

lemma empties_le: "empties s \<le> 81"
  using length_filter_le [of "\<lambda>p. cell s (fst p) (snd p) = 0" row_major] by (simp add: empties_def)

section \<open>More depth changes nothing\<close>

lemma try_each_mono:
  assumes "\<And>s1 r1. rec s1 = Some r1 \<Longrightarrow> rec' s1 = Some r1"
    and "try_each rec s x y vs = Some r"
  shows "try_each rec' s x y vs = Some r"
  using assms(2)
proof (induction vs arbitrary: s)
  case (Cons v vs)
  show ?case
  proof (cases "place s v x y")
    case (Inr s1)
    with Cons.prems obtain r1 where r1: "rec s1 = Some r1"
      by (cases "rec s1") (auto simp: try_each.simps)
    from assms(1) [OF r1] r1 Inr Cons.prems Cons.IH show ?thesis
      by (auto simp: try_each.simps split: sum.splits if_splits)
  qed (use Cons.prems in \<open>simp add: try_each.simps\<close>)
qed (simp add: try_each.simps)

lemma solve_Suc_mono: "solve n s = Some r \<Longrightarrow> solve (Suc n) s = Some r"
proof (induction n arbitrary: s r)
  case (Suc n)
  from Suc.prems try_each_mono [of "solve n" "solve (Suc n)", OF Suc.IH] show ?case
    unfolding solve.simps(2) [of n] solve.simps(2) [of "Suc n"]
    by (auto split: if_splits sum.splits)
qed simp

lemma solve_mono: "solve n s = Some r \<Longrightarrow> n \<le> m \<Longrightarrow> solve m s = Some r"
  by (induction m) (auto simp: le_Suc_eq solve_Suc_mono)

section \<open>Termination and completeness\<close>

lemma solve_total: "wf_board s \<Longrightarrow> empties s < n \<Longrightarrow> solve n s \<noteq> None"
proof (induction n arbitrary: s)
  case (Suc n)
  show ?case
  proof (cases "is_solved s")
    case True
    then show ?thesis
      by (simp add: solve.simps)
  next
    case False
    with Suc.prems(1) obtain x y where xy: "x < 9" "y < 9" "cell s x y = 0" "first_empty s = Some (x, y)"
      by (rule unsolved_first_empty)
    have "solve n (put_cell s x y v) \<noteq> None" if "v \<in> candidates s x y" for v
      using empties_put_cell [OF Suc.prems(1) xy(1-3), of v] candidates_nonzero [OF that] Suc.prems
      by (intro Suc.IH) auto
    then show ?thesis
      unfolding solve_Suc_find [OF Suc.prems(1) xy(4)]
      by (auto split: option.splits dest!: find_Some_set simp: set_option_list)
  qed
qed simp

lemma solve_enough:
  assumes "wf_board s" "empties s < n \<or> 82 \<le> n"
  shows "\<exists>r. solve n s = Some r"
proof -
  from assms(2) empties_le [of s] have "empties s < n"
    by auto
  with solve_total [OF assms(1), of n] show ?thesis
    by auto
qed

lemma solve_fails:
  assumes "wf_board s" "solve n s = Some (Inr (False, s'))"
  shows "\<not> solution s t"
  using assms
proof (induction n arbitrary: s s')
  case (Suc n)
  note wf = Suc.prems(1)
  from Suc.prems have unsolved: "\<not> is_solved s"
    by (auto simp: solve.simps)
  with wf obtain x y where xy: "x < 9" "y < 9" "cell s x y = 0" "first_empty s = Some (x, y)"
    by (rule unsolved_first_empty)
  have fails: "solve n (put_cell s x y v) = Some (Inr (False, put_cell s x y v))"
    if "v \<in> candidates s x y" for v
  proof (rule ccontr)
    assume *: "solve n (put_cell s x y v) \<noteq> Some (Inr (False, put_cell s x y v))"
    with that obtain w where "solve n (put_cell s x y w) = Some (Inr (False, s'))"
        "solve n (put_cell s x y w) \<noteq> Some (Inr (False, put_cell s x y w))"
      using Suc.prems(2) unfolding solve_Suc_find [OF wf xy(4)]
      by (auto split: option.splits dest!: find_Some_set simp: find_None_iff set_option_list)
    with solve_restores [of "put_cell s x y w" n] wf show False
      by (auto simp: restores_Inr)
  qed
  show ?case
  proof
    assume sol: "solution s t"
    from solution_cell [OF sol xy(1-3) wf] fails [of "cell t x y"] wf
      Suc.IH [of "put_cell s x y (cell t x y)"]
    show False
      by simp
  qed
qed simp

lemma solution_tiny: "solution tiny_board solved_board"
proof -
  have "wf_board solved_board" "digits_ok solved_board" "is_solved solved_board"
    "extends tiny_board solved_board"
    by (simp_all add: extends_def wf_board_def wf_grid_def digits_ok_def is_digit_def
        is_solved_def tiny_board_def board_examples init_def cell_def row_major_def
        row_cells_def upt_rec)
  with rules_ok_solved_board show ?thesis
    by (simp add: solution_def)
qed

text \<open>
  C17. The search terminates within the depth it is given whenever that depth
  exceeds the number of empty cells; a depth of 82 is enough on every 9 by 9 board,
  and a greater depth returns the same result.
\<close>

theorem solve_fuel:
  assumes "wf_board s" "empties s < n \<or> 82 \<le> n"
  shows "\<exists>r. solve n s = Some r \<and> (\<forall>m \<ge> n. solve m s = Some r)"
  using solve_enough [OF assms] by (auto intro: solve_mono)

theorem solve_fuel_witness:
  "wf_board tiny_board \<and> empties tiny_board = 3 \<and>
   (\<exists>r. solve 4 tiny_board = Some r \<and> solve 82 tiny_board = Some r) \<and>
   (\<exists>r. solve 82 sample_board = Some r)"
proof -
  have wf: "wf_board tiny_board" and e: "empties tiny_board = 3"
    by (simp_all add: tiny_board_def wf_board_def wf_grid_def init_def empties_def row_major_def
        row_cells_def cell_def upt_rec)
  from solve_fuel [OF wf, of 4] e have "\<exists>r. solve 4 tiny_board = Some r \<and> solve 82 tiny_board = Some r"
    by auto
  with solve_fuel [OF wf_sample_board, of 82] wf e show ?thesis
    by auto
qed

text \<open>
  C16. The search is complete. On a 9 by 9 board, when the search reports failure it
  returns the board it started from, and that board has no solution: no 9 by 9 board
  of digits without empty cells obeys the rules and agrees with it on its filled
  cells.
\<close>

theorem solve_complete:
  assumes "wf_board s" "solve n s = Some (Inr (False, s'))"
  shows "s' = s \<and> (\<forall>t. \<not> solution s t)"
  using solve_restores [OF assms] solve_fails [OF assms] by (simp add: restores_Inr)

theorem solve_complete_witness:
  "wf_board stuck_board \<and> solve 3 stuck_board = Some (Inr (False, stuck_board)) \<and>
   \<not> solution stuck_board solved_board"
proof -
  have wf: "wf_board stuck_board"
    by (simp add: stuck_board_def init_def wf_board_def wf_grid_def)
  with solve_complete [OF wf solve_stuck] solve_stuck show ?thesis
    by simp
qed

lemma solve_success:
  assumes "valid s" "solution s t" "empties s < n \<or> 82 \<le> n"
  shows "\<exists>t'. solve n s = Some (Inr (True, t')) \<and> solution s t'"
proof -
  from assms(1) have wf: "wf_board s"
    by (simp add: valid_def)
  from solve_enough [OF wf assms(3)] obtain r where r: "solve n s = Some r"
    by auto
  from solve_restores [OF wf r] show ?thesis
  proof (cases rule: restores_cases)
    case (1 t')
    with r solve_valid [OF assms(1), of n t'] show ?thesis
      by (simp add: solution_def valid_def)
  next
    case 2
    with r solve_fails [OF wf, of n s t] assms(2) show ?thesis
      by simp
  qed
qed

text \<open>
  C15. The search finds a solution whenever there is one. On a 9 by 9 board of digits
  that obeys the rules and has a solution, a search of a depth above the number of
  empty cells (82 on every board) returns, reports success, and leaves a solution
  of the board it started from.
\<close>

theorem solve_finds:
  assumes "valid s" "solution s t" "empties s < n \<or> 82 \<le> n"
  shows "\<exists>t'. solve n s = Some (Inr (True, t')) \<and> solution s t'"
  using assms by (rule solve_success)

theorem solve_finds_witness:
  "valid tiny_board \<and> solution tiny_board solved_board \<and> empties tiny_board < 4 \<and>
   (\<exists>t'. solve 82 tiny_board = Some (Inr (True, t')) \<and> solution tiny_board t')"
proof -
  have "empties tiny_board < 4"
    by (simp add: tiny_board_def init_def empties_def row_major_def row_cells_def cell_def upt_rec)
  with solve_finds [OF valid_examples(1) solution_tiny, of 82] valid_examples(1) solution_tiny
  show ?thesis
    by simp
qed

end
