(* ===== verification/Py_Strings.thy ===== *)
theory Py_Strings
  imports Py_Prelude
begin

text \<open>
  The string operations of Python that \<^verbatim>\<open>Sudoku.__str__\<close> and \<^verbatim>\<open>load_from_file\<close>
  use, on strings as lists of characters: \<^verbatim>\<open>str\<close> of an integer and of a list of
  integers, \<^verbatim>\<open>str.replace\<close> of a one-character pattern, slicing, \<^verbatim>\<open>str.strip\<close>,
  \<^verbatim>\<open>str.split\<close> with a one-character separator, \<^verbatim>\<open>str.join\<close>, and \<^verbatim>\<open>int\<close> of a
  string. A character is one of the 256 code points of Latin-1. In that range
  \<^verbatim>\<open>str.strip\<close> removes the characters \<^verbatim>\<open>str.isspace\<close> accepts (\<open>is_space\<close>: tab to
  carriage return, the separators U+001C to U+001F, the space, U+0085 and U+00A0),
  whereas \<^verbatim>\<open>int\<close> skips less (\<open>is_int_space\<close>: the same characters without the four
  separators), so a field padded with one of U+001C to U+001F is no integer literal.
  \<^verbatim>\<open>int\<close> and \<^verbatim>\<open>str\<close> are modelled below the limit of 4300 digits beyond which
  CPython 3.11 and later raises \<^verbatim>\<open>ValueError\<close> in both directions.
\<close>

section \<open>Printing\<close>

definition digit_char :: "nat \<Rightarrow> char" where
  "digit_char d = ''0123456789'' ! d"

function str_nat :: "nat \<Rightarrow> string" where
  "str_nat n = (if n < 10 then [digit_char n] else str_nat (n div 10) @ [digit_char (n mod 10)])"
  by pat_completeness auto
termination
  by (relation "measure id") auto

definition str_int :: "int \<Rightarrow> string" where
  "str_int i = (if i < 0 then CHR ''-'' # str_nat (nat (- i)) else str_nat (nat i))"

fun join :: "'a list \<Rightarrow> 'a list list \<Rightarrow> 'a list" where
  "join sep [] = []"
| "join sep [x] = x"
| "join sep (x # y # ys) = x @ sep @ join sep (y # ys)"

definition str_list :: "int list \<Rightarrow> string" where
  "str_list xs = ''['' @ join '', '' (map str_int xs) @ '']''"

section \<open>Editing\<close>

definition replace_char :: "char \<Rightarrow> string \<Rightarrow> string \<Rightarrow> string" where
  "replace_char c new s = concat (map (\<lambda>x. if x = c then new else [x]) s)"

definition slice_bound :: "nat \<Rightarrow> int \<Rightarrow> nat" where
  "slice_bound n k = (if k < 0 then nat (max 0 (k + int n)) else min (nat k) n)"

definition py_slice :: "'a list \<Rightarrow> int \<Rightarrow> int \<Rightarrow> 'a list" where
  "py_slice xs i j =
     (let a = slice_bound (length xs) i; b = slice_bound (length xs) j
      in take (b - a) (drop a xs))"

definition is_space :: "char \<Rightarrow> bool" where
  "is_space c \<longleftrightarrow>
     c \<in> set [CHR 0x09, CHR 0x0A, CHR 0x0B, CHR 0x0C, CHR 0x0D, CHR 0x1C, CHR 0x1D, CHR 0x1E,
              CHR 0x1F, CHR 0x20, CHR 0x85, CHR 0xA0]"

definition lstrip :: "string \<Rightarrow> string" where
  "lstrip s = dropWhile is_space s"

definition rstrip :: "string \<Rightarrow> string" where
  "rstrip s = rev (dropWhile is_space (rev s))"

definition py_strip :: "string \<Rightarrow> string" where
  "py_strip s = rstrip (lstrip s)"

fun py_split :: "char \<Rightarrow> string \<Rightarrow> string list" where
  "py_split c [] = [[]]"
| "py_split c (x # xs) =
     (if x = c then [] # py_split c xs
      else (case py_split c xs of p # ps \<Rightarrow> (x # p) # ps | [] \<Rightarrow> [[x]]))"

section \<open>Reading an integer\<close>

definition is_digit_char :: "char \<Rightarrow> bool" where
  "is_digit_char c \<longleftrightarrow> c \<in> set ''0123456789''"

definition digit_val :: "char \<Rightarrow> nat" where
  "digit_val c = of_char c - 48"

definition nat_of_digits :: "string \<Rightarrow> nat" where
  "nat_of_digits ds = foldl (\<lambda>n c. 10 * n + digit_val c) 0 ds"

definition digits_ok_str :: "string \<Rightarrow> bool" where
  "digits_ok_str body \<longleftrightarrow>
     list_all (\<lambda>p. p \<noteq> [] \<and> list_all is_digit_char p) (py_split CHR ''_'' body)"

definition is_int_space :: "char \<Rightarrow> bool" where
  "is_int_space c \<longleftrightarrow>
     c \<in> set [CHR 0x09, CHR 0x0A, CHR 0x0B, CHR 0x0C, CHR 0x0D, CHR 0x20, CHR 0x85, CHR 0xA0]"

definition int_strip :: "string \<Rightarrow> string" where
  "int_strip s = rev (dropWhile is_int_space (rev (dropWhile is_int_space s)))"

definition split_sign :: "string \<Rightarrow> bool \<times> string" where
  "split_sign t =
     (case t of
        c # r \<Rightarrow> if c = CHR ''-'' then (True, r) else if c = CHR ''+'' then (False, r) else (False, t)
      | [] \<Rightarrow> (False, t))"

definition py_int :: "string \<Rightarrow> int result" where
  "py_int s =
     (let (neg, body) = split_sign (int_strip s)
      in if digits_ok_str body
         then Inr ((if neg then - 1 else 1) * int (nat_of_digits (filter (\<lambda>c. c \<noteq> CHR ''_'') body)))
         else Inl ValueError)"

declare str_nat.simps [simp del]

named_theorems str_eval "unfolding rules that evaluate string operations on literals"

lemmas [str_eval] =
  str_nat.simps str_int_def str_list_def digit_char_def replace_char_def py_slice_def
  slice_bound_def is_space_def lstrip_def rstrip_def py_strip_def is_digit_char_def
  digit_val_def nat_of_digits_def digits_ok_str_def is_int_space_def int_strip_def
  split_sign_def py_int_def Let_def

section \<open>Tests of the definitions\<close>

lemma str_examples:
  "str_int 0 = ''0''" "str_int 907 = ''907''" "str_int (- 12) = ''-12''"
  "str_list [5, 3, 0] = ''[5, 3, 0]''" "str_list [] = ''[]''"
  by (simp_all add: str_eval)

lemma py_int_examples:
  "py_int ''42'' = Inr 42" "py_int '' -7 '' = Inr (- 7)" "py_int ''+1_000'' = Inr 1000"
  "py_int ''007'' = Inr 7"
  "py_int ([CHR 0x09, CHR 0xA0] @ ''5'' @ [CHR 0x85, CHR 0x0D]) = Inr 5"
  "py_int '''' = Inl ValueError" "py_int ''1 2'' = Inl ValueError" "py_int ''_1'' = Inl ValueError"
  "py_int ''1__0'' = Inl ValueError" "py_int ''- 1'' = Inl ValueError" "py_int ''1.5'' = Inl ValueError"
  "py_int (CHR 0x1C # ''5'') = Inl ValueError" "py_int (''5'' @ [CHR 0x1F]) = Inl ValueError"
  by (simp_all add: str_eval)

lemma py_split_examples:
  "py_split CHR '','' ''1,2,3'' = [''1'', ''2'', ''3'']" "py_split CHR '','' '''' = ['''']"
  "py_split CHR '','' ''1,,2,'' = [''1'', '''', ''2'', '''']"
  by simp_all

lemma py_edit_examples:
  "py_slice ''[5 3 0]'' 1 (- 1) = ''5 3 0''" "py_slice ''ab'' 1 (- 1) = ''''" "py_slice ''a'' 1 (- 1) = ''''"
  "replace_char CHR '','' '''' ''[5, 3, 0]'' = ''[5 3 0]''"
  "py_strip (''  5 3'' @ [CHR 0x0A, CHR 0x0A]) = ''5 3''"
  by (simp_all add: str_eval)

section \<open>Digits\<close>

lemma digit_cases: "d < 10 \<Longrightarrow> d \<in> {0, 1, 2, 3, 4, 5, 6, 7, 8, 9::nat}"
  by auto

lemma digit_val_digit_char [simp]: "d < 10 \<Longrightarrow> digit_val (digit_char d) = d"
  using digit_cases [of d] by (auto simp: digit_char_def digit_val_def)

lemma is_digit_char_digit_char [simp]: "d < 10 \<Longrightarrow> is_digit_char (digit_char d)"
  using digit_cases [of d] by (auto simp: digit_char_def is_digit_char_def)

lemma digit_not_special:
  assumes "is_digit_char c"
  shows "\<not> is_space c" "\<not> is_int_space c" "c \<noteq> CHR ''-''" "c \<noteq> CHR ''+''" "c \<noteq> CHR ''_''" "c \<noteq> CHR '',''"
    "c \<noteq> CHR '' ''" "c \<noteq> CHR 0x0A"
  using assms by (auto simp: is_digit_char_def is_space_def is_int_space_def)

lemma str_nat_nonempty [simp]: "str_nat n \<noteq> []"
  by (subst str_nat.simps) simp

lemma str_nat_digits [simp]: "list_all is_digit_char (str_nat n)"
  by (induction n rule: str_nat.induct) (subst str_nat.simps, simp)

lemma nat_of_digits_snoc [simp]:
  "nat_of_digits (ds @ [c]) = 10 * nat_of_digits ds + digit_val c"
  by (simp add: nat_of_digits_def)

lemma nat_of_digits_str_nat [simp]: "nat_of_digits (str_nat n) = n"
  by (induction n rule: str_nat.induct) (subst str_nat.simps, simp add: nat_of_digits_def)

lemma str_nat_less_10: "n < 10 \<Longrightarrow> str_nat n = [digit_char n]"
  by (subst str_nat.simps) simp

lemma length_str_nat_digit [simp]: "n < 10 \<Longrightarrow> length (str_nat n) = 1"
  by (simp add: str_nat_less_10)

section \<open>strip\<close>

lemma lstrip_id: "s = [] \<or> \<not> is_space (hd s) \<Longrightarrow> lstrip s = s"
  by (cases s) (auto simp: lstrip_def)

lemma rstrip_id: "s = [] \<or> \<not> is_space (last s) \<Longrightarrow> rstrip s = s"
  by (cases s rule: rev_cases) (auto simp: rstrip_def)

lemma py_strip_id:
  "s = [] \<or> (\<not> is_space (hd s) \<and> \<not> is_space (last s)) \<Longrightarrow> py_strip s = s"
  by (auto simp: py_strip_def lstrip_id rstrip_id)

lemma rstrip_append_space:
  assumes "list_all is_space t"
  shows "rstrip (s @ t) = rstrip s"
proof -
  have "dropWhile is_space (rev t @ rev s) = dropWhile is_space (rev s)"
    by (rule dropWhile_append2) (use assms in \<open>simp add: list_all_iff\<close>)
  then show ?thesis
    by (simp add: rstrip_def)
qed

lemma lstrip_append: "s \<noteq> [] \<Longrightarrow> \<not> is_space (hd s) \<Longrightarrow> lstrip (s @ t) = s @ t"
  by (cases s) (auto simp: lstrip_def)

lemma py_strip_line:
  assumes "s \<noteq> []" "\<not> is_space (hd s)" "\<not> is_space (last s)" "list_all is_space t"
  shows "py_strip (s @ t) = s"
  using assms by (simp add: py_strip_def lstrip_append rstrip_append_space rstrip_id)

lemma is_space_newline [simp]: "is_space (CHR 0x0A)" "is_space CHR '' ''"
  by (simp_all add: is_space_def)

lemma is_int_space_iff:
  "is_int_space c \<longleftrightarrow> is_space c \<and> c \<notin> {CHR 0x1C, CHR 0x1D, CHR 0x1E, CHR 0x1F}"
  by (auto simp: is_int_space_def is_space_def)

lemma is_int_space_is_space: "is_int_space c \<Longrightarrow> is_space c"
  by (simp add: is_int_space_iff)

lemma dropWhile_rev_id: "s = [] \<or> \<not> P (last s) \<Longrightarrow> dropWhile P (rev s) = rev s"
  by (cases s rule: rev_cases) auto

lemma int_strip_id:
  assumes "s = [] \<or> (\<not> is_int_space (hd s) \<and> \<not> is_int_space (last s))"
  shows "int_strip s = s"
proof -
  from assms have "dropWhile is_int_space s = s"
    by (cases s) auto
  with assms show ?thesis
    by (auto simp: int_strip_def dropWhile_rev_id)
qed

lemma int_strip_padded:
  assumes "list_all is_int_space a" "list_all is_int_space b"
    and "s \<noteq> []" "\<not> is_int_space (hd s)" "\<not> is_int_space (last s)"
  shows "int_strip (a @ s @ b) = s"
proof -
  have "dropWhile is_int_space (a @ s @ b) = s @ b"
    using assms by (cases s) (simp_all add: dropWhile_append2 list_all_iff)
  moreover have "dropWhile is_int_space (rev b @ rev s) = rev s"
    using assms dropWhile_append2 [of "rev b" is_int_space "rev s"]
    by (simp add: list_all_iff dropWhile_rev_id)
  ultimately show ?thesis
    by (simp add: int_strip_def)
qed

lemma set_dropWhile_keeps: "c \<in> set s \<Longrightarrow> \<not> P c \<Longrightarrow> c \<in> set (dropWhile P s)"
  by (induction s) auto

lemma int_strip_keeps: "c \<in> set s \<Longrightarrow> \<not> is_int_space c \<Longrightarrow> c \<in> set (int_strip s)"
  by (simp add: int_strip_def set_dropWhile_keeps)

section \<open>split and join\<close>

lemma py_split_nonempty [simp]: "py_split c s \<noteq> []"
  by (induction s) (auto split: list.split)

lemma py_split_no_sep: "c \<notin> set s \<Longrightarrow> py_split c s = [s]"
  by (induction s) auto

lemma py_split_append:
  "c \<notin> set p \<Longrightarrow> py_split c (p @ c # s) = p # py_split c s"
  by (induction p) auto

lemma join_Cons: "ps \<noteq> [] \<Longrightarrow> join sep (p # ps) = p @ sep @ join sep ps"
  by (cases ps) simp_all

lemma py_split_join:
  assumes "ps \<noteq> []" "\<forall>p \<in> set ps. c \<notin> set p"
  shows "py_split c (join [c] ps) = ps"
  using assms
proof (induction ps)
  case (Cons p ps)
  then show ?case
    by (cases "ps = []") (simp_all add: py_split_no_sep join_Cons py_split_append)
qed simp

lemma join_Cons_Cons: "join sep ((x # p) # ps) = x # join sep (p # ps)"
  by (cases ps) simp_all

lemma join_append_hd: "join sep ((a @ p) # ps) = a @ join sep (p # ps)"
  by (cases ps) simp_all

lemma join_append_last: "join sep (ps @ [q @ b]) = join sep (ps @ [q]) @ b"
  by (induction sep ps rule: join.induct) simp_all

lemma join_padded: "join sep ((a @ p) # ps @ [q @ b]) = a @ join sep (p # ps @ [q]) @ b"
  using join_append_last [of sep "p # ps" q b] by (simp add: join_append_hd)

lemma join_py_split: "join [c] (py_split c s) = s"
proof (induction s)
  case (Cons x s)
  then show ?case
    by (cases "py_split c s") (auto simp: join_Cons join_Cons_Cons)
qed simp

lemma filter_join: "filter P (join sep ps) = join (filter P sep) (map (filter P) ps)"
  by (induction sep ps rule: join.induct) simp_all

lemma join_eq_Nil_iff: "join sep ps = [] \<longleftrightarrow> ps = [] \<or> (sep = [] \<or> length ps = 1) \<and> (\<forall>p \<in> set ps. p = [])"
  by (induction sep ps rule: join.induct) auto

lemma join_nonempty: "ps \<noteq> [] \<Longrightarrow> last ps \<noteq> [] \<Longrightarrow> join sep ps \<noteq> []"
  by (induction sep ps rule: join.induct) simp_all

lemma hd_join: "ps \<noteq> [] \<Longrightarrow> hd ps \<noteq> [] \<Longrightarrow> hd (join sep ps) = hd (hd ps)"
  by (induction sep ps rule: join.induct) simp_all

lemma last_join: "ps \<noteq> [] \<Longrightarrow> last ps \<noteq> [] \<Longrightarrow> last (join sep ps) = last (last ps)"
  by (induction sep ps rule: join.induct) (simp_all add: join_nonempty)

lemma length_join:
  "length (join sep ps) = sum_list (map length ps) + length sep * (length ps - 1)"
  by (induction sep ps rule: join.induct) simp_all

lemma replace_char_Nil: "replace_char c [] s = filter (\<lambda>x. x \<noteq> c) s"
  by (induction s) (simp_all add: replace_char_def)

lemma py_slice_inner: "py_slice (a # s @ [b]) 1 (- 1) = s"
  by (simp add: py_slice_def slice_bound_def Let_def)

section \<open>str and int of an integer\<close>

lemma str_int_nonempty [simp]: "str_int i \<noteq> []"
  by (simp add: str_int_def)

lemma str_int_chars: "c \<in> set (str_int i) \<Longrightarrow> c = CHR ''-'' \<or> is_digit_char c"
  using str_nat_digits [of "nat i"] str_nat_digits [of "nat (- i)"]
  by (auto simp: str_int_def list_all_iff split: if_splits)

lemma str_int_no_special [simp]:
  "CHR '','' \<notin> set (str_int i)" "CHR '' '' \<notin> set (str_int i)" "CHR 0x0A \<notin> set (str_int i)"
  "CHR ''_'' \<notin> set (str_int i)" "CHR 0x0D \<notin> set (str_int i)"
  by (auto dest!: str_int_chars simp: is_digit_char_def)

lemma str_int_no_space: "c \<in> set (str_int i) \<Longrightarrow> \<not> is_space c"
  by (auto dest!: str_int_chars simp: is_digit_char_def is_space_def)

lemma str_int_no_int_space: "c \<in> set (str_int i) \<Longrightarrow> \<not> is_int_space c"
  by (auto dest: str_int_no_space is_int_space_is_space)

lemma str_nat_no_underscore [simp]: "CHR ''_'' \<notin> set (str_nat n)"
  using str_nat_digits [of n] by (auto simp: list_all_iff is_digit_char_def)

lemma digits_ok_str_str_nat [simp]: "digits_ok_str (str_nat n)"
  by (simp add: digits_ok_str_def py_split_no_sep)

lemma hd_str_nat: "is_digit_char (hd (str_nat n))"
  using str_nat_digits [of n] by (cases "str_nat n") simp_all

lemma str_int_ends [simp]:
  "\<not> is_space (hd (str_int i))" "\<not> is_space (last (str_int i))"
  "\<not> is_int_space (hd (str_int i))" "\<not> is_int_space (last (str_int i))"
  using str_int_no_space [of "hd (str_int i)" i] str_int_no_space [of "last (str_int i)" i]
  by (auto dest: is_int_space_is_space)

lemma filter_underscore_str_nat [simp]: "filter (\<lambda>c. c \<noteq> CHR ''_'') (str_nat n) = str_nat n"
  using str_nat_no_underscore [of n] by (auto simp: filter_id_conv)

lemma py_strip_str_int [simp]: "py_strip (str_int i) = str_int i"
  by (rule py_strip_id) simp

lemma int_strip_str_int [simp]: "int_strip (str_int i) = str_int i"
  by (rule int_strip_id) simp

lemma split_sign_minus [simp]: "split_sign (CHR ''-'' # r) = (True, r)"
  by (simp add: split_sign_def)

lemma split_sign_digit: "t \<noteq> [] \<Longrightarrow> is_digit_char (hd t) \<Longrightarrow> split_sign t = (False, t)"
  by (cases t) (auto simp: split_sign_def dest: digit_not_special)

lemma py_int_str_int [simp]: "py_int (str_int i) = Inr i"
proof -
  have "py_int (str_int i) =
      (let (neg, body) = split_sign (str_int i)
       in if digits_ok_str body
          then Inr ((if neg then - 1 else 1) * int (nat_of_digits (filter (\<lambda>c. c \<noteq> CHR ''_'') body)))
          else Inl ValueError)"
    by (simp add: py_int_def)
  then show ?thesis
    by (cases "i < 0") (simp_all add: str_int_def split_sign_digit hd_str_nat)
qed

lemma lstrip_spaces: "list_all is_space a \<Longrightarrow> lstrip (a @ s) = lstrip s"
  unfolding lstrip_def by (rule dropWhile_append2) (simp add: list_all_iff)

lemma py_strip_padded:
  "list_all is_space a \<Longrightarrow> list_all is_space b \<Longrightarrow> s \<noteq> [] \<Longrightarrow> \<not> is_space (hd s) \<Longrightarrow>
   \<not> is_space (last s) \<Longrightarrow> py_strip (a @ s @ b) = s"
  using py_strip_line [of s b] by (simp add: py_strip_def lstrip_spaces)

lemma py_int_padded:
  assumes "list_all is_int_space a" "list_all is_int_space b"
  shows "py_int (a @ str_int i @ b) = Inr i"
proof -
  have "int_strip (a @ str_int i @ b) = int_strip (str_int i)"
    using assms by (simp add: int_strip_padded)
  then have "py_int (a @ str_int i @ b) = py_int (str_int i)"
    by (simp add: py_int_def)
  then show ?thesis
    by simp
qed

lemma length_ge_2E:
  assumes "2 \<le> length xs"
  obtains a b r where "xs = a # b # r"
proof (cases xs)
  case (Cons a ys)
  with assms that show ?thesis
    by (cases ys) auto
qed (use assms in simp)

lemma set_join_subset: "set (join sep ps) \<subseteq> set sep \<union> \<Union> (set ` set ps)"
  by (induction sep ps rule: join.induct) auto

lemma digits_ok_str_chars:
  assumes "digits_ok_str b" "c \<in> set b"
  shows "is_digit_char c \<or> c = CHR ''_''"
proof -
  from assms(2) have "c \<in> set (join ''_'' (py_split CHR ''_'' b))"
    by (simp add: join_py_split)
  with set_join_subset [of "''_''" "py_split CHR ''_'' b"]
  have "c = CHR ''_'' \<or> (\<exists>p \<in> set (py_split CHR ''_'' b). c \<in> set p)"
    by auto
  with assms(1) show ?thesis
    by (auto simp: digits_ok_str_def list_all_iff)
qed

lemma split_sign_body: "split_sign t = (neg, body) \<Longrightarrow> body = t \<or> body = tl t"
  by (auto simp: split_sign_def split: list.splits if_splits)

lemma split_sign_keeps:
  "c \<in> set t \<Longrightarrow> c \<noteq> CHR ''-'' \<Longrightarrow> c \<noteq> CHR ''+'' \<Longrightarrow> c \<in> set (snd (split_sign t))"
  by (cases t) (auto simp: split_sign_def)

lemma py_int_chars:
  assumes "py_int s = Inr v" "c \<in> set s"
  shows "is_int_space c \<or> is_digit_char c \<or> c \<in> {CHR ''_'', CHR ''+'', CHR ''-''}"
proof (rule ccontr)
  assume n: "\<not> ?thesis"
  obtain neg body where sb: "split_sign (int_strip s) = (neg, body)"
    by (cases "split_sign (int_strip s)")
  from assms(2) n have "c \<in> set (int_strip s)"
    by (simp add: int_strip_keeps)
  with split_sign_keeps [of c "int_strip s"] sb n have "c \<in> set body"
    by simp
  with n have "\<not> digits_ok_str body"
    by (auto dest: digits_ok_str_chars)
  with sb assms(1) show False
    by (simp add: py_int_def)
qed

lemma py_int_inner_space:
  assumes "s \<noteq> []" "\<not> is_int_space (hd s)" "\<not> is_int_space (last s)" "CHR '' '' \<in> set s"
  shows "py_int s = Inl ValueError"
proof -
  obtain neg body where sb: "split_sign s = (neg, body)"
    by (cases "split_sign s")
  from assms have "CHR '' '' \<in> set (tl s)"
    by (cases s) (auto simp: is_int_space_def)
  with split_sign_body [OF sb] assms(4) have "CHR '' '' \<in> set body"
    by auto
  then have "\<not> digits_ok_str body"
    by (auto dest!: digits_ok_str_chars simp: is_digit_char_def)
  with sb assms show ?thesis
    by (simp add: py_int_def int_strip_id)
qed

lemma py_int_error: "py_int s = Inl e \<Longrightarrow> e = ValueError"
  by (auto simp: py_int_def Let_def split: prod.splits if_splits)

lemma py_int_padding:
  assumes "list_all is_space a" "list_all is_space b"
  shows "py_int (a @ str_int i @ b) =
    (if set (a @ b) \<inter> {CHR 0x1C, CHR 0x1D, CHR 0x1E, CHR 0x1F} = {} then Inr i
     else Inl ValueError)"
proof (cases "set (a @ b) \<inter> {CHR 0x1C, CHR 0x1D, CHR 0x1E, CHR 0x1F} = {}")
  case True
  with assms have "list_all is_int_space a" "list_all is_int_space b"
    by (auto simp: list_all_iff is_int_space_iff)
  with True show ?thesis
    by (simp add: py_int_padded)
next
  case False
  then obtain c where c: "c \<in> set (a @ str_int i @ b)" "c \<in> {CHR 0x1C, CHR 0x1D, CHR 0x1E, CHR 0x1F}"
    by auto
  from c(2) have "\<not> (is_int_space c \<or> is_digit_char c \<or> c \<in> {CHR ''_'', CHR ''+'', CHR ''-''})"
    by (auto simp: is_int_space_def is_digit_char_def)
  with py_int_chars [OF _ c(1)] have "\<not> succeeds (py_int (a @ str_int i @ b))"
    by (auto simp: succeeds_def split: sum.splits)
  with False show ?thesis
    by (cases "py_int (a @ str_int i @ b)") (auto dest: py_int_error)
qed

end
