(* ===== verification/Render.thy ===== *)
theory Render
  imports Board Py_Strings
begin

text \<open>
  \<^verbatim>\<open>Sudoku.__str__\<close>: the board as text. \<open>render_row\<close> is the body of the loop, the
  expression \<^verbatim>\<open>str(row).replace(",", "")[1:-1] + "\n"\<close>; \<open>str_sudoku\<close> is the method,
  the loop over the rows followed by \<^verbatim>\<open>strip\<close>. The theory shows what the text is:
  the values of a row separated by single spaces, the rows separated by newlines,
  for a board of digits 161 characters with the cell \<open>(x, y)\<close> at position
  \<open>18 * y + 2 * x\<close>.
\<close>

section \<open>The method\<close>

definition render_row :: "int list \<Rightarrow> string" where
  "render_row row = py_slice (replace_char CHR '','' [] (str_list row)) 1 (- 1) @ [CHR 0x0A]"

definition str_sudoku :: "sudoku \<Rightarrow> string" where
  "str_sudoku s = py_strip (foldl (\<lambda>representation row. representation @ render_row row) [] (grid s))"

section \<open>Reference\<close>

definition row_text :: "int list \<Rightarrow> string" where
  "row_text row = join '' '' (map str_int row)"

definition board_text :: "sudoku \<Rightarrow> string" where
  "board_text s = join [CHR 0x0A] (map row_text (grid s))"

lemmas render_eval = render_row_def str_sudoku_def

section \<open>One row\<close>

lemma filter_comma_str_int [simp]: "filter (\<lambda>c. c \<noteq> CHR '','') (str_int i) = str_int i"
  using str_int_no_special(1) [of i] by (auto simp: filter_id_conv)

lemma render_row_eq: "render_row row = row_text row @ [CHR 0x0A]"
proof -
  have "replace_char CHR '','' [] (str_list row) = CHR ''['' # row_text row @ '']''"
    by (simp add: replace_char_Nil str_list_def filter_join row_text_def comp_def)
  then show ?thesis
    by (simp add: render_row_def py_slice_inner)
qed

lemma row_text_ends:
  assumes "row \<noteq> []"
  shows "row_text row \<noteq> []" "\<not> is_space (hd (row_text row))" "\<not> is_space (last (row_text row))"
  using assms by (simp_all add: row_text_def join_nonempty hd_join last_join hd_map last_map)

section \<open>The board\<close>

lemma foldl_append_map: "foldl (\<lambda>acc x. acc @ f x) a xs = a @ concat (map f xs)"
  by (induction xs arbitrary: a) simp_all

lemma concat_lines: "ls \<noteq> [] \<Longrightarrow> concat (map (\<lambda>l. l @ sep) ls) = join sep ls @ sep"
  by (induction sep ls rule: join.induct) simp_all

lemma concat_lines_map:
  "xs \<noteq> [] \<Longrightarrow> concat (map (\<lambda>x. f x @ sep) xs) = join sep (map f xs) @ sep"
  using concat_lines [of "map f xs" sep] by (simp add: comp_def)

lemma str_sudoku_eq:
  assumes "grid s \<noteq> []" "hd (grid s) \<noteq> []" "last (grid s) \<noteq> []"
  shows "str_sudoku s = board_text s"
proof -
  from assms have e: "board_text s \<noteq> []" "\<not> is_space (hd (board_text s))"
      "\<not> is_space (last (board_text s))"
    by (simp_all add: board_text_def join_nonempty hd_join last_join hd_map last_map row_text_ends)
  have "str_sudoku s = py_strip (board_text s @ [CHR 0x0A])"
    using assms(1)
    by (simp add: str_sudoku_def foldl_append_map render_row_eq [abs_def] board_text_def
        concat_lines_map)
  with e show ?thesis
    by (simp add: py_strip_line)
qed

section \<open>Positions in the text of a board of digits\<close>

lemma length_concat_blocks:
  "\<forall>xs \<in> set xss. length xs = n \<Longrightarrow> length (concat xss) = length xss * n"
  by (induction xss) simp_all

lemma nth_concat_blocks:
  assumes "\<forall>xs \<in> set xss. length xs = n" "k < length xss" "j < n"
  shows "concat xss ! (k * n + j) = xss ! k ! j"
  using assms
proof (induction xss arbitrary: k)
  case (Cons xs xss)
  then show ?case
    by (cases k) (simp_all add: nth_append add.assoc)
qed simp

lemma str_int_digit: "is_digit v \<Longrightarrow> str_int v = [digit_char (nat v)]"
  by (simp add: is_digit_def str_int_def str_nat_less_10 nat_less_iff)

lemma row_text_digits:
  assumes "row \<noteq> []" "list_all is_digit row"
  shows "row_text row @ '' '' = concat (map (\<lambda>v. [digit_char (nat v), CHR '' '']) row)"
proof -
  have "row_text row @ '' '' = concat (map (\<lambda>v. str_int v @ '' '') row)"
    using assms(1) by (simp add: row_text_def concat_lines_map)
  also have "map (\<lambda>v. str_int v @ '' '') row = map (\<lambda>v. [digit_char (nat v), CHR '' '']) row"
    using assms(2) by (simp add: list_all_iff str_int_digit)
  finally show ?thesis .
qed

lemma length_row_text:
  assumes "list_all is_digit row"
  shows "length (row_text row) = 2 * length row - 1"
proof (cases "row = []")
  case False
  have "length (row_text row @ '' '') = length row * 2"
    unfolding row_text_digits [OF False assms] by (subst length_concat_blocks [where n = 2]) auto
  then show ?thesis
    by simp
qed (simp add: row_text_def)

lemma nth_row_text:
  assumes "list_all is_digit row" "x < length row"
  shows "row_text row ! (2 * x) = digit_char (nat (row ! x))"
proof -
  from assms have ne: "row \<noteq> []"
    by auto
  from assms have "2 * x < length (row_text row)"
    by (simp add: length_row_text)
  then have "row_text row ! (2 * x) = (row_text row @ '' '') ! (x * 2 + 0)"
    by (simp add: nth_append mult.commute)
  also have "\<dots> = digit_char (nat (row ! x))"
    unfolding row_text_digits [OF ne assms(1)]
    using assms(2) by (subst nth_concat_blocks) auto
  finally show ?thesis .
qed

lemma nth_row_text_sep:
  assumes "list_all is_digit row" "Suc x < length row"
  shows "row_text row ! Suc (2 * x) = CHR '' ''"
proof -
  from assms have ne: "row \<noteq> []"
    by auto
  from assms have "2 * x + 1 < length (row_text row)"
    by (simp add: length_row_text)
  then have "row_text row ! Suc (2 * x) = (row_text row @ '' '') ! (x * 2 + 1)"
    by (simp add: nth_append mult.commute)
  also have "\<dots> = CHR '' ''"
    unfolding row_text_digits [OF ne assms(1)]
    using assms(2) by (subst nth_concat_blocks) auto
  finally show ?thesis .
qed

lemma board_text_blocks:
  "grid s \<noteq> [] \<Longrightarrow>
   board_text s @ [CHR 0x0A] = concat (map (\<lambda>row. row_text row @ [CHR 0x0A]) (grid s))"
  by (simp add: board_text_def concat_lines_map)

lemma wf_rows_nonempty:
  assumes "wf_board s"
  shows "grid s \<noteq> []" "hd (grid s) \<noteq> []" "last (grid s) \<noteq> []"
proof -
  from assms have l: "length (grid s) = 9" and r: "\<forall>row \<in> set (grid s). length row = 9"
    by (simp_all add: wf_board_def wf_grid_def list_all_iff)
  from l show ne: "grid s \<noteq> []"
    by auto
  from r hd_in_set [OF ne] last_in_set [OF ne] show "hd (grid s) \<noteq> []" "last (grid s) \<noteq> []"
    by force+
qed

lemma wf_str_sudoku: "wf_board s \<Longrightarrow> str_sudoku s = board_text s"
  by (simp add: str_sudoku_eq wf_rows_nonempty)

lemma board_text_digit_blocks:
  assumes "wf_board s" "digits_ok s"
  shows "\<forall>b \<in> set (map (\<lambda>row. row_text row @ [CHR 0x0A]) (grid s)). length b = 18"
proof -
  have "length (row_text row) = 17" if "row \<in> set (grid s)" for row
  proof -
    from that assms have "length row = 9" "list_all is_digit row"
      by (simp_all add: wf_board_def wf_grid_def digits_ok_def list_all_iff)
    then show ?thesis
      by (simp add: length_row_text)
  qed
  then show ?thesis
    by simp
qed

lemma length_board_text:
  assumes "wf_board s" "digits_ok s"
  shows "length (board_text s) = 161"
proof -
  from assms(1) have "length (grid s) = 9"
    by (simp add: wf_board_def wf_grid_def)
  then have "length (board_text s @ [CHR 0x0A]) = 9 * 18"
    unfolding board_text_blocks [OF wf_rows_nonempty(1) [OF assms(1)]]
    using length_concat_blocks [OF board_text_digit_blocks [OF assms]] by simp
  then show ?thesis
    by simp
qed

lemma wf_digit_row:
  assumes "wf_board s" "digits_ok s" "y < 9"
  shows "length (grid s ! y) = 9" "list_all is_digit (grid s ! y)" "length (row_text (grid s ! y)) = 17"
proof -
  from assms show len: "length (grid s ! y) = 9"
    by (simp add: wf_board_def wf_grid_simps)
  from assms show row: "list_all is_digit (grid s ! y)"
    by (simp add: digits_ok_def list_all_length wf_board_def wf_grid_length)
  from len row show "length (row_text (grid s ! y)) = 17"
    by (simp add: length_row_text)
qed

lemma board_text_line:
  assumes wf: "wf_board s" and d: "digits_ok s" and b: "y < 9" "j < 18" "18 * y + j < 161"
  shows "board_text s ! (18 * y + j) = (row_text (grid s ! y) @ [CHR 0x0A]) ! j"
proof -
  from wf have len: "length (grid s) = 9"
    by (simp add: wf_board_def wf_grid_length)
  from b have "board_text s ! (18 * y + j) = (board_text s @ [CHR 0x0A]) ! (y * 18 + j)"
    by (simp add: nth_append length_board_text [OF wf d] mult.commute)
  also have "\<dots> = (row_text (grid s ! y) @ [CHR 0x0A]) ! j"
    unfolding board_text_blocks [OF wf_rows_nonempty(1) [OF wf]]
    using b len by (subst nth_concat_blocks [OF board_text_digit_blocks [OF wf d]]) simp_all
  finally show ?thesis .
qed

lemma nth_board_text:
  assumes wf: "wf_board s" and d: "digits_ok s" and b: "x < 9" "y < 9"
  shows "board_text s ! (18 * y + 2 * x) = digit_char (nat (cell s x y))"
  using b wf_digit_row [OF wf d b(2)]
  by (simp add: board_text_line [OF wf d] nth_append nth_row_text cell_def)

lemma nth_board_text_space:
  assumes wf: "wf_board s" and d: "digits_ok s" and b: "x < 8" "y < 9"
  shows "board_text s ! Suc (18 * y + 2 * x) = CHR '' ''"
  using b wf_digit_row [OF wf d b(2)] board_text_line [OF wf d b(2), of "2 * x + 1"]
  by (simp add: nth_append nth_row_text_sep)

lemma nth_board_text_newline:
  assumes wf: "wf_board s" and d: "digits_ok s" and b: "y < 8"
  shows "board_text s ! (18 * y + 17) = CHR 0x0A"
  using b wf_digit_row [OF wf d, of y] board_text_line [OF wf d, of y 17]
  by (simp add: nth_append)

section \<open>Properties of the rendering\<close>

text \<open>
  C24. The text of a board: the values of each row in decimal, separated by single
  spaces, and the rows separated by newlines, with no newline at the end. This holds
  for the empty grid and for every grid whose first and last rows are not empty, so
  for every 9 by 9 board; \<^verbatim>\<open>strip\<close> removes the lines of empty rows at either end
  of any other grid.
\<close>

theorem str_sudoku_spec:
  assumes "grid s = [] \<or> (hd (grid s) \<noteq> [] \<and> last (grid s) \<noteq> [])"
  shows "str_sudoku s = join [CHR 0x0A] (map (\<lambda>row. join '' '' (map str_int row)) (grid s))"
proof (cases "grid s = []")
  case True
  then show ?thesis
    by (simp add: str_sudoku_def py_strip_id)
next
  case False
  with assms have "hd (grid s) \<noteq> []" "last (grid s) \<noteq> []"
    by auto
  with False show ?thesis
    by (simp add: str_sudoku_eq board_text_def row_text_def [abs_def])
qed

theorem str_sudoku_spec_witness:
  "wf_board sample_board \<and>
   str_sudoku sample_board =
     join [CHR 0x0A] [''5 3 0 0 7 0 0 0 0'', ''6 0 0 1 9 5 0 0 0'', ''0 9 8 0 0 0 0 6 0'',
       ''8 0 0 0 6 0 0 0 3'', ''4 0 0 8 0 3 0 0 1'', ''7 0 0 0 2 0 0 0 6'',
       ''0 6 0 0 0 0 2 8 0'', ''0 0 0 4 1 9 0 0 5'', ''0 0 0 0 8 0 0 7 9'']"
proof -
  have wf: "wf_board sample_board"
    by (simp add: board_examples init_def wf_board_def wf_grid_def)
  have "map (\<lambda>row. join '' '' (map str_int row)) (grid sample_board) =
      [''5 3 0 0 7 0 0 0 0'', ''6 0 0 1 9 5 0 0 0'', ''0 9 8 0 0 0 0 6 0'',
       ''8 0 0 0 6 0 0 0 3'', ''4 0 0 8 0 3 0 0 1'', ''7 0 0 0 2 0 0 0 6'',
       ''0 6 0 0 0 0 2 8 0'', ''0 0 0 4 1 9 0 0 5'', ''0 0 0 0 8 0 0 7 9'']"
    by (simp add: board_examples init_def str_eval)
  with str_sudoku_spec [of sample_board] wf wf_rows_nonempty [OF wf] show ?thesis
    by (simp only: simp_thms)
qed

text \<open>
  C31. The layout of the text. On a 9 by 9 board of digits the text has 161
  characters; the character at index \<open>18 * y + 2 * x\<close> is the digit of the cell
  \<open>(x, y)\<close>; the digits of a row are separated by single spaces and the rows by
  newlines. The specification describes the text as nine lines of nine digits with
  no separators.
\<close>

theorem str_sudoku_layout:
  assumes "wf_board s" "digits_ok s" "x < 9" "y < 9"
  shows "length (str_sudoku s) = 161 \<and>
         str_sudoku s ! (18 * y + 2 * x) = digit_char (nat (cell s x y)) \<and>
         (x < 8 \<longrightarrow> str_sudoku s ! (18 * y + 2 * x + 1) = CHR '' '') \<and>
         (y < 8 \<longrightarrow> str_sudoku s ! (18 * y + 17) = CHR 0x0A)"
  using assms
  by (simp add: wf_str_sudoku length_board_text nth_board_text nth_board_text_space
      nth_board_text_newline)

theorem str_sudoku_layout_witness:
  "length (str_sudoku sample_board) = 161 \<and> cell sample_board 4 1 = 9 \<and>
   str_sudoku sample_board ! (18 * 1 + 2 * 4) = CHR ''9'' \<and>
   str_sudoku sample_board ! (18 * 1 + 2 * 4 + 1) = CHR '' '' \<and>
   str_sudoku sample_board ! (18 * 1 + 17) = CHR 0x0A \<and>
   take 17 (str_sudoku sample_board) = ''5 3 0 0 7 0 0 0 0''"
proof -
  have "wf_board sample_board" "digits_ok sample_board"
    by (simp_all add: board_examples init_def wf_board_def wf_grid_def digits_ok_def is_digit_def)
  from str_sudoku_layout [OF this, of 4 1]
  have "length (str_sudoku sample_board) = 161 \<and> cell sample_board 4 1 = 9 \<and>
      str_sudoku sample_board ! (18 * 1 + 2 * 4) = CHR ''9'' \<and>
      str_sudoku sample_board ! (18 * 1 + 2 * 4 + 1) = CHR '' '' \<and>
      str_sudoku sample_board ! (18 * 1 + 17) = CHR 0x0A"
    by (simp add: cell_def board_examples init_def digit_char_def)
  moreover have "take 17 (str_sudoku sample_board) = ''5 3 0 0 7 0 0 0 0''"
    by (simp add: render_eval str_eval board_examples init_def)
  ultimately show ?thesis
    by simp
qed

end
