(* ===== verification/Loader.thy ===== *)
theory Loader
  imports Render
begin

text \<open>
  \<^verbatim>\<open>load_from_file\<close>. The file system is a map from the names \<^verbatim>\<open>open\<close> accepts to
  the decoded contents of the files they name; \<open>open_text\<close> is \<^verbatim>\<open>open(filename)\<close>
  in text mode, which raises \<^verbatim>\<open>OSError\<close> (\<^verbatim>\<open>FileNotFoundError\<close> and its siblings)
  for every other name and delivers the content with its line ends translated to
  \<^verbatim>\<open>\n\<close> (\<open>universal_newlines\<close>). \<open>file_lines\<close> is the iteration over the file
  object, which yields each line with its line end; \<open>parse_line\<close> is the body of
  the loop, \<^verbatim>\<open>[int(i) for i in line.strip().split(",")]\<close>; \<open>load_lines\<close> is the loop
  followed by the constructor.

  The theory shows that the loader reads back the comma-separated text of every
  board with non-empty rows, whatever line end the file uses, which exceptions it
  raises, that the board has one row per line and one cell per field, so that it
  checks neither the shape nor the range of what it reads, that it does not read
  the text \<^verbatim>\<open>__str__\<close> writes, and which white space it accepts around a field.
\<close>

section \<open>The function\<close>

type_synonym filesystem = "string \<rightharpoonup> string"

primrec newlines :: "bool \<Rightarrow> string \<Rightarrow> string" where
  "newlines cr [] = []"
| "newlines cr (c # cs) =
     (if c = CHR 0x0D then CHR 0x0A # newlines True cs
      else if c = CHR 0x0A \<and> cr then newlines False cs
      else c # newlines False cs)"

definition universal_newlines :: "string \<Rightarrow> string" where
  "universal_newlines content = newlines False content"

definition open_text :: "filesystem \<Rightarrow> string \<Rightarrow> string result" where
  "open_text fs filename =
     (case fs filename of
        None \<Rightarrow> Inl OSError
      | Some content \<Rightarrow> Inr (universal_newlines content))"

fun file_lines :: "string \<Rightarrow> string list" where
  "file_lines [] = []"
| "file_lines (c # cs) =
     (if c = CHR 0x0A then [c] # file_lines cs
      else (case file_lines cs of [] \<Rightarrow> [[c]] | l # ls \<Rightarrow> (c # l) # ls))"

definition parse_line :: "string \<Rightarrow> int list result" where
  "parse_line line = map_result py_int (py_split CHR '','' (py_strip line))"

definition load_lines :: "string list \<Rightarrow> sudoku result" where
  "load_lines ls =
     bind_result
       (for_each ls [] (\<lambda>line puzzle.
          bind_result (parse_line line) (\<lambda>numbers. Inr (puzzle @ [numbers]))))
       (\<lambda>puzzle. Inr (init puzzle))"

definition load_from_file :: "filesystem \<Rightarrow> string \<Rightarrow> sudoku result" where
  "load_from_file fs filename =
     bind_result (open_text fs filename) (\<lambda>f. load_lines (file_lines f))"

section \<open>Reference\<close>

definition fields :: "string \<Rightarrow> string list list" where
  "fields content = map (\<lambda>l. py_split CHR '','' (py_strip l)) (file_lines content)"

definition fields_ok :: "string \<Rightarrow> bool" where
  "fields_ok content \<longleftrightarrow> list_all (list_all (\<lambda>f. succeeds (py_int f))) (fields content)"

definition line_ends :: "string list" where
  "line_ends = [[CHR 0x0A], [CHR 0x0D, CHR 0x0A], [CHR 0x0D]]"

definition csv_text_with :: "string \<Rightarrow> sudoku \<Rightarrow> string" where
  "csv_text_with nl s = concat (map (\<lambda>row. join '','' (map str_int row) @ nl) (grid s))"

definition csv_row :: "int list \<Rightarrow> string" where
  "csv_row row = join '','' (map str_int row) @ [CHR 0x0A]"

definition csv_text :: "sudoku \<Rightarrow> string" where
  "csv_text s = concat (map csv_row (grid s))"

definition one_file :: "string \<Rightarrow> filesystem" where
  "one_file content = [''puzzle.csv'' \<mapsto> content]"

lemmas load_eval =
  parse_line_def load_lines_def load_from_file_def open_text_def universal_newlines_def
  one_file_def init_def

section \<open>Tests of the definitions\<close>

lemma universal_newlines_examples:
  "universal_newlines (''1'' @ [CHR 0x0D, CHR 0x0A] @ ''2'' @ [CHR 0x0D] @ ''3'' @ [CHR 0x0A]) =
     ''1'' @ [CHR 0x0A] @ ''2'' @ [CHR 0x0A] @ ''3'' @ [CHR 0x0A]"
  "universal_newlines [CHR 0x0D, CHR 0x0D, CHR 0x0A, CHR 0x0A] = [CHR 0x0A, CHR 0x0A, CHR 0x0A]"
  by (simp_all add: universal_newlines_def)

lemma file_lines_examples:
  "file_lines '''' = []"
  "file_lines (''1,2'' @ [CHR 0x0A] @ ''3,4'') = [''1,2'' @ [CHR 0x0A], ''3,4'']"
  "file_lines (''1,2'' @ [CHR 0x0A, CHR 0x0A]) = [''1,2'' @ [CHR 0x0A], [CHR 0x0A]]"
  by simp_all

lemma parse_line_examples:
  "parse_line (''5,3,0'' @ [CHR 0x0A]) = Inr [5, 3, 0]"
  "parse_line ('' 5 , 3,0  '' @ [CHR 0x0A]) = Inr [5, 3, 0]"
  "parse_line ''5,,0'' = Inl ValueError"
  "parse_line ''5 3 0'' = Inl ValueError"
  "parse_line [CHR 0x0A] = Inl ValueError"
  by (simp_all add: parse_line_def str_eval)

section \<open>Line ends\<close>

lemma newlines_no_cr: "CHR 0x0D \<notin> set xs \<Longrightarrow> newlines False xs = xs"
  by (induction xs) auto

lemma universal_newlines_id [simp]: "CHR 0x0D \<notin> set xs \<Longrightarrow> universal_newlines xs = xs"
  by (simp add: universal_newlines_def newlines_no_cr)

lemma newlines_append:
  "CHR 0x0D \<notin> set l \<Longrightarrow> newlines False (l @ xs) = l @ newlines False xs"
  by (induction l) auto

lemma newlines_cr: "xs = [] \<or> hd xs \<noteq> CHR 0x0A \<Longrightarrow> newlines True xs = newlines False xs"
  by (cases xs) auto

lemma newlines_line_end:
  assumes "nl \<in> set line_ends" "xs = [] \<or> hd xs \<noteq> CHR 0x0A"
  shows "newlines False (nl @ xs) = CHR 0x0A # newlines False xs"
  using assms newlines_cr [of xs] by (auto simp: line_ends_def)

lemma universal_newlines_idem [simp]:
  "universal_newlines (universal_newlines xs) = universal_newlines xs"
proof -
  have "CHR 0x0D \<notin> set (newlines cr xs)" for cr
    by (induction xs arbitrary: cr) simp_all
  then show ?thesis
    by (simp add: universal_newlines_def newlines_no_cr)
qed

section \<open>Lines\<close>

lemma file_lines_line:
  "CHR 0x0A \<notin> set l \<Longrightarrow> file_lines (l @ CHR 0x0A # rest) = (l @ [CHR 0x0A]) # file_lines rest"
  by (induction l) auto

lemma file_lines_eq_Nil [simp]: "file_lines l = [] \<longleftrightarrow> l = []"
  by (cases l) (auto split: list.split)

lemma file_lines_last: "CHR 0x0A \<notin> set l \<Longrightarrow> l \<noteq> [] \<Longrightarrow> file_lines l = [l]"
proof (induction l)
  case (Cons c l)
  then show ?case
    by (cases "l = []") auto
qed simp

lemma file_lines_concat:
  "\<forall>l \<in> set ls. CHR 0x0A \<notin> set l \<Longrightarrow>
   file_lines (concat (map (\<lambda>l. l @ [CHR 0x0A]) ls)) = map (\<lambda>l. l @ [CHR 0x0A]) ls"
  by (induction ls) (simp_all add: file_lines_line)

lemma concat_file_lines: "concat (file_lines content) = content"
  by (induction content) (auto split: list.split)

section \<open>The loop and the call of open\<close>

lemma load_lines_eq: "load_lines ls = map_sum id init (map_result parse_line ls)"
  by (cases "map_result parse_line ls") (simp_all add: load_lines_def for_each_append_body)

lemma load_from_file_None: "fs name = None \<Longrightarrow> load_from_file fs name = Inl OSError"
  by (simp add: load_from_file_def open_text_def)

lemma load_from_file_Some:
  "fs name = Some content \<Longrightarrow>
   load_from_file fs name =
     map_sum id init (map_result parse_line (file_lines (universal_newlines content)))"
  by (simp add: load_from_file_def open_text_def load_lines_eq)


lemma parse_line_error: "parse_line l = Inl e \<Longrightarrow> e = ValueError"
  unfolding parse_line_def by (auto dest!: map_result_InlD py_int_error)

lemma parse_lines_error: "map_result parse_line ls = Inl e \<Longrightarrow> e = ValueError"
  by (auto dest!: map_result_InlD parse_line_error)

lemma succeeds_parse_lines:
  "succeeds (map_result parse_line (file_lines content)) \<longleftrightarrow> fields_ok content"
  by (simp add: fields_ok_def fields_def list_all_iff parse_line_def succeeds_map_result)

lemma parse_lines_fields:
  assumes "map_result parse_line (file_lines content) = Inr g"
  shows "list_all2 (list_all2 (\<lambda>f v. py_int f = Inr v)) (fields content) g"
  using assms
  by (simp add: map_result_Inr_iff parse_line_def fields_def list_all2_map1)

section \<open>Reading what was written\<close>

lemma csv_fields:
  assumes "row \<noteq> []"
  shows "py_strip (csv_row row) = join '','' (map str_int row)"
    and "py_split CHR '','' (join '','' (map str_int row)) = map str_int row"
proof -
  from assms show "py_strip (csv_row row) = join '','' (map str_int row)"
    unfolding csv_row_def
    by (intro py_strip_line) (simp_all add: join_nonempty hd_join last_join hd_map last_map)
  from assms show "py_split CHR '','' (join '','' (map str_int row)) = map str_int row"
    by (intro py_split_join) auto
qed

lemma map_result_py_int: "map_result py_int (map str_int row) = Inr row"
  by (induction row) simp_all

lemma parse_csv_row: "row \<noteq> [] \<Longrightarrow> parse_line (csv_row row) = Inr row"
  by (simp add: parse_line_def csv_fields map_result_py_int)

lemma csv_row_chars:
  "CHR 0x0A \<notin> set (join '','' (map str_int row))" "CHR 0x0D \<notin> set (join '','' (map str_int row))"
  using set_join_subset [of "'',''" "map str_int row"] by auto

lemma file_lines_csv_text: "file_lines (csv_text s) = map csv_row (grid s)"
proof -
  have "file_lines (concat (map csv_row g)) = map csv_row g" for g
    by (induction g) (simp_all add: csv_row_def file_lines_line csv_row_chars)
  then show ?thesis
    by (simp add: csv_text_def)
qed

lemma parse_csv_text:
  assumes "\<forall>row \<in> set (grid s). row \<noteq> []"
  shows "map_result parse_line (file_lines (csv_text s)) = Inr (grid s)"
proof -
  have "\<forall>row \<in> set g. row \<noteq> [] \<Longrightarrow> map_result parse_line (map csv_row g) = Inr g" for g
    by (induction g) (simp_all add: parse_csv_row)
  with assms show ?thesis
    by (simp add: file_lines_csv_text)
qed

lemma hd_csv_row:
  assumes "row \<noteq> []"
  shows "join '','' (map str_int row) \<noteq> []" "hd (join '','' (map str_int row)) \<noteq> CHR 0x0A"
proof -
  from assms show ne: "join '','' (map str_int row) \<noteq> []"
    by (simp add: join_nonempty last_map)
  from hd_in_set [OF ne] csv_row_chars(1) [of row]
  show "hd (join '','' (map str_int row)) \<noteq> CHR 0x0A"
    by metis
qed

lemma universal_newlines_csv_text:
  assumes "\<forall>row \<in> set (grid s). row \<noteq> []" "nl \<in> set line_ends"
  shows "universal_newlines (csv_text_with nl s) = csv_text s"
proof -
  let ?l = "\<lambda>row. join '','' (map str_int row)"
  have "newlines False (concat (map (\<lambda>row. ?l row @ nl) g)) = concat (map csv_row g) \<and>
      (concat (map (\<lambda>row. ?l row @ nl) g) = [] \<or>
       hd (concat (map (\<lambda>row. ?l row @ nl) g)) \<noteq> CHR 0x0A)"
    if "\<forall>row \<in> set g. row \<noteq> []" for g
    using that
  proof (induction g)
    case (Cons row g)
    then have "row \<noteq> []"
      by simp
    with Cons assms(2) show ?case
      by (simp add: newlines_append newlines_line_end csv_row_chars hd_csv_row csv_row_def)
  qed simp
  with assms(1) show ?thesis
    by (simp add: universal_newlines_def csv_text_with_def csv_text_def)
qed

lemma load_csv:
  assumes "\<forall>row \<in> set (grid s). row \<noteq> []" "nl \<in> set line_ends"
    and "fs name = Some (csv_text_with nl s)"
  shows "load_from_file fs name = Inr s"
  using assms
  by (simp add: load_from_file_Some universal_newlines_csv_text parse_csv_text init_def)

text \<open>
  C12. The loader reads back what the comma-separated format writes: for every board
  whose rows are not empty, whatever its shape and its values, and for each of the
  line ends \<^verbatim>\<open>\n\<close>, \<^verbatim>\<open>\r\n\<close> and \<^verbatim>\<open>\r\<close>, \<^verbatim>\<open>load_from_file\<close> of a file that holds
  one line per row, the values of a row separated by commas, returns that board.
\<close>

theorem load_csv_text:
  assumes "\<forall>row \<in> set (grid s). row \<noteq> []" "nl \<in> set line_ends"
    and "fs name = Some (csv_text_with nl s)"
  shows "load_from_file fs name = Inr s"
  using assms by (rule load_csv)

theorem load_csv_text_witness:
  "csv_text_with [CHR 0x0D, CHR 0x0A] (init [[5, 3, 0], [- 6, 10, 0]]) =
     ''5,3,0'' @ [CHR 0x0D, CHR 0x0A] @ ''-6,10,0'' @ [CHR 0x0D, CHR 0x0A] \<and>
   load_from_file (one_file (''5,3,0'' @ [CHR 0x0D, CHR 0x0A] @ ''-6,10,0'' @ [CHR 0x0D, CHR 0x0A]))
     ''puzzle.csv'' = Inr (init [[5, 3, 0], [- 6, 10, 0]])"
proof -
  have "csv_text_with [CHR 0x0D, CHR 0x0A] (init [[5, 3, 0], [- 6, 10, 0]]) =
      ''5,3,0'' @ [CHR 0x0D, CHR 0x0A] @ ''-6,10,0'' @ [CHR 0x0D, CHR 0x0A]"
    by (simp add: csv_text_with_def init_def str_eval)
  moreover have "load_from_file
      (one_file (''5,3,0'' @ [CHR 0x0D, CHR 0x0A] @ ''-6,10,0'' @ [CHR 0x0D, CHR 0x0A]))
      ''puzzle.csv'' = Inr (init [[5, 3, 0], [- 6, 10, 0]])"
    by (simp add: load_eval str_eval)
  ultimately show ?thesis
    using load_csv_text [of "init [[5, 3, 0], [- 6, 10, 0]]" "[CHR 0x0D, CHR 0x0A]"
      "one_file (''5,3,0'' @ [CHR 0x0D, CHR 0x0A] @ ''-6,10,0'' @ [CHR 0x0D, CHR 0x0A])"
      "''puzzle.csv''"]
    by (simp only: simp_thms)
qed

section \<open>Reading what \<^verbatim>\<open>__str__\<close> writes\<close>

lemma row_text_chars:
  "CHR '','' \<notin> set (row_text row)" "CHR 0x0A \<notin> set (row_text row)"
  "CHR 0x0D \<notin> set (row_text row)"
  using set_join_subset [of "'' ''" "map str_int row"] by (auto simp: row_text_def)

lemma board_text_no_cr: "CHR 0x0D \<notin> set (board_text s)"
  using set_join_subset [of "[CHR 0x0A]" "map row_text (grid s)"]
  by (auto simp: board_text_def row_text_chars)

lemma space_in_row_text: "2 \<le> length row \<Longrightarrow> CHR '' '' \<in> set (row_text row)"
  by (erule length_ge_2E) (simp add: row_text_def)

lemma parse_row_text:
  assumes "2 \<le> length row"
  shows "parse_line (row_text row @ [CHR 0x0A]) = Inl ValueError"
proof -
  from assms have ne: "row \<noteq> []"
    by auto
  have "py_strip (row_text row @ [CHR 0x0A]) = row_text row"
    by (intro py_strip_line row_text_ends ne) simp
  moreover have "py_int (row_text row) = Inl ValueError"
    using row_text_ends [OF ne]
    by (intro py_int_inner_space space_in_row_text assms) (auto dest: is_int_space_is_space)
  ultimately show ?thesis
    by (simp add: parse_line_def py_split_no_sep row_text_chars)
qed

text \<open>
  C30. The loader does not read the text \<^verbatim>\<open>__str__\<close> writes: for every 9 by 9 board
  \<^verbatim>\<open>load_from_file\<close> of a file that holds that text raises \<^verbatim>\<open>ValueError\<close>, because
  the values of a line are separated by spaces and not by commas.
\<close>

theorem load_str_sudoku:
  assumes "wf_board s" "fs name = Some (str_sudoku s)"
  shows "load_from_file fs name = Inl ValueError"
proof -
  from assms(1) have len: "length (grid s) = 9" "\<forall>row \<in> set (grid s). length row = 9"
    by (simp_all add: wf_board_def wf_grid_def list_all_iff)
  then have "2 \<le> length (grid s)"
    by simp
  then obtain r0 r1 rest where g: "grid s = r0 # r1 # rest"
    by (rule length_ge_2E)
  with len have "parse_line (row_text r0 @ [CHR 0x0A]) = Inl ValueError"
    by (intro parse_row_text) simp
  moreover have "file_lines (board_text s) =
      (row_text r0 @ [CHR 0x0A]) # file_lines (join [CHR 0x0A] (map row_text (r1 # rest)))"
    by (simp add: board_text_def g file_lines_line row_text_chars)
  ultimately show ?thesis
    using assms by (simp add: load_from_file_Some wf_str_sudoku board_text_no_cr)
qed

theorem load_str_sudoku_witness:
  "wf_board sample_board \<and>
   load_from_file (one_file (str_sudoku sample_board)) ''puzzle.csv'' = Inl ValueError \<and>
   load_from_file (one_file (csv_text_with [CHR 0x0A] sample_board)) ''puzzle.csv'' =
     Inr sample_board"
proof -
  have wf: "wf_board sample_board"
    by (simp add: board_examples init_def wf_board_def wf_grid_def)
  have "load_from_file (one_file (csv_text_with [CHR 0x0A] sample_board)) ''puzzle.csv'' =
      Inr sample_board"
    by (rule load_csv [of _ "[CHR 0x0A]"])
      (simp_all add: board_examples init_def line_ends_def one_file_def)
  with load_str_sudoku [OF wf, of "one_file (str_sudoku sample_board)" "''puzzle.csv''"] wf
  show ?thesis
    by (simp add: one_file_def)
qed

section \<open>What the loader accepts\<close>

text \<open>
  C20. The exceptions of the loader. It raises \<^verbatim>\<open>OSError\<close> exactly when \<^verbatim>\<open>open\<close>
  does, \<^verbatim>\<open>ValueError\<close> exactly when the file opens and some field of some line is
  not an integer literal, and nothing else; it returns in every other case, so it
  checks neither the number of lines, nor the number of fields of a line, nor the
  range of a value.
\<close>

theorem load_from_file_accepts:
  "(succeeds (load_from_file fs name) \<longleftrightarrow>
      (\<exists>content. fs name = Some content \<and> fields_ok (universal_newlines content))) \<and>
   (load_from_file fs name = Inl OSError \<longleftrightarrow> fs name = None) \<and>
   (load_from_file fs name = Inl ValueError \<longleftrightarrow>
      (\<exists>content. fs name = Some content \<and> \<not> fields_ok (universal_newlines content))) \<and>
   load_from_file fs name \<noteq> Inl IndexError"
proof (cases "fs name")
  case None
  then show ?thesis
    by (simp add: load_from_file_None)
next
  case (Some content)
  let ?r = "map_result parse_line (file_lines (universal_newlines content))"
  from succeeds_parse_lines [of "universal_newlines content"]
    parse_lines_error [of "file_lines (universal_newlines content)"]
  show ?thesis
    by (cases ?r) (auto simp: load_from_file_Some [of fs name content] Some)
qed

theorem load_from_file_accepts_witness:
  "load_from_file (one_file (''1,2'' @ [CHR 0x0A] @ ''3'')) ''puzzle.csv'' =
     Inr (init [[1, 2], [3]]) \<and>
   \<not> wf_board (init [[1, 2], [3]]) \<and> fields_ok (''1,2'' @ [CHR 0x0A] @ ''3'') \<and>
   load_from_file (one_file (''1,2'' @ [CHR 0x0A, CHR 0x0A] @ ''3'')) ''puzzle.csv'' =
     Inl ValueError \<and>
   load_from_file (one_file ''12,-3'') ''puzzle.csv'' = Inr (init [[12, - 3]]) \<and>
   \<not> digits_ok (init [[12, - 3]]) \<and>
   load_from_file (one_file []) ''puzzle.csv'' = Inr (init []) \<and>
   load_from_file (one_file []) ''other.csv'' = Inl OSError"
proof -
  have "load_from_file (one_file (''1,2'' @ [CHR 0x0A] @ ''3'')) ''puzzle.csv'' =
      Inr (init [[1, 2], [3]])"
    "load_from_file (one_file (''1,2'' @ [CHR 0x0A, CHR 0x0A] @ ''3'')) ''puzzle.csv'' =
      Inl ValueError"
    "load_from_file (one_file ''12,-3'') ''puzzle.csv'' = Inr (init [[12, - 3]])"
    "load_from_file (one_file []) ''puzzle.csv'' = Inr (init [])"
    "load_from_file (one_file []) ''other.csv'' = Inl OSError"
    by (simp_all add: load_eval str_eval)
  moreover from this(1)
    load_from_file_accepts [of "one_file (''1,2'' @ [CHR 0x0A] @ ''3'')" "''puzzle.csv''"]
  have "fields_ok (''1,2'' @ [CHR 0x0A] @ ''3'')"
    by (simp add: one_file_def)
  ultimately show ?thesis
    by (simp add: init_def wf_board_def wf_grid_def digits_ok_def is_digit_def)
qed

text \<open>
  C21. The board the loader builds. When \<^verbatim>\<open>load_from_file\<close> returns, the board has
  one row per line of the file and one cell per comma-separated field of the line,
  each cell the integer \<^verbatim>\<open>int\<close> reads from its field; so the board is 9 by 9 exactly
  when the file has nine lines of nine fields.
\<close>

theorem load_from_file_shape:
  assumes "load_from_file fs name = Inr s" "fs name = Some content"
  shows "list_all2 (list_all2 (\<lambda>f v. py_int f = Inr v))
           (fields (universal_newlines content)) (grid s) \<and>
         (wf_board s \<longleftrightarrow> map length (fields (universal_newlines content)) = replicate 9 9)"
proof -
  let ?ls = "file_lines (universal_newlines content)"
  from assms obtain g where g: "map_result parse_line ?ls = Inr g" and s: "s = init g"
    by (cases "map_result parse_line ?ls") (auto simp: load_from_file_Some)
  from parse_lines_fields [OF g]
  have f: "list_all2 (list_all2 (\<lambda>f v. py_int f = Inr v)) (fields (universal_newlines content)) g" .
  then have "map length (fields (universal_newlines content)) = map length g"
    by (induction rule: list_all2_induct) (auto dest: list_all2_lengthD)
  with f show ?thesis
    by (simp add: s init_def wf_board_def wf_grid_iff)
qed

theorem load_from_file_shape_witness:
  "load_from_file (one_file (''1,2'' @ [CHR 0x0D] @ ''3'')) ''puzzle.csv'' =
     Inr (init [[1, 2], [3]]) \<and>
   fields (universal_newlines (''1,2'' @ [CHR 0x0D] @ ''3'')) = [[''1'', ''2''], [''3'']] \<and>
   \<not> wf_board (init [[1, 2], [3]]) \<and> py_int ''3'' = Inr 3"
proof -
  have l: "load_from_file (one_file (''1,2'' @ [CHR 0x0D] @ ''3'')) ''puzzle.csv'' =
      Inr (init [[1, 2], [3]])"
    and f: "fields (universal_newlines (''1,2'' @ [CHR 0x0D] @ ''3'')) = [[''1'', ''2''], [''3'']]"
    by (simp_all add: load_eval fields_def str_eval)
  have "\<not> wf_board (init [[1, 2], [3]])"
    by (simp add: init_def wf_board_def wf_grid_def)
  with load_from_file_shape [OF l, of "''1,2'' @ [CHR 0x0D] @ ''3''"] l f show ?thesis
    by (simp add: one_file_def init_def)
qed

section \<open>White space around the fields\<close>

lemma space_not_comma:
  assumes "list_all is_space a"
  shows "CHR '','' \<notin> set a"
proof
  assume "CHR '','' \<in> set a"
  with assms have "is_space CHR '',''"
    by (simp add: list_all_iff)
  then show False
    by (simp add: is_space_def)
qed

lemma list_ends:
  assumes "xs \<noteq> []" "length xs \<noteq> 1"
  obtains x ys y where "xs = x # ys @ [y]"
proof (cases xs)
  case (Cons x zs)
  with assms have "zs \<noteq> []"
    by auto
  then obtain ys y where "zs = ys @ [y]"
    by (cases zs rule: rev_cases) auto
  with Cons that show ?thesis
    by simp
qed (use assms in simp)

lemma parse_line_fields:
  assumes "py_strip line = join '','' fs" "fs \<noteq> []" "\<forall>f \<in> set fs. CHR '','' \<notin> set f"
  shows "parse_line line = map_result py_int fs"
  using assms by (simp add: parse_line_def py_split_join)

lemma padded_line_strip:
  assumes "list_all is_space a" "list_all is_space b" "list_all is_space nl"
  shows "py_strip (join '','' (map (\<lambda>i. a @ str_int i @ b) (x # ys @ [y])) @ nl) =
     join '','' ((str_int x @ b) # map (\<lambda>i. a @ str_int i @ b) ys @ [a @ str_int y])"
    (is "py_strip ?line = join _ ?fs")
proof -
  have "?line = a @ join '','' ?fs @ (b @ nl)"
    using join_padded [of "'',''" a "str_int x @ b" "map (\<lambda>i. a @ str_int i @ b) ys"
        "a @ str_int y" b]
    by simp
  moreover have "join '','' ?fs \<noteq> []" "\<not> is_space (hd (join '','' ?fs))"
    by (simp_all add: join_Cons)
  moreover have "\<not> is_space (last (join '','' ?fs))"
    using last_join [of ?fs "'',''"] by simp
  ultimately show ?thesis
    using assms by (simp add: py_strip_padded)
qed

lemma parse_padded_fields:
  assumes "list_all is_space a" "list_all is_space b"
  shows "map_result py_int ((str_int x @ b) # map (\<lambda>i. a @ str_int i @ b) ys @ [a @ str_int y]) =
     (if set (a @ b) \<inter> {CHR 0x1C, CHR 0x1D, CHR 0x1E, CHR 0x1F} = {} then Inr (x # ys @ [y])
      else Inl ValueError)"
    (is "map_result _ ?fs = _")
proof (cases "set (a @ b) \<inter> {CHR 0x1C, CHR 0x1D, CHR 0x1E, CHR 0x1F} = {}")
  case True
  with assms have "list_all2 (\<lambda>f v. py_int f = Inr v) ?fs (x # ys @ [y])"
    using py_int_padding [of "[]" b x] py_int_padding [of a "[]" y]
    by (auto simp: py_int_padding list_all2_map1 intro!: list_all2_appendI list_all2_refl)
  with True show ?thesis
    by (simp only: simp_thms if_True map_result_Inr_iff)
next
  case False
  with assms have "py_int (str_int x @ b) = Inl ValueError \<or> py_int (a @ str_int y) = Inl ValueError"
    using py_int_padding [of "[]" b x] py_int_padding [of a "[]" y] by auto
  then have "\<exists>f \<in> set ?fs. py_int f = Inl ValueError"
    by auto
  then have "map_result py_int ?fs = Inl ValueError"
    by (simp only: map_result_Inl_iff [OF py_int_error])
  with False show ?thesis
    by (simp only: if_False)
qed

text \<open>
  C35. White space around the fields. \<^verbatim>\<open>line.strip()\<close> removes more characters than
  \<^verbatim>\<open>int\<close> skips, so the same padding is accepted at the ends of a line and refused
  inside it: when every field of a line is an integer written by \<^verbatim>\<open>str\<close> between
  white space of \<^verbatim>\<open>strip\<close>, the line is read as those integers when it has one
  field or the padding holds none of the separators U+001C to U+001F, and raises
  \<^verbatim>\<open>ValueError\<close> otherwise.
\<close>

theorem parse_line_white_space:
  assumes "list_all is_space a" "list_all is_space b" "list_all is_space nl" "row \<noteq> []"
  shows "parse_line (join '','' (map (\<lambda>i. a @ str_int i @ b) row) @ nl) =
     (if length row = 1 \<or> set (a @ b) \<inter> {CHR 0x1C, CHR 0x1D, CHR 0x1E, CHR 0x1F} = {}
      then Inr row else Inl ValueError)"
proof (cases "length row = 1")
  case True
  then obtain x where row: "row = [x]"
    by (cases row) auto
  have "py_strip (a @ str_int x @ b @ nl) = str_int x"
    by (rule py_strip_padded [of a "b @ nl" "str_int x"]) (use assms in simp_all)
  then show ?thesis
    by (simp add: row parse_line_def py_split_no_sep)
next
  case False
  with assms(4) obtain x ys y where row: "row = x # ys @ [y]"
    by (rule list_ends)
  let ?fs = "(str_int x @ b) # map (\<lambda>i. a @ str_int i @ b) ys @ [a @ str_int y]"
  from assms have "\<forall>f \<in> set ?fs. CHR '','' \<notin> set f"
    by (auto dest: space_not_comma)
  then have "parse_line (join '','' (map (\<lambda>i. a @ str_int i @ b) (x # ys @ [y])) @ nl) =
      map_result py_int ?fs"
    by (intro parse_line_fields padded_line_strip assms) simp_all
  then show ?thesis
    unfolding row parse_padded_fields [OF assms(1,2)] by simp
qed

theorem parse_line_white_space_witness:
  "list_all is_space [CHR 0x1C] \<and>
   parse_line (CHR 0x1C # ''5'' @ [CHR 0x1C, CHR 0x0A]) = Inr [5] \<and>
   parse_line (CHR 0x1C # ''5'' @ [CHR 0x1C] @ '','' @ [CHR 0x1C] @ ''3'' @ [CHR 0x1C, CHR 0x0A]) =
     Inl ValueError \<and>
   parse_line ([CHR 0xA0] @ ''5'' @ [CHR 0x09] @ '','' @ [CHR 0xA0] @ ''3'' @ [CHR 0x09, CHR 0x0A]) =
     Inr [5, 3]"
proof -
  have sp: "list_all is_space [CHR 0x1C]" "list_all is_space [CHR 0x0A]" "[5, 3] \<noteq> ([]::int list)"
    by (simp_all add: is_space_def)
  have ev: "parse_line (CHR 0x1C # ''5'' @ [CHR 0x1C, CHR 0x0A]) = Inr [5]"
    "parse_line ([CHR 0xA0] @ ''5'' @ [CHR 0x09] @ '','' @ [CHR 0xA0] @ ''3'' @ [CHR 0x09, CHR 0x0A]) =
       Inr [5, 3]"
    by (simp_all add: parse_line_def str_eval)
  have "parse_line (CHR 0x1C # ''5'' @ [CHR 0x1C] @ '','' @ [CHR 0x1C] @ ''3'' @ [CHR 0x1C, CHR 0x0A]) =
      Inl ValueError"
    using parse_line_white_space [OF sp(1) sp(1) sp(2) sp(3)] by (simp add: str_eval)
  with sp(1) ev show ?thesis
    by (simp only: simp_thms)
qed

end
