(* ===== verification/Heap_Board.thy ===== *)
theory Heap_Board
  imports Board_Queries Render
begin

text \<open>
  The class with Python's references. \<^verbatim>\<open>__init__\<close> stores the list it is given,
  not a copy, and that list holds references to its rows; two rows may be the same
  object, as in \<^verbatim>\<open>[[0] * 9] * 9\<close>. A \<open>pyheap\<close> gives every reference the list object
  it names (\<open>row_at\<close> for lists of integers, \<open>grid_at\<close> for lists of references to
  such lists), the state of a \<^verbatim>\<open>Sudoku\<close> is the reference in \<^verbatim>\<open>_grid\<close>, and a method
  that mutates returns the new heap. Every method of the class is translated again,
  over the heap (\<open>h_place\<close>, \<open>h_value_at\<close>, ..., \<open>h_str_sudoku\<close>); \<^verbatim>\<open>row_values\<close>
  returns a reference, \<^verbatim>\<open>column_values\<close> and \<^verbatim>\<open>block_values\<close> build new lists.
  \<open>snapshot\<close> reads the board of \<open>Board\<close> off the heap.

  The theory shows that reading agrees with the value model on every heap, that
  writing agrees with it exactly as far as the rows are distinct objects, and what a
  write does when they are not.
\<close>

section \<open>Heaps and the methods on them\<close>

type_synonym ref = nat

record pyheap =
  row_at :: "ref \<Rightarrow> int list"
  grid_at :: "ref \<Rightarrow> ref list"

record hsudoku =
  grid_ref :: ref

definition h_init :: "ref \<Rightarrow> hsudoku" where
  "h_init puzzle = \<lparr>grid_ref = puzzle\<rparr>"

definition h_get_cell :: "pyheap \<Rightarrow> hsudoku \<Rightarrow> int \<Rightarrow> int \<Rightarrow> int result" where
  "h_get_cell h s x y =
     bind_result (py_get (grid_at h (grid_ref s)) y) (\<lambda>r. py_get (row_at h r) x)"

definition h_set_cell :: "pyheap \<Rightarrow> hsudoku \<Rightarrow> int \<Rightarrow> int \<Rightarrow> int \<Rightarrow> pyheap result" where
  "h_set_cell h s x y v =
     bind_result (py_get (grid_at h (grid_ref s)) y) (\<lambda>r.
     bind_result (py_set (row_at h r) x v) (\<lambda>row'.
     Inr (h\<lparr>row_at := (row_at h)(r := row')\<rparr>)))"

definition h_place :: "pyheap \<Rightarrow> hsudoku \<Rightarrow> int \<Rightarrow> int \<Rightarrow> int \<Rightarrow> pyheap result" where
  "h_place h s v x y = h_set_cell h s x y v"

definition h_unplace :: "pyheap \<Rightarrow> hsudoku \<Rightarrow> int \<Rightarrow> int \<Rightarrow> pyheap result" where
  "h_unplace h s x y = h_set_cell h s x y 0"

definition h_value_at :: "pyheap \<Rightarrow> hsudoku \<Rightarrow> int \<Rightarrow> int \<Rightarrow> int result" where
  "h_value_at h s x y = h_get_cell h s x y"

definition h_row_values :: "pyheap \<Rightarrow> hsudoku \<Rightarrow> int \<Rightarrow> ref result" where
  "h_row_values h s i = py_get (grid_at h (grid_ref s)) i"

definition h_column_values :: "pyheap \<Rightarrow> hsudoku \<Rightarrow> int \<Rightarrow> int list result" where
  "h_column_values h s i =
     for_each (grid_at h (grid_ref s)) [] (\<lambda>r values.
       bind_result (py_get (row_at h r) i) (\<lambda>v. Inr (values @ [v])))"

definition h_block_values :: "pyheap \<Rightarrow> hsudoku \<Rightarrow> int \<Rightarrow> int list result" where
  "h_block_values h s i =
     (let x_start = (i mod 3) * 3;
          y_start = (i div 3) * 3
      in for_each (py_range x_start (x_start + 3)) [] (\<lambda>x values.
           for_each (py_range y_start (y_start + 3)) values (\<lambda>y values.
             bind_result (h_get_cell h s x y) (\<lambda>v. Inr (values @ [v])))))"

definition h_options_at :: "pyheap \<Rightarrow> hsudoku \<Rightarrow> int \<Rightarrow> int \<Rightarrow> int set result" where
  "h_options_at h s x y =
     bind_result (h_row_values h s y) (\<lambda>row.
     bind_result (h_column_values h s x) (\<lambda>column.
     bind_result (h_block_values h s (block_index x y)) (\<lambda>block.
     for_each (py_range 1 10) {} (\<lambda>v options.
       Inr (if v \<notin> set (row_at h row) \<and> v \<notin> set column \<and> v \<notin> set block
            then insert v options else options)))))"

definition h_next_empty_index :: "pyheap \<Rightarrow> hsudoku \<Rightarrow> (int \<times> int) result" where
  "h_next_empty_index h s =
     bind_result
       (for_first (py_range 0 9) (\<lambda>y.
          for_first (py_range 0 9) (\<lambda>x.
            bind_result (h_get_cell h s x y) (\<lambda>v.
              Inr (if v = 0 then Some (x, y) else None)))))
       (\<lambda>found. Inr (case found of Some p \<Rightarrow> p | None \<Rightarrow> (- 1, - 1)))"

definition h_is_solved :: "pyheap \<Rightarrow> hsudoku \<Rightarrow> bool" where
  "h_is_solved h s =
     (if 0 \<in> set (concat (map (row_at h) (grid_at h (grid_ref s)))) then False else True)"

definition h_str_sudoku :: "pyheap \<Rightarrow> hsudoku \<Rightarrow> string" where
  "h_str_sudoku h s =
     py_strip (foldl (\<lambda>representation r. representation @ render_row (row_at h r)) []
       (grid_at h (grid_ref s)))"

section \<open>Reference\<close>

definition row_refs :: "pyheap \<Rightarrow> hsudoku \<Rightarrow> ref list" where
  "row_refs h s = grid_at h (grid_ref s)"

definition snapshot :: "pyheap \<Rightarrow> hsudoku \<Rightarrow> sudoku" where
  "snapshot h s = init (map (row_at h) (row_refs h s))"

definition unshared :: "pyheap \<Rightarrow> hsudoku \<Rightarrow> bool" where
  "unshared h s \<longleftrightarrow> distinct (row_refs h s)"

definition zeros_heap :: pyheap where
  "zeros_heap = \<lparr>row_at = (\<lambda>r. [0, 0, 0]), grid_at = (\<lambda>r. [1, 1, 1])\<rparr>"

definition rows_heap :: pyheap where
  "rows_heap = \<lparr>row_at = (\<lambda>r. [0, 0, 0]), grid_at = (\<lambda>r. [1, 2, 3])\<rparr>"

lemmas heap_defs =
  h_init_def h_get_cell_def h_set_cell_def h_place_def h_unplace_def h_value_at_def
  h_row_values_def h_column_values_def h_block_values_def h_options_at_def
  h_next_empty_index_def h_is_solved_def h_str_sudoku_def row_refs_def snapshot_def

section \<open>Reading\<close>

lemma py_get_map: "py_get (map f xs) i = map_sum id f (py_get xs i)"
  by (simp add: py_get_eq)

lemma grid_snapshot [simp]: "grid (snapshot h s) = map (row_at h) (row_refs h s)"
  by (simp add: snapshot_def init_def)

lemma h_get_cell_snapshot: "h_get_cell h s x y = get_cell (grid (snapshot h s)) x y"
  by (cases "py_get (row_refs h s) y")
    (simp_all add: h_get_cell_def get_cell_def py_get_map row_refs_def [symmetric])

lemma h_value_at_snapshot: "h_value_at h s x y = value_at (snapshot h s) x y"
  by (simp add: h_value_at_def value_at_def h_get_cell_snapshot)

lemma h_row_values_snapshot:
  "map_sum id (row_at h) (h_row_values h s i) = row_values (snapshot h s) i"
  by (simp add: h_row_values_def row_values_def py_get_map row_refs_def)

lemma h_column_values_snapshot: "h_column_values h s i = column_values (snapshot h s) i"
  by (simp add: h_column_values_def column_values_eq for_each_append_body map_result_map
      row_refs_def)

section \<open>Writing\<close>

lemma h_set_cell_eq:
  "h_set_cell h s x y v =
     (let refs = row_refs h s; r = refs ! pos (length refs) y; row = row_at h r
      in if index_ok (length refs) y \<and> index_ok (length row) x
         then Inr (h\<lparr>row_at := (row_at h)(r := row[pos (length row) x := v])\<rparr>)
         else Inl IndexError)"
  by (simp add: h_set_cell_def row_refs_def py_get_eq py_set_eq Let_def)

lemma h_set_cell_Inr:
  assumes "h_set_cell h s x y v = Inr h'"
  shows "row_refs h' s = row_refs h s"
    and "row_at h' = (row_at h)(row_refs h s ! pos (length (row_refs h s)) y :=
           (row_at h (row_refs h s ! pos (length (row_refs h s)) y))
             [pos (length (row_at h (row_refs h s ! pos (length (row_refs h s)) y))) x := v])"
    and "index_ok (length (row_refs h s)) y"
    and "index_ok (length (row_at h (row_refs h s ! pos (length (row_refs h s)) y))) x"
  using assms by (auto simp: h_set_cell_eq Let_def row_refs_def split: if_splits)

lemma map_fun_upd_distinct:
  "distinct xs \<Longrightarrow> k < length xs \<Longrightarrow> map (f(xs ! k := v)) xs = (map f xs)[k := v]"
  by (auto simp: list_eq_iff_nth_eq nth_list_update nth_eq_iff_index_eq)

lemma set_cell_snapshot:
  assumes "unshared h s"
  shows "map_sum id (\<lambda>h'. grid (snapshot h' s)) (h_set_cell h s x y v) =
         set_cell (grid (snapshot h s)) x y v"
proof (cases "h_set_cell h s x y v")
  case (Inl e)
  then show ?thesis
    by (auto simp: h_set_cell_eq set_cell_eq cell_ok_def row_of_def Let_def split: if_splits)
next
  case (Inr h')
  note w = h_set_cell_Inr [OF Inr]
  from w(3) have k: "pos (length (row_refs h s)) y < length (row_refs h s)"
    by (rule pos_less)
  from assms k have "grid (snapshot h' s) = upd_cell (grid (snapshot h s)) x y v"
    by (simp add: w(1,2) unshared_def map_fun_upd_distinct upd_cell_def upd_at_def row_of_def
        col_of_def)
  with Inr w(3,4) k show ?thesis
    by (simp add: set_cell_eq cell_ok_def row_of_def)
qed

lemma unshared_h_set_cell:
  "h_set_cell h s x y v = Inr h' \<Longrightarrow> unshared h' s \<longleftrightarrow> unshared h s"
  by (simp add: unshared_def h_set_cell_Inr(1))

lemma place_snapshot:
  assumes "unshared h s"
  shows "map_sum id (\<lambda>h'. snapshot h' s) (h_set_cell h s x y v) = place (snapshot h s) v x y"
proof -
  from set_cell_snapshot [OF assms, of x y v]
  have "set_cell (grid (snapshot h s)) x y v =
      map_sum id (\<lambda>h'. grid (snapshot h' s)) (h_set_cell h s x y v)"
    by simp
  then show ?thesis
    unfolding place_def
    by (cases "h_set_cell h s x y v") (simp_all add: snapshot_def init_def)
qed

section \<open>Properties of the heap model\<close>

lemma h_block_values_snapshot: "h_block_values h s i = block_values (snapshot h s) i"
  by (simp add: h_block_values_def block_values_def h_get_cell_snapshot)

lemma h_next_empty_index_snapshot: "h_next_empty_index h s = next_empty_index (snapshot h s)"
  by (simp add: h_next_empty_index_def next_empty_index_def h_get_cell_snapshot)

lemma h_is_solved_snapshot: "h_is_solved h s = is_solved (snapshot h s)"
  by (simp add: h_is_solved_def is_solved_def row_refs_def)

lemma h_str_sudoku_snapshot: "h_str_sudoku h s = str_sudoku (snapshot h s)"
  by (simp add: h_str_sudoku_def str_sudoku_def row_refs_def foldl_map)

lemma h_options_at_snapshot: "h_options_at h s x y = options_at (snapshot h s) x y"
proof (cases "h_row_values h s y")
  case (Inl e)
  with h_row_values_snapshot [of h s y] have "row_values (snapshot h s) y = Inl e"
    by simp
  with Inl show ?thesis
    by (simp add: h_options_at_def options_at_def)
next
  case (Inr r)
  with h_row_values_snapshot [of h s y] have "row_values (snapshot h s) y = Inr (row_at h r)"
    by simp
  with Inr show ?thesis
    by (simp add: h_options_at_def options_at_def h_column_values_snapshot
        h_block_values_snapshot)
qed

lemmas h_read_snapshot =
  h_value_at_snapshot h_column_values_snapshot h_block_values_snapshot h_options_at_snapshot
  h_next_empty_index_snapshot h_is_solved_snapshot h_str_sudoku_snapshot

text \<open>
  C25. On a heap in which the rows of the board are distinct objects the methods on
  the heap do what the value model says: \<^verbatim>\<open>place\<close> and \<^verbatim>\<open>unplace\<close> raise when it
  raises and otherwise leave a heap whose board is the board it returns and whose
  rows are still distinct objects. The methods that only read agree with the value
  model on every heap, and \<^verbatim>\<open>row_values\<close> returns a reference to the row the value
  model returns.
\<close>

theorem heap_refines_board:
  "(unshared h s \<longrightarrow>
      map_sum id (\<lambda>h'. snapshot h' s) (h_place h s v x y) = place (snapshot h s) v x y \<and>
      map_sum id (\<lambda>h'. snapshot h' s) (h_unplace h s x y) = unplace (snapshot h s) x y) \<and>
   (h_place h s v x y = Inr h' \<or> h_unplace h s x y = Inr h' \<longrightarrow>
      (unshared h' s \<longleftrightarrow> unshared h s)) \<and>
   h_value_at h s x y = value_at (snapshot h s) x y \<and>
   map_sum id (row_at h) (h_row_values h s i) = row_values (snapshot h s) i \<and>
   h_column_values h s i = column_values (snapshot h s) i \<and>
   h_block_values h s i = block_values (snapshot h s) i \<and>
   h_options_at h s x y = options_at (snapshot h s) x y \<and>
   h_next_empty_index h s = next_empty_index (snapshot h s) \<and>
   h_is_solved h s = is_solved (snapshot h s) \<and>
   h_str_sudoku h s = str_sudoku (snapshot h s)"
  by (auto simp: h_place_def h_unplace_def place_snapshot unplace_eq_place h_read_snapshot
      h_row_values_snapshot unshared_h_set_cell)

theorem heap_refines_board_witness:
  "unshared rows_heap (h_init 0) \<and>
   snapshot rows_heap (h_init 0) = init [[0, 0, 0], [0, 0, 0], [0, 0, 0]] \<and>
   map_sum id (\<lambda>h'. snapshot h' (h_init 0)) (h_place rows_heap (h_init 0) 5 0 0) =
     Inr (init [[5, 0, 0], [0, 0, 0], [0, 0, 0]]) \<and>
   h_column_values rows_heap (h_init 0) 0 = Inr [0, 0, 0] \<and>
   h_next_empty_index rows_heap (h_init 0) = Inr (0, 0)"
proof -
  have u: "unshared rows_heap (h_init 0)"
    and s: "snapshot rows_heap (h_init 0) = init [[0, 0, 0], [0, 0, 0], [0, 0, 0]]"
    by (simp_all add: unshared_def heap_defs rows_heap_def)
  have "place (init [[0, 0, 0], [0, 0, 0], [0, 0, 0]]) 5 0 0 = Inr (init [[5, 0, 0], [0, 0, 0], [0, 0, 0]])"
    "column_values (init [[0, 0, 0], [0, 0, 0], [0, 0, 0]]) 0 = Inr [0, 0, 0]"
    "next_empty_index (init [[0, 0, 0], [0, 0, 0], [0, 0, 0]]) = Inr (0, 0)"
    by (simp_all add: board_defs py_eval)
  with heap_refines_board [of rows_heap "h_init 0" 5 0 0 _ 0] u s show ?thesis
    by (simp only: simp_thms)
qed

text \<open>
  C26. Rows that are one object change together, and \<^verbatim>\<open>row_values\<close> returns the
  live row. After \<^verbatim>\<open>place(v, x, y)\<close> returns, \<^verbatim>\<open>value_at(x, y')\<close> returns \<open>v\<close> for
  every row \<open>y'\<close> for which \<^verbatim>\<open>row_values\<close> returns the object it returns for \<open>y\<close>,
  and a list \<^verbatim>\<open>row_values\<close> returned for such a row before the call holds \<open>v\<close> at
  \<open>x\<close> after it; on the grid \<^verbatim>\<open>[[0] * 3] * 3\<close> one call fills a whole column.
\<close>

theorem heap_place_shared:
  assumes "h_place h s v x y = Inr h'"
    and "h_row_values h s y = Inr r" "h_row_values h s y' = Inr r"
  shows "h_value_at h' s x y' = Inr v \<and> py_get (row_at h' r) x = Inr v \<and>
         h_row_values h' s y' = Inr r"
proof -
  note w = h_set_cell_Inr [OF assms(1) [unfolded h_place_def]]
  from assms(2,3) have r: "index_ok (length (row_refs h s)) y'"
      "row_refs h s ! pos (length (row_refs h s)) y' = r"
      "row_refs h s ! pos (length (row_refs h s)) y = r"
    by (simp_all add: h_row_values_def row_refs_def py_get_Inr)
  from w(4) have "pos (length (row_at h r)) x < length (row_at h r)"
    unfolding r(3) by (rule pos_less)
  with w r show ?thesis
    by (simp add: h_value_at_def h_get_cell_def h_row_values_def py_get_eq row_refs_def)
qed

theorem heap_place_shared_witness:
  "h_place zeros_heap (h_init 0) 5 0 0 = Inr (zeros_heap\<lparr>row_at := (row_at zeros_heap)(1 := [5, 0, 0])\<rparr>) \<and>
   h_row_values zeros_heap (h_init 0) 0 = Inr 1 \<and> h_row_values zeros_heap (h_init 0) 2 = Inr 1 \<and>
   h_value_at (zeros_heap\<lparr>row_at := (row_at zeros_heap)(1 := [5, 0, 0])\<rparr>) (h_init 0) 0 2 = Inr 5 \<and>
   snapshot (zeros_heap\<lparr>row_at := (row_at zeros_heap)(1 := [5, 0, 0])\<rparr>) (h_init 0) =
     init [[5, 0, 0], [5, 0, 0], [5, 0, 0]] \<and>
   \<not> unshared zeros_heap (h_init 0)"
proof -
  have p: "h_place zeros_heap (h_init 0) 5 0 0 =
      Inr (zeros_heap\<lparr>row_at := (row_at zeros_heap)(1 := [5, 0, 0])\<rparr>)"
    and r: "h_row_values zeros_heap (h_init 0) 0 = Inr 1" "h_row_values zeros_heap (h_init 0) 2 = Inr 1"
    by (simp_all add: heap_defs zeros_heap_def py_get_def py_set_def norm_index_def)
  have "snapshot (zeros_heap\<lparr>row_at := (row_at zeros_heap)(1 := [5, 0, 0])\<rparr>) (h_init 0) =
     init [[5, 0, 0], [5, 0, 0], [5, 0, 0]]" "\<not> unshared zeros_heap (h_init 0)"
    by (simp_all add: heap_defs zeros_heap_def unshared_def)
  with heap_place_shared [OF p r] p r show ?thesis
    by (simp only: simp_thms)
qed

end
