(* ===== verification/Spec2Isabelle.thy ===== *)
theory Spec2Isabelle
  imports Board_Spec Solver Loader Heap_Board
begin

text \<open>
  \<^bold>\<open>A verification development for \<^verbatim>\<open>src/sudoku.py\<close>.\<close>

  The program is one class, \<^verbatim>\<open>Sudoku\<close>, a mutable 9 by 9 board stored as a list of
  rows, and one function, \<^verbatim>\<open>load_from_file\<close>, that builds a board from a text file.
  A backtracking solver (not part of the source) is the intended caller: it asks
  \<^verbatim>\<open>next_empty_index\<close> for a cell, \<^verbatim>\<open>options_at\<close> for the digits still allowed
  there, commits one with \<^verbatim>\<open>place\<close>, withdraws it with \<^verbatim>\<open>unplace\<close>, and stops when
  \<^verbatim>\<open>is_solved\<close> holds.

  \<^bold>\<open>Conventions.\<close> Integers are Python's unbounded ones (\<open>int\<close>); \<^verbatim>\<open>//\<close> and \<^verbatim>\<open>%\<close>
  are \<open>div\<close> and \<open>mod\<close> on \<open>int\<close>, which round the same way. A method that can raise
  returns a \<open>result\<close> (\<open>Inl\<close> the exception); a method that mutates the board returns
  the new board. Coordinates are \<open>(x, y)\<close> = (column, row), as in the source, and a
  cell is \<^verbatim>\<open>_grid[y][x]\<close>. Reference definitions use naturals below 9 for positions
  and \<open>cell s x y\<close> for the content.

  \<^bold>\<open>Theories.\<close>

  \<^item> \<open>Py_Prelude\<close>: the Python fragment the source is written in. Results with
    exceptions (\<open>error\<close>, \<open>result\<close>, \<open>bind_result\<close>), list subscription and item
    assignment with Python's negative indices and \<^verbatim>\<open>IndexError\<close> (\<open>py_get\<close>,
    \<open>py_set\<close>), \<^verbatim>\<open>range\<close> (\<open>py_range\<close>), and the loop shapes of the source
    (\<open>for_each\<close>, a loop over an accumulator; \<open>for_first\<close>, a loop left by
    \<^verbatim>\<open>return\<close>; \<open>map_result\<close>, a loop that collects). Its lemmas say when each
    succeeds and what it returns.
  \<^item> \<open>Board\<close>: the state and the cell operations of the class. The record \<open>sudoku\<close>
    is its state (\<open>grid\<close> is \<^verbatim>\<open>_grid\<close>); \<open>init\<close> is \<^verbatim>\<open>__init__\<close>, and \<open>place\<close>,
    \<open>unplace\<close>, \<open>value_at\<close> are the methods of these names, over \<open>get_cell\<close> and
    \<open>set_cell\<close>, the expression \<^verbatim>\<open>self._grid[y][x]\<close> read and assigned. The theory
    proves the laws of reading and writing one cell on a grid of any shape (which
    coordinates are accepted, which cell is written, that no other cell changes), the
    two invariants \<open>wf_board\<close> (9 rows of 9 cells) and \<open>digits_ok\<close> (values in 0..9),
    and that \<open>unplace\<close> undoes \<open>place\<close> on an empty cell.
  \<^item> \<open>Board_Views\<close>: \<^verbatim>\<open>row_values\<close>, \<^verbatim>\<open>column_values\<close>, \<^verbatim>\<open>block_values\<close> with their
    loops, and \<open>block_index\<close>, the block number \<^verbatim>\<open>options_at\<close> computes. Each view is
    shown equal to the contents of a list of positions (\<open>row_cells\<close>, \<open>column_cells\<close>,
    \<open>block_cells\<close>) for every index Python accepts, the nine blocks are shown to
    partition the board, and on a grid of any shape each view is the sequence of the
    reads of \<^verbatim>\<open>value_at\<close> its loop performs.
  \<^item> \<open>Board_Queries\<close>: \<^verbatim>\<open>options_at\<close>, \<^verbatim>\<open>next_empty_index\<close>, \<^verbatim>\<open>is_solved\<close>. They are
    shown equal to their references: the digits no \<open>peer\<close> holds (\<open>candidates\<close>), the
    first position of \<open>row_major\<close> that holds 0 (\<open>first_empty\<close>), and the absence of
    0. The behaviour for negative coordinates is characterised as well, and so is
    the scan of \<^verbatim>\<open>next_empty_index\<close> on a grid that is not 9 by 9 (\<open>first_stop\<close>),
    where it raises \<^verbatim>\<open>IndexError\<close> or misses cells that \<^verbatim>\<open>is_solved\<close> sees.
  \<^item> \<open>Sudoku_Rules\<close>: the rules of the game as a reference predicate (\<open>rules_ok\<close> over
    the 27 \<open>groups\<close>), and what the queries promise a solver with respect to them:
    an option keeps the rules and a non-option breaks them, a placement narrows the
    options of exactly the peers, and a solved board that obeys the rules has the
    digits 1..9 once in every row, column and block.
  \<^item> \<open>Board_Ops\<close>: the class as its caller sees it. \<open>op\<close> is a call of a public
    method, \<open>exec\<close> performs one call and \<open>run\<close> a sequence of calls on one instance,
    stopping at the first exception; \<open>run_with\<close> is the sequencing over any step
    function, and \<open>step\<close>, \<open>steps\<close> are the runs that return, as a transition
    relation. \<open>wf_exec\<close> gives reply and next board of every call; \<open>trace_ok\<close> is the
    stack discipline of a backtracking search, and a trace that follows it leaves the
    board unchanged. \<open>result_ty\<close> and \<open>has_ty\<close> type the replies, \<open>typed_board\<close> the
    state, and runs are type safe: they progress within the documented range and
    preserve the types.
  \<^item> \<open>Board_Spec\<close>: the abstract board, a map from positions to values, with the
    reply and the effect of every call (\<open>spec\<close>), and the refinement: \<open>exec\<close> and
    \<open>run\<close> commute with the abstraction \<open>abs_board\<close>, which is injective on 9 by 9
    boards.
  \<^item> \<open>Solver\<close>: a backtracking search written over the methods, as the consumer
    contract of the specification describes it (\<open>solve\<close>, \<open>try_each\<close>). It is shown
    sound, complete, free of exceptions, to restore the board it fails on, and to find
    a solution whenever the board has one.
  \<^item> \<open>Py_Strings\<close>: the string operations \<^verbatim>\<open>__str__\<close> and \<^verbatim>\<open>load_from_file\<close> use
    (\<open>str_int\<close>, \<open>str_list\<close>, \<open>replace_char\<close>, \<open>py_slice\<close>, \<open>py_strip\<close>, \<open>py_split\<close>,
    \<open>py_int\<close>), with the round trip between \<open>str_int\<close> and \<open>py_int\<close> and between
    \<open>join\<close> and \<open>py_split\<close>. \<^verbatim>\<open>str.strip\<close> and \<^verbatim>\<open>int\<close> have their own white space
    (\<open>is_space\<close>, \<open>is_int_space\<close>): \<^verbatim>\<open>int\<close> does not skip the separators U+001C to
    U+001F, which \<^verbatim>\<open>strip\<close> removes.
  \<^item> \<open>Render\<close>: \<^verbatim>\<open>Sudoku.__str__\<close> (\<open>str_sudoku\<close>, \<open>render_row\<close>): the text is the
    values separated by single spaces and the rows by newlines; on a board of digits
    the cell \<open>(x, y)\<close> is the character at \<open>18 * y + 2 * x\<close>.
  \<^item> \<open>Loader\<close>: \<^verbatim>\<open>load_from_file\<close>. The file system is a map from the names
    \<^verbatim>\<open>open\<close> accepts to the contents of the files; \<open>open_text\<close> is \<^verbatim>\<open>open\<close> in text
    mode, with \<^verbatim>\<open>OSError\<close> for any other name and the line ends translated
    (\<open>universal_newlines\<close>); \<open>file_lines\<close>, \<open>parse_line\<close> and \<open>load_lines\<close> are the
    loop over the lines. The loader reads back comma-separated text with any of the
    three line ends, raises \<^verbatim>\<open>OSError\<close> or \<^verbatim>\<open>ValueError\<close> and nothing else, builds
    one row per line and one cell per field without a check of shape or range,
    does not read the text \<^verbatim>\<open>__str__\<close> writes, and accepts around a field the white
    space of \<^verbatim>\<open>int\<close> only, which is less than \<^verbatim>\<open>strip\<close> removes at the ends of a
    line.
  \<^item> \<open>Heap_Board\<close>: every method of the class again, over an explicit heap of list
    objects (\<open>pyheap\<close>, \<open>h_place\<close>, \<open>h_value_at\<close>, ..., \<open>h_str_sudoku\<close>), since
    \<^verbatim>\<open>__init__\<close> keeps the list it is given. The methods that read agree with the
    value model of \<open>Board\<close> on every heap, the methods that write on a heap whose
    rows are distinct objects; rows that are one object change together, and
    \<^verbatim>\<open>row_values\<close> returns the live row.

  \<^bold>\<open>How the parts interact.\<close> \<open>Board\<close>, \<open>Board_Views\<close> and \<open>Board_Queries\<close> are the
  class; everything else is stated over their definitions. \<open>Board_Ops\<close> packages the
  methods behind one step function, which \<open>Board_Spec\<close> refines to the abstract
  board and whose clients (\<open>Solver\<close>, the traces of \<open>trace_ok\<close>) rely on the laws
  of \<open>Board\<close> and on \<open>Sudoku_Rules\<close>. \<open>Loader\<close> produces the argument of \<open>init\<close>
  and \<open>Render\<close> consumes a board; both rest on \<open>Py_Strings\<close>. \<open>Heap_Board\<close> says
  when the value model of all the other theories is the right one. This theory
  follows a board from the file through the search to the text (\<open>load_solve\<close>,
  \<open>solved_text\<close>).

  \<^bold>\<open>What is not modelled.\<close> The decoding of the bytes of a file: the file system
  holds decoded text, and a file that does not decode (\<^verbatim>\<open>UnicodeDecodeError\<close>, a
  \<^verbatim>\<open>ValueError\<close>) is not in it. The subclasses of \<^verbatim>\<open>OSError\<close>
  (\<^verbatim>\<open>FileNotFoundError\<close>, \<^verbatim>\<open>PermissionError\<close>, ...) are one exception here.
  Characters outside Latin-1, and with them the line ends and the digits Python
  knows beyond that range. CPython's limit on the number of digits of an integer
  (4300 by default in CPython 3.11 and later), beyond which \<^verbatim>\<open>int\<close> of a string and
  \<^verbatim>\<open>str\<close> of an integer raise \<^verbatim>\<open>ValueError\<close>: \<open>py_int\<close> and \<open>str_int\<close> are the
  conversions below that limit, which no board of digits reaches. The order in
  which Python iterates over a set: the solver of \<open>Solver\<close> tries the options in
  ascending order, and no property of the class depends on an order. Values that are
  not integers: the type annotations of the source are taken as given. Memory and
  recursion limits of the interpreter.

  \<^bold>\<open>Bounds and fuel.\<close> Every loop of the source runs over a finite list or range and
  is a structural recursion over that list; none takes fuel. The solver takes a
  bound on the depth of its recursion, because it is defined for every board, also
  for one that is not 9 by 9; each level fills one empty cell, so a bound above the
  number of empty cells is enough, 82 is enough for every 9 by 9 board, and a
  greater bound gives the same result (\<open>Solver.solve_fuel\<close>). The closed instances
  are evaluated on the boards \<open>empty_board\<close>, \<open>sample_board\<close>, \<open>sample_placed\<close>,
  \<open>solved_board\<close> and \<open>fives_board\<close> of \<open>Board\<close>, on \<open>tiny_board\<close> and
  \<open>stuck_board\<close> of \<open>Solver\<close>, on the heaps \<open>rows_heap\<close> and \<open>zeros_heap\<close> of
  \<open>Heap_Board\<close>, and on the file system \<open>one_file\<close> of \<open>Loader\<close>, which holds the
  one file \<^verbatim>\<open>puzzle.csv\<close>.
\<close>

section \<open>Properties across the components\<close>

lemma digit_char_of_digit:
  assumes "1 \<le> v" "v \<le> 9"
  shows "digit_char (nat v) \<in> set ''123456789''"
proof -
  from assms have "nat v \<in> {1, 2, 3, 4, 5, 6, 7, 8, 9}"
    by auto
  then show ?thesis
    by (auto simp: digit_char_def)
qed

lemma empty_board_scenario:
  "run [Next_Empty_Index, Options_At 0 0, Is_Solved, Place 5 0 0, Options_At 1 0, Value_At 0 0,
        Is_Solved] empty_board =
   Inr ([Pos (0, 0), Opts {9, 8, 7, 6, 5, 4, 3, 2, 1}, Flag False, Done,
         Opts {9, 8, 7, 6, 4, 3, 2, 1}, Val 5, Flag False],
        put_cell empty_board 0 0 5)"
  by (simp add: run_eval board_examples board_defs py_eval put_cell_def upd_at_def)

lemma valid_rows_nonempty: "valid s \<Longrightarrow> \<forall>row \<in> set (grid s). row \<noteq> []"
  by (auto simp: valid_def wf_board_def wf_grid_def list_all_iff)

text \<open>
  C22. From the file to the solution. For a 9 by 9 board of digits that obeys the
  rules and has a solution, written to a file in the comma-separated format with any
  of the three line ends, \<^verbatim>\<open>load_from_file\<close> returns the board and the search of
  depth 82 on what it returns reports success with a solution of the board.
\<close>

theorem load_solve:
  assumes "valid s" "solution s u" "nl \<in> set line_ends" "fs name = Some (csv_text_with nl s)"
  shows "\<exists>t. map_sum id (solve 82) (load_from_file fs name) = Inr (Some (Inr (True, t))) \<and>
             solution s t"
proof -
  from valid_rows_nonempty [OF assms(1)] assms(3,4) have "load_from_file fs name = Inr s"
    by (rule load_csv)
  with solve_success [OF assms(1,2), of 82] show ?thesis
    by simp
qed

theorem load_solve_witness:
  "valid tiny_board \<and> solution tiny_board solved_board \<and>
   (\<exists>t. map_sum id (solve 82)
          (load_from_file (one_file (csv_text_with [CHR 0x0D, CHR 0x0A] tiny_board)) ''puzzle.csv'') =
        Inr (Some (Inr (True, t))) \<and> solution tiny_board t)"
  using load_solve [OF valid_examples(1) solution_tiny, of "[CHR 0x0D, CHR 0x0A]"
      "one_file (csv_text_with [CHR 0x0D, CHR 0x0A] tiny_board)" "''puzzle.csv''"]
    valid_examples(1) solution_tiny
  by (simp add: line_ends_def one_file_def)

text \<open>
  C23. From the search to the text. When the search succeeds on a 9 by 9 board of
  digits that obeys the rules, the text \<^verbatim>\<open>__str__\<close> returns for the board it leaves
  has 161 characters, shows a digit of 1..9 at the position \<open>18 * y + 2 * x\<close> of
  every cell, and shows every cell that was filled at the start with its value.
\<close>

theorem solved_text:
  assumes "valid s" "solve n s = Some (Inr (True, t))" "x < 9" "y < 9"
  shows "length (str_sudoku t) = 161 \<and>
         str_sudoku t ! (18 * y + 2 * x) \<in> set ''123456789'' \<and>
         (cell s x y \<noteq> 0 \<longrightarrow> str_sudoku t ! (18 * y + 2 * x) = digit_char (nat (cell s x y)))"
proof -
  from assms(1) have "wf_board s"
    by (simp add: valid_def)
  from solve_restores [OF this assms(2)] solve_valid [OF assms(1,2)]
  have t: "wf_board t" "digits_ok t" "is_solved t" and ext: "extends s t"
    by (simp_all add: restores_Inr valid_def)
  from t assms(3,4) have "cell t x y \<noteq> 0"
    by (simp add: wf_is_solved)
  with digits_ok_cell [OF t(1,2) assms(3,4)] have "1 \<le> cell t x y" "cell t x y \<le> 9"
    by (simp_all add: is_digit_def)
  then have "digit_char (nat (cell t x y)) \<in> set ''123456789''"
    by (rule digit_char_of_digit)
  moreover from ext assms(3,4) have "cell s x y \<noteq> 0 \<longrightarrow> cell t x y = cell s x y"
    by (simp add: extends_iff)
  ultimately show ?thesis
    using t assms(3,4) by (simp add: wf_str_sudoku length_board_text nth_board_text)
qed

theorem solved_text_witness:
  "valid tiny_board \<and> solve 4 tiny_board = Some (Inr (True, solved_board)) \<and>
   length (str_sudoku solved_board) = 161 \<and> cell tiny_board 2 0 = 4 \<and>
   str_sudoku solved_board ! (18 * 0 + 2 * 2) = CHR ''4''"
proof -
  have "cell tiny_board 2 0 = 4"
    by (simp add: tiny_board_def init_def cell_def)
  with solved_text [OF valid_examples(1) solve_tiny, of 2 0] valid_examples(1) solve_tiny
  show ?thesis
    by (simp add: digit_char_def)
qed

end
